(* ===== verification/Go_Prelude.thy ===== *)
theory Go_Prelude
  imports Main "HOL-Library.AList" "HOL-Library.Multiset"
begin

text \<open>
  What the components share of the Go language and of its standard library:
  \<^item> maps (\<open>map[K]V\<close>) as association lists with distinct keys, their laws stated once as
    the locale \<open>go_map\<close> and interpreted on the library's association lists;
  \<^item> \<open>range\<close> over a map, whose order Go leaves open: an order is a rank of the keys;
  \<^item> the part of \<open>fmt\<close> the error messages use, and \<open>strings.Split\<close>;
  \<^item> the collections of facts the component theories add to and use.
\<close>

named_theorems api_consts \<open>the string constants of the API types\<close>
named_theorems rpc_consts \<open>the numeric constants of the RPC types\<close>
named_theorems vc_intros \<open>verification conditions of the monad and of the calls to the outside\<close>
named_theorems only_intros \<open>which calls a step makes at all\<close>

subsection \<open>Maps\<close>

type_synonym ('k, 'v) gomap = "('k \<times> 'v) list"

abbreviation gput :: "'k \<Rightarrow> 'v \<Rightarrow> ('k, 'v) gomap \<Rightarrow> ('k, 'v) gomap" where
  "gput \<equiv> AList.update"

abbreviation gdel :: "'k \<Rightarrow> ('k, 'v) gomap \<Rightarrow> ('k, 'v) gomap" where
  "gdel \<equiv> AList.delete"

abbreviation gkeys :: "('k, 'v) gomap \<Rightarrow> 'k list" where
  "gkeys m \<equiv> map fst m"

definition ghas :: "('k, 'v) gomap \<Rightarrow> 'k \<Rightarrow> bool" where
  "ghas m k \<longleftrightarrow> map_of m k \<noteq> None"

text \<open>\<open>m[k]\<close> on a map of strings: the zero value when the key is absent.\<close>

definition gstr :: "('k, string) gomap \<Rightarrow> 'k \<Rightarrow> string" where
  "gstr m k = (case map_of m k of None \<Rightarrow> '''' | Some v \<Rightarrow> v)"

text \<open>\<open>for k, v := range m\<close>: the entries in some order. Every order of distinct keys is
  the order of some rank.\<close>

definition range_map :: "('k \<Rightarrow> nat) \<Rightarrow> ('k, 'v) gomap \<Rightarrow> ('k \<times> 'v) list" where
  "range_map rank m = sort_key (\<lambda>e. rank (fst e)) m"

subsection \<open>Formatting\<close>

datatype fmtarg = AStr string | ANat nat | AErrs "string list" | AText string

fun nat_str :: "nat \<Rightarrow> string" where
  "nat_str n = (if n < 10 then [char_of (48 + n)] else nat_str (n div 10) @ [char_of (48 + n mod 10)])"

declare nat_str.simps [simp del]

text \<open>\<open>%q\<close>: a Go string literal. Double quotes, backslashes and control characters are
  escaped; the other characters stand for themselves (so the text is exact for strings whose
  characters beyond ASCII are printable).\<close>

definition hex_digit :: "nat \<Rightarrow> char" where
  "hex_digit n = (if n < 10 then char_of (48 + n) else char_of (87 + n))"

definition quote_char :: "char \<Rightarrow> string" where
  "quote_char c =
     (let n = (of_char c :: nat)
      in if n = 34 \<or> n = 92 then [CHR 0x5C, c]
         else if n = 7 then [CHR 0x5C, CHR ''a'']
         else if n = 8 then [CHR 0x5C, CHR ''b'']
         else if n = 9 then [CHR 0x5C, CHR ''t'']
         else if n = 10 then [CHR 0x5C, CHR ''n'']
         else if n = 11 then [CHR 0x5C, CHR ''v'']
         else if n = 12 then [CHR 0x5C, CHR ''f'']
         else if n = 13 then [CHR 0x5C, CHR ''r'']
         else if n < 32 \<or> n = 127 then [CHR 0x5C, CHR ''x'', hex_digit (n div 16), hex_digit (n mod 16)]
         else [c])"

definition go_quote :: "string \<Rightarrow> string" where
  "go_quote s = [CHR 0x22] @ concat (map quote_char s) @ [CHR 0x22]"

fun join_with :: "string \<Rightarrow> string list \<Rightarrow> string" where
  "join_with sep [] = ''''"
| "join_with sep [x] = x"
| "join_with sep (x # y # xs) = x @ sep @ join_with sep (y # xs)"

text \<open>\<open>%v\<close> of a slice of strings.\<close>

definition go_slice :: "string list \<Rightarrow> string" where
  "go_slice xs = ''['' @ join_with '' '' xs @ '']''"

fun arg_text :: "fmtarg \<Rightarrow> string" where
  "arg_text (AStr s) = s"
| "arg_text (ANat n) = nat_str n"
| "arg_text (AErrs xs) = go_slice xs"
| "arg_text (AText s) = s"

definition fmt_verb :: "char \<Rightarrow> fmtarg \<Rightarrow> string" where
  "fmt_verb v a = (if v = CHR ''q'' then go_quote (arg_text a) else arg_text a)"

text \<open>\<open>fmt.Sprintf\<close>: each verb takes the next argument. A percent sign with no argument left
  stands for itself.\<close>

fun sprintf :: "string \<Rightarrow> fmtarg list \<Rightarrow> string" where
  "sprintf [] args = []"
| "sprintf [c] args = [c]"
| "sprintf (c # v # f) args =
     (if c = CHR ''%'' then
        (case args of [] \<Rightarrow> c # sprintf (v # f) [] | a # as \<Rightarrow> fmt_verb v a @ sprintf f as)
      else c # sprintf (v # f) args)"

declare sprintf.simps [simp del]

subsection \<open>Strings\<close>

text \<open>\<open>string(i)\<close> for an integer: the UTF-8 bytes of the code point, the replacement character for
  a number that is no code point.\<close>

definition rune_string :: "nat \<Rightarrow> string" where
  "rune_string n =
     (if n < 128 then [char_of n]
      else if n < 2048 then [char_of (192 + n div 64), char_of (128 + n mod 64)]
      else if n < 65536 \<and> \<not> (55296 \<le> n \<and> n < 57344)
        then [char_of (224 + n div 4096), char_of (128 + n div 64 mod 64), char_of (128 + n mod 64)]
      else if 65536 \<le> n \<and> n < 1114112
        then [char_of (240 + n div 262144), char_of (128 + n div 4096 mod 64),
              char_of (128 + n div 64 mod 64), char_of (128 + n mod 64)]
      else [char_of (239 :: nat), char_of (191 :: nat), char_of (189 :: nat)])"

text \<open>\<open>strings.Split(s, ".")\<close>: the parts between the separators, at least one.\<close>

fun split_on :: "char \<Rightarrow> string \<Rightarrow> string list" where
  "split_on sep [] = [[]]"
| "split_on sep (c # s) =
     (if c = sep then [] # split_on sep s
      else (case split_on sep s of [] \<Rightarrow> [[c]] | p # ps \<Rightarrow> (c # p) # ps))"

definition has_prefix :: "string \<Rightarrow> string \<Rightarrow> bool" where
  "has_prefix s p \<longleftrightarrow> take (length p) s = p"

definition has_suffix :: "string \<Rightarrow> string \<Rightarrow> bool" where
  "has_suffix s p \<longleftrightarrow> length p \<le> length s \<and> drop (length s - length p) s = p"

subsection \<open>The contract of a map\<close>

text \<open>
  What every use of a Go map relies on. Inside the locale: copying the entries of one map into
  another, in whatever order \<open>range\<close> visits them, gives the target overridden by the source.
\<close>

locale go_map =
  fixes lookup :: "'m \<Rightarrow> 'k \<Rightarrow> 'v option"
    and put :: "'k \<Rightarrow> 'v \<Rightarrow> 'm \<Rightarrow> 'm"
    and del :: "'k \<Rightarrow> 'm \<Rightarrow> 'm"
    and entries :: "'m \<Rightarrow> ('k \<times> 'v) list"
    and ok :: "'m \<Rightarrow> bool"
  assumes lookup_put: "lookup (put k v m) = (lookup m)(k \<mapsto> v)"
    and lookup_del: "lookup (del k m) = (lookup m)(k := None)"
    and lookup_entries: "ok m \<Longrightarrow> map_of (entries m) = lookup m"
    and entries_distinct: "ok m \<Longrightarrow> distinct (map fst (entries m))"
    and ok_put: "ok m \<Longrightarrow> ok (put k v m)"
    and ok_del: "ok m \<Longrightarrow> ok (del k m)"
begin

lemma lookup_fold_put:
  "distinct (map fst es) \<Longrightarrow> lookup (fold (\<lambda>(k, v). put k v) es t) = lookup t ++ map_of es"
proof (induction es arbitrary: t)
  case Nil
  then show ?case by simp
next
  case (Cons e es)
  obtain k v where e: "e = (k, v)" by fastforce
  with Cons.prems have k: "k \<notin> fst ` set es" by simp
  have "lookup (fold (\<lambda>(k, v). put k v) (e # es) t) = (lookup t)(k \<mapsto> v) ++ map_of es"
    using Cons e by (simp add: lookup_put)
  also have "\<dots> = lookup t ++ map_of (e # es)"
    using k by (simp add: e map_add_upd_left dom_map_of_conv_image_fst)
  finally show ?case .
qed

lemma lookup_copy_any_order:
  assumes "ok s" and "mset es = mset (entries s)"
  shows "lookup (fold (\<lambda>(k, v). put k v) es t) = lookup t ++ lookup s"
proof -
  have d: "distinct (map fst es)"
    using entries_distinct [OF assms(1)] assms(2) by (metis mset_eq_imp_distinct_iff mset_map)
  have "map_of es = map_of (entries s)"
    using d entries_distinct [OF assms(1)] mset_eq_setD [OF assms(2)] by (simp add: map_of_inject_set)
  then show ?thesis
    using lookup_fold_put [OF d] lookup_entries [OF assms(1)] by simp
qed

lemma ok_fold_put: "ok t \<Longrightarrow> ok (fold (\<lambda>(k, v). put k v) es t)"
  by (induction es arbitrary: t) (auto simp: ok_put)

end

interpretation alist: go_map map_of gput gdel "\<lambda>m. m" "\<lambda>m. distinct (gkeys m)"
proof unfold_locales
  show "map_of (gput k v m) = (map_of m)(k \<mapsto> v)" for k :: 'a and v :: 'b and m
    by (rule update_conv')
  show "map_of (gdel k m) = (map_of m)(k := None)" for k :: 'a and m :: "('a, 'b) gomap"
    by (rule delete_conv')
qed (auto simp: distinct_update distinct_delete)

subsection \<open>Shared lemmas\<close>

lemma ghas_put [simp]: "ghas (gput k v m) k' \<longleftrightarrow> k' = k \<or> ghas m k'"
  by (simp add: ghas_def update_conv')

lemma ghas_del [simp]: "ghas (gdel k m) k' \<longleftrightarrow> k' \<noteq> k \<and> ghas m k'"
  by (simp add: ghas_def delete_conv')

lemma ghas_Nil [simp]: "\<not> ghas [] k"
  by (simp add: ghas_def)

lemma ghas_iff_keys: "ghas m k \<longleftrightarrow> k \<in> set (gkeys m)"
  by (auto simp: ghas_def map_of_eq_None_iff)

lemma gkeys_put: "set (gkeys (gput k v m)) = insert k (set (gkeys m))"
  using dom_update [of k v m] by (simp add: dom_map_of_conv_image_fst)

lemma range_map_mset [simp]: "mset (range_map rank m) = mset m"
  by (simp add: range_map_def)

lemma range_map_set [simp]: "set (range_map rank m) = set m"
  by (simp add: range_map_def)

lemma range_map_Nil [simp]: "range_map rank [] = []"
  by (simp add: range_map_def)

lemma range_map_length [simp]: "length (range_map rank m) = length m"
  by (simp add: range_map_def)

lemma range_map_distinct: "distinct (gkeys m) \<Longrightarrow> distinct (gkeys (range_map rank m))"
  by (metis mset_eq_imp_distinct_iff mset_map range_map_mset)

lemma range_map_copy:
  "distinct (gkeys m) \<Longrightarrow> map_of (fold (\<lambda>(k, v). gput k v) (range_map rank m) t) = map_of t ++ map_of m"
  by (rule alist.lookup_copy_any_order) simp_all

lemma find_SomeD: "find P xs = Some x \<Longrightarrow> P x \<and> x \<in> set xs"
  by (induction xs) (auto split: if_splits)

lemma find_value_range_map:
  assumes "distinct (map snd m)"
  shows "find (\<lambda>(p, a'). a' = a) (range_map rank m) = Some (p, b) \<longleftrightarrow> (p, b) \<in> set m \<and> b = a"
proof
  assume "find (\<lambda>(p, a'). a' = a) (range_map rank m) = Some (p, b)"
  then show "(p, b) \<in> set m \<and> b = a" by (auto dest: find_SomeD)
next
  assume pb: "(p, b) \<in> set m \<and> b = a"
  then have "find (\<lambda>(p, a'). a' = a) (range_map rank m) \<noteq> None"
    by (auto simp: find_None_iff)
  then obtain q where q: "find (\<lambda>(p, a'). a' = a) (range_map rank m) = Some q" by blast
  from find_SomeD [OF q] have "q \<in> set m" "snd q = a" by (auto split: prod.splits)
  moreover have "inj_on snd (set m)" using assms by (simp add: distinct_map)
  ultimately have "q = (p, b)" using pb inj_onD [of snd "set m" q "(p, b)"] by auto
  then show "find (\<lambda>(p, a'). a' = a) (range_map rank m) = Some (p, b)" using q by simp
qed

lemma split_on_nonempty [simp]: "split_on sep s \<noteq> []"
  by (cases s) (auto split: list.splits)

lemma join_split: "join_with [sep] (split_on sep s) = s"
proof (induction s)
  case Nil
  then show ?case by simp
next
  case (Cons c s)
  obtain p ps where "split_on sep s = p # ps"
    by (cases "split_on sep s") auto
  with Cons show ?case by (cases ps) auto
qed

lemma split_on_parts: "p \<in> set (split_on sep s) \<Longrightarrow> sep \<notin> set p"
  by (induction s arbitrary: p) (fastforce split: list.splits if_splits)+

lemma split_on_no_sep: "sep \<notin> set s \<Longrightarrow> split_on sep s = [s]"
  by (induction s) auto

lemma split_on_append: "sep \<notin> set l \<Longrightarrow> split_on sep (l @ sep # s) = l # split_on sep s"
  by (induction l) auto

lemma split_join:
  "ls \<noteq> [] \<Longrightarrow> (\<forall>l \<in> set ls. sep \<notin> set l) \<Longrightarrow> split_on sep (join_with [sep] ls) = ls"
  by (induction "[sep]" ls rule: join_with.induct) (auto simp: split_on_no_sep split_on_append)

end
