(* ===== verification/Go_Errors.thy ===== *)
theory Go_Errors
  imports Go_Prelude "HOL-Library.Word"
begin

text \<open>
  Go errors as a tree of wrapped errors, and the error type of \<open>internal/errors/errors.go\<close>.
  The reconcilers decide between retrying and giving up by \<open>errors.Is(err,
  NonRetryableError(nil))\<close>, so the tree keeps exactly what \<open>errors.Is\<close> and
  \<open>errors.As\<close> walk: \<open>fmt.Errorf\<close> with and without \<open>%w\<close>, \<open>errors.Join\<close>, the
  non-retryable wrapper, API server errors with their reason and gRPC errors with their code.
  The lemmas show that non-retryability survives every wrapping the reconcilers use.
\<close>

subsection \<open>Error values\<close>

text \<open>The reason an API server gives with an error (\<open>metav1.StatusReason\<close>). \<open>ReasonOther\<close> is any other one of the known
  reasons; a reason that is not known comes with the HTTP code, which is looked at only then.\<close>

datatype StatusReason = ReasonNotFound | ReasonAlreadyExists | ReasonConflict | ReasonInvalid | ReasonOther | ReasonUnknown int

type_synonym Code = "32 word"

datatype gerror =
    Errorf string "fmtarg list"
  | Wrapf string "fmtarg list" gerror
  | Join "gerror list"
  | nonRetryableError "gerror option"
  | StatusError StatusReason string
  | RpcError Code string

definition NonRetryableError :: "gerror option \<Rightarrow> gerror" where
  "NonRetryableError wrapped = nonRetryableError wrapped"

text \<open>\<open>Error()\<close>. Rendering a non-retryable error around nil is a nil dereference in Go; that value
  is built only as the target of \<open>errors.Is\<close> and never rendered.\<close>

fun Error :: "gerror \<Rightarrow> string" where
  "Error (Errorf f args) = sprintf f args"
| "Error (Wrapf f args e) = sprintf f (args @ [AText (Error e)])"
| "Error (Join es) = join_with [CHR 0x0A] (map Error es)"
| "Error (nonRetryableError (Some e)) = Error e"
| "Error (nonRetryableError None) = ''''"
| "Error (StatusError r m) = m"
| "Error (RpcError c m) = m"

subsection \<open>Unwrapping\<close>

text \<open>\<open>errors.As(err, &tp)\<close> for the non-retryable type: is there one in the tree?\<close>

fun as_nonRetryable :: "gerror \<Rightarrow> bool" where
  "as_nonRetryable (Errorf f args) = False"
| "as_nonRetryable (Wrapf f args e) = as_nonRetryable e"
| "as_nonRetryable (Join es) = list_ex as_nonRetryable es"
| "as_nonRetryable (nonRetryableError e) = True"
| "as_nonRetryable (StatusError r m) = False"
| "as_nonRetryable (RpcError c m) = False"

text \<open>The \<open>Is\<close> method: a non-retryable error is any target that is one.\<close>

definition nonRetryable_Is :: "gerror \<Rightarrow> gerror \<Rightarrow> bool" where
  "nonRetryable_Is te target = as_nonRetryable target"

definition nonRetryable_Unwrap :: "gerror option \<Rightarrow> gerror option" where
  "nonRetryable_Unwrap te_err = te_err"

text \<open>\<open>errors.Is\<close> for a target that is a freshly allocated pointer: no error of the tree is
  identical to it, so only \<open>Is\<close> methods and \<open>Unwrap\<close> count.\<close>

fun errors_Is :: "gerror \<Rightarrow> gerror \<Rightarrow> bool" where
  "errors_Is (Errorf f args) target = False"
| "errors_Is (Wrapf f args e) target = errors_Is e target"
| "errors_Is (Join es) target = list_ex (\<lambda>e. errors_Is e target) es"
| "errors_Is (nonRetryableError (Some e)) target =
     (nonRetryable_Is (nonRetryableError (Some e)) target \<or> errors_Is e target)"
| "errors_Is (nonRetryableError None) target = nonRetryable_Is (nonRetryableError None) target"
| "errors_Is (StatusError r m) target = False"
| "errors_Is (RpcError c m) target = False"

definition is_nonretryable :: "gerror \<Rightarrow> bool" where
  "is_nonretryable e = errors_Is e (NonRetryableError None)"

fun first_some :: "('a \<Rightarrow> 'b option) \<Rightarrow> 'a list \<Rightarrow> 'b option" where
  "first_some f [] = None"
| "first_some f (x # xs) = (case f x of None \<Rightarrow> first_some f xs | Some y \<Rightarrow> Some y)"

lemma first_some_cong [fundef_cong]:
  "xs = ys \<Longrightarrow> (\<And>x. x \<in> set ys \<Longrightarrow> f x = g x) \<Longrightarrow> first_some f xs = first_some g ys"
proof (induction xs arbitrary: ys)
  case (Cons x xs)
  then show ?case by (cases ys) (auto split: option.splits)
qed simp

fun as_status :: "gerror \<Rightarrow> StatusReason option" where
  "as_status (StatusError r m) = Some r"
| "as_status (Wrapf f args e) = as_status e"
| "as_status (Join es) = first_some as_status es"
| "as_status (nonRetryableError (Some e)) = as_status e"
| "as_status _ = None"

definition IsNotFound :: "gerror \<Rightarrow> bool" where
  "IsNotFound e \<longleftrightarrow> as_status e = Some ReasonNotFound \<or> as_status e = Some (ReasonUnknown 404)"

definition IsAlreadyExists :: "gerror \<Rightarrow> bool" where
  "IsAlreadyExists e \<longleftrightarrow> as_status e = Some ReasonAlreadyExists"

fun as_code :: "gerror \<Rightarrow> Code option" where
  "as_code (RpcError c m) = Some c"
| "as_code (Wrapf f args e) = as_code e"
| "as_code (Join es) = first_some as_code es"
| "as_code (nonRetryableError (Some e)) = as_code e"
| "as_code _ = None"

definition codes_Unknown :: Code where [rpc_consts]: "codes_Unknown = 2"

definition status_Code :: "gerror \<Rightarrow> Code" where
  "status_Code e = (case as_code e of None \<Rightarrow> codes_Unknown | Some c \<Rightarrow> c)"

subsection \<open>What a reconcile returns\<close>

text \<open>\<open>(reconcile.Result{}, err)\<close>: no error, an error that is requeued with backoff, or an error
  wrapped by \<open>reconcile.TerminalError\<close>, which is not requeued.\<close>

datatype outcome = Success | Requeue gerror | Terminal gerror

subsection \<open>Non-retryability\<close>

lemma nonRetryable_Is_target [simp]: "nonRetryable_Is te (NonRetryableError e)"
  by (simp add: nonRetryable_Is_def NonRetryableError_def)

lemma errors_Is_iff_As: "errors_Is e (NonRetryableError t) \<longleftrightarrow> as_nonRetryable e"
proof (induction e)
  case (Join es)
  then show ?case by (auto simp: list_ex_iff)
next
  case (nonRetryableError x)
  then show ?case by (cases x) auto
qed auto

lemma is_nonretryable_simps [simp]:
  "is_nonretryable (Errorf f args) = False"
  "is_nonretryable (Wrapf f args e) = is_nonretryable e"
  "is_nonretryable (Join es) = (\<exists>e \<in> set es. is_nonretryable e)"
  "is_nonretryable (nonRetryableError w) = True"
  "is_nonretryable (NonRetryableError w) = True"
  "is_nonretryable (StatusError r m) = False"
  "is_nonretryable (RpcError c m) = False"
  unfolding is_nonretryable_def errors_Is_iff_As
  by (simp_all add: list_ex_iff NonRetryableError_def)

lemma as_status_StatusError [simp]: "IsNotFound (StatusError r m) \<longleftrightarrow> r = ReasonNotFound \<or> r = ReasonUnknown 404"
  by (simp add: IsNotFound_def)

lemma IsAlreadyExists_StatusError [simp]: "IsAlreadyExists (StatusError r m) \<longleftrightarrow> r = ReasonAlreadyExists"
  by (simp add: IsAlreadyExists_def)

lemma status_Code_RpcError [simp]: "status_Code (RpcError c m) = c"
  by (simp add: status_Code_def)

text \<open>Every wrapping of a tree keeps its text inside.\<close>

lemma sprintf_prefix: "CHR ''%'' \<notin> set p \<Longrightarrow> f \<noteq> [] \<Longrightarrow> sprintf (p @ f) args = p @ sprintf f args"
proof (induction p)
  case (Cons c p)
  then show ?case by (cases "p @ f") (auto simp: sprintf.simps)
qed simp

end
