(* ===== verification/Go_Monad.thy ===== *)
theory Go_Monad
  imports Go_Errors
begin

text \<open>
  Go functions with effects: a state that survives an error (Go keeps every mutation made before a
  \<open>return err\<close>) and a result that is an error or a value. \<open>bind\<close> is the sequence with
  \<open>if err != nil \{ return err \}\<close>, \<open>on_err\<close> the same with the error wrapped, \<open>handle\<close> gives the
  error to a handler and the value to the rest.
\<close>

type_synonym ('s, 'a) prog = "'s \<Rightarrow> (gerror + 'a) \<times> 's"

definition ret :: "'a \<Rightarrow> ('s, 'a) prog" where
  "ret x = (\<lambda>s. (Inr x, s))"

definition fail :: "gerror \<Rightarrow> ('s, 'a) prog" where
  "fail e = (\<lambda>s. (Inl e, s))"

definition bind :: "('s, 'a) prog \<Rightarrow> ('a \<Rightarrow> ('s, 'b) prog) \<Rightarrow> ('s, 'b) prog" where
  "bind m f = (\<lambda>s. case m s of (Inl e, s') \<Rightarrow> (Inl e, s') | (Inr x, s') \<Rightarrow> f x s')"

definition on_err :: "(gerror \<Rightarrow> gerror) \<Rightarrow> ('s, 'a) prog \<Rightarrow> ('s, 'a) prog" where
  "on_err h m = (\<lambda>s. case m s of (Inl e, s') \<Rightarrow> (Inl (h e), s') | (Inr x, s') \<Rightarrow> (Inr x, s'))"

definition handle :: "('s, 'a) prog \<Rightarrow> (gerror \<Rightarrow> ('s, 'b) prog) \<Rightarrow> ('a \<Rightarrow> ('s, 'b) prog) \<Rightarrow> ('s, 'b) prog" where
  "handle m h k = (\<lambda>s. case m s of (Inl e, s') \<Rightarrow> h e s' | (Inr x, s') \<Rightarrow> k x s')"

definition lift_sum :: "gerror + 'a \<Rightarrow> ('s, 'a) prog" where
  "lift_sum r = (\<lambda>s. (r, s))"

definition modify :: "('s \<Rightarrow> 's) \<Rightarrow> ('s, unit) prog" where
  "modify f = (\<lambda>s. (Inr (), f s))"

definition gets :: "('s \<Rightarrow> 'a) \<Rightarrow> ('s, 'a) prog" where
  "gets f = (\<lambda>s. (Inr (f s), s))"

definition seq :: "('s, unit) prog \<Rightarrow> ('s, 'b) prog \<Rightarrow> ('s, 'b) prog" where
  "seq m n = bind m (\<lambda>_. n)"

text \<open>\<open>if c \{ ... \}\<close> without an else.\<close>

definition when_cond :: "bool \<Rightarrow> ('s, unit) prog \<Rightarrow> ('s, unit) prog" where
  "when_cond c m = (if c then m else ret ())"

end
