(* ===== verification/Cosi_Api.thy ===== *)
theory Cosi_Api
  imports Go_Monad
begin

text \<open>
  The Kubernetes resources of COSI: the types under \<open>client/apis/objectstorage/v1alpha2\<close>, one
  record per struct with the struct's fields, the string constants, and the validation rules the
  types carry as \<open>kubebuilder\<close> markers for fields that are immutable once set. The object
  metadata and the helpers on it (finalizers, owner references) are those of the vendored
  \<open>apimachinery\<close> and \<open>controller-runtime\<close> packages, as far as the controllers use them. A nil
  and an empty annotation map cannot be told apart by the code, so both are the empty map.
\<close>

subsection \<open>Metadata\<close>

type_synonym time = int
type_synonym UID = string

text \<open>A zero \<open>time.Time\<close> is 0; a timestamp pointer is zero when it is nil or points to zero.\<close>

definition IsZero :: "time option \<Rightarrow> bool" where
  "IsZero t = (case t of None \<Rightarrow> True | Some x \<Rightarrow> x = 0)"

record OwnerReference =
  owner_APIVersion :: string
  owner_Kind :: string
  owner_Name :: string
  owner_UID :: UID
  owner_BlockOwnerDeletion :: "bool option"
  owner_Controller :: "bool option"

record ObjectMeta =
  Name :: string
  Namespace :: string
  UID :: UID
  ResourceVersion :: nat
  Generation :: nat
  DeletionTimestamp :: "time option"
  Finalizers :: "string list"
  Annotations :: "(string, string) gomap"
  OwnerReferences :: "OwnerReference list"

record NamespacedName =
  nn_Namespace :: string
  nn_Name :: string

definition nsName :: "ObjectMeta \<Rightarrow> NamespacedName" where
  "nsName m = \<lparr>nn_Namespace = Namespace m, nn_Name = Name m\<rparr>"

definition deleting :: "ObjectMeta \<Rightarrow> bool" where
  "deleting m \<longleftrightarrow> \<not> IsZero (DeletionTimestamp m)"

text \<open>\<open>controllerutil.AddFinalizer\<close>, \<open>RemoveFinalizer\<close>, \<open>ContainsFinalizer\<close>; the first
  also reports whether it changed the object.\<close>

definition ContainsFinalizer :: "ObjectMeta \<Rightarrow> string \<Rightarrow> bool" where
  "ContainsFinalizer ob f \<longleftrightarrow> f \<in> set (Finalizers ob)"

definition AddFinalizer :: "ObjectMeta \<Rightarrow> string \<Rightarrow> bool \<times> ObjectMeta" where
  "AddFinalizer ob f =
     (if f \<in> set (Finalizers ob) then (False, ob) else (True, ob\<lparr>Finalizers := Finalizers ob @ [f]\<rparr>))"

definition RemoveFinalizer :: "ObjectMeta \<Rightarrow> string \<Rightarrow> ObjectMeta" where
  "RemoveFinalizer ob f = ob\<lparr>Finalizers := filter (\<lambda>g. g \<noteq> f) (Finalizers ob)\<rparr>"

text \<open>\<open>metav1.GetControllerOfNoCopy\<close> and \<open>metav1.IsControlledBy\<close>.\<close>

definition GetControllerOf :: "ObjectMeta \<Rightarrow> OwnerReference option" where
  "GetControllerOf ob = find (\<lambda>r. owner_Controller r = Some True) (OwnerReferences ob)"

definition IsControlledBy :: "ObjectMeta \<Rightarrow> ObjectMeta \<Rightarrow> bool" where
  "IsControlledBy obj owner =
     (case GetControllerOf obj of None \<Rightarrow> False | Some r \<Rightarrow> owner_UID r = UID owner)"

text \<open>\<open>schema.ParseGroupVersion\<close>, the group only; None is the error for more than one slash.\<close>

definition parse_group :: "string \<Rightarrow> string option" where
  "parse_group gv =
     (if gv = '''' \<or> gv = ''/'' then Some ''''
      else case split_on CHR ''/'' gv of [v] \<Rightarrow> Some '''' | [g, v] \<Rightarrow> Some g | _ \<Rightarrow> None)"

definition referSameObject :: "OwnerReference \<Rightarrow> OwnerReference \<Rightarrow> bool" where
  "referSameObject a b =
     (case (parse_group (owner_APIVersion a), parse_group (owner_APIVersion b)) of
        (Some g, Some h) \<Rightarrow> g = h \<and> owner_Kind a = owner_Kind b \<and> owner_Name a = owner_Name b
      | _ \<Rightarrow> False)"

fun upsertOwnerRef :: "OwnerReference \<Rightarrow> OwnerReference list \<Rightarrow> OwnerReference list" where
  "upsertOwnerRef r [] = [r]"
| "upsertOwnerRef r (x # xs) = (if referSameObject x r then r # xs else x # upsertOwnerRef r xs)"

definition validateOwner :: "ObjectMeta \<Rightarrow> ObjectMeta \<Rightarrow> gerror option" where
  "validateOwner owner obj =
     (if Namespace owner = '''' then None
      else if Namespace obj = '''' then
        Some (Errorf ''cluster-scoped resource must not have a namespace-scoped owner, owner's namespace %s''
                [AStr (Namespace owner)])
      else if Namespace owner \<noteq> Namespace obj then
        Some (Errorf ''cross-namespace owner references are disallowed, owner's namespace %s, obj's namespace %s''
                [AStr (Namespace owner), AStr (Namespace obj)])
      else None)"

text \<open>\<open>SetControllerReference(owner, controlled, scheme, WithBlockOwnerDeletion(true))\<close>, with the
  group, version and kind the scheme gives for the owner's type.\<close>

definition SetControllerReference ::
  "string \<Rightarrow> string \<Rightarrow> ObjectMeta \<Rightarrow> ObjectMeta \<Rightarrow> gerror + ObjectMeta" where
  "SetControllerReference gv kind owner controlled =
     (case validateOwner owner controlled of
        Some e \<Rightarrow> Inl e
      | None \<Rightarrow>
        (let ref = \<lparr>owner_APIVersion = gv, owner_Kind = kind, owner_Name = Name owner,
                    owner_UID = UID owner, owner_BlockOwnerDeletion = Some True,
                    owner_Controller = Some True\<rparr>
         in case GetControllerOf controlled of
              Some existing \<Rightarrow>
                if referSameObject existing ref
                then Inr (controlled\<lparr>OwnerReferences := upsertOwnerRef ref (OwnerReferences controlled)\<rparr>)
                else Inl (Errorf ''Object %s/%s is already owned by another %s controller %s''
                            [AStr (Namespace controlled), AStr (Name controlled),
                             AStr (owner_Kind existing), AStr (owner_Name existing)])
            | None \<Rightarrow> Inr (controlled\<lparr>OwnerReferences := upsertOwnerRef ref (OwnerReferences controlled)\<rparr>)))"

subsection \<open>Constants\<close>

definition ProtectionFinalizer :: string where [api_consts]:
  "ProtectionFinalizer = ''objectstorage.k8s.io/protection''"
definition BucketClaimBeingDeletedAnnotation :: string where [api_consts]:
  "BucketClaimBeingDeletedAnnotation = ''objectstorage.k8.io/bucketclaim-being-deleted''"
definition HasBucketAccessReferencesAnnotation :: string where [api_consts]:
  "HasBucketAccessReferencesAnnotation = ''objectstorage.k8s.io/has-bucketaccess-references''"
definition SidecarCleanupFinishedAnnotation :: string where [api_consts]:
  "SidecarCleanupFinishedAnnotation = ''objectstorage.k8s.io/sidecar-cleanup-finished''"
definition ControllerManagementOverrideAnnotation :: string where [api_consts]:
  "ControllerManagementOverrideAnnotation = ''objectstorage.k8s.io/controller-management-override''"

type_synonym ObjectProtocol = string
type_synonym BucketInfoVar = string
type_synonym CredentialVar = string
type_synonym BucketAccessAuthenticationType = string
type_synonym BucketAccessMode = string
type_synonym BucketDeletionPolicy = string
type_synonym MultiBucketAccess = string

definition ObjectProtocolS3 :: ObjectProtocol where [api_consts]: "ObjectProtocolS3 = ''S3''"
definition ObjectProtocolAzure :: ObjectProtocol where [api_consts]: "ObjectProtocolAzure = ''Azure''"
definition ObjectProtocolGcs :: ObjectProtocol where [api_consts]: "ObjectProtocolGcs = ''GCS''"

definition BucketInfoVar_Protocol :: BucketInfoVar where [api_consts]: "BucketInfoVar_Protocol = ''COSI_PROTOCOL''"
definition CredentialVar_CertificateAuthority :: CredentialVar where [api_consts]:
  "CredentialVar_CertificateAuthority = ''COSI_CERTIFICATE_AUTHORITY''"
definition BucketInfoVar_S3_BucketId :: BucketInfoVar where [api_consts]:
  "BucketInfoVar_S3_BucketId = ''COSI_S3_BUCKET_ID''"
definition BucketInfoVar_S3_Endpoint :: BucketInfoVar where [api_consts]:
  "BucketInfoVar_S3_Endpoint = ''COSI_S3_ENDPOINT''"
definition BucketInfoVar_S3_Region :: BucketInfoVar where [api_consts]:
  "BucketInfoVar_S3_Region = ''COSI_S3_REGION''"
definition BucketInfoVar_S3_AddressingStyle :: BucketInfoVar where [api_consts]:
  "BucketInfoVar_S3_AddressingStyle = ''COSI_S3_ADDRESSING_STYLE''"
definition CredentialVar_S3_AccessKeyId :: CredentialVar where [api_consts]:
  "CredentialVar_S3_AccessKeyId = ''COSI_S3_ACCESS_KEY_ID''"
definition CredentialVar_S3_AccessSecretKey :: CredentialVar where [api_consts]:
  "CredentialVar_S3_AccessSecretKey = ''COSI_S3_ACCESS_SECRET_KEY''"
definition BucketInfoVar_Azure_StorageAccount :: BucketInfoVar where [api_consts]:
  "BucketInfoVar_Azure_StorageAccount = ''COSI_AZURE_STORAGE_ACCOUNT''"
definition CredentialVar_Azure_AccessToken :: CredentialVar where [api_consts]:
  "CredentialVar_Azure_AccessToken = ''COSI_AZURE_ACCESS_TOKEN''"
definition CredentialVar_Azure_ExpiryTimestamp :: CredentialVar where [api_consts]:
  "CredentialVar_Azure_ExpiryTimestamp = ''COSI_AZURE_EXPIRY_TIMESTAMP''"
definition BucketInfoVar_GCS_ProjectId :: BucketInfoVar where [api_consts]:
  "BucketInfoVar_GCS_ProjectId = ''COSI_GCS_PROJECT_ID''"
definition BucketInfoVar_GCS_BucketName :: BucketInfoVar where [api_consts]:
  "BucketInfoVar_GCS_BucketName = ''COSI_GCS_BUCKET_NAME''"
definition CredentialVar_GCS_AccessId :: CredentialVar where [api_consts]:
  "CredentialVar_GCS_AccessId = ''COSI_GCS_ACCESS_ID''"
definition CredentialVar_GCS_AccessSecret :: CredentialVar where [api_consts]:
  "CredentialVar_GCS_AccessSecret = ''COSI_GCS_ACCESS_SECRET''"
definition CredentialVar_GCS_PrivateKeyName :: CredentialVar where [api_consts]:
  "CredentialVar_GCS_PrivateKeyName = ''COSI_GCS_PRIVATE_KEY_NAME''"
definition CredentialVar_GCS_ServiceAccount :: CredentialVar where [api_consts]:
  "CredentialVar_GCS_ServiceAccount = ''COSI_GCS_SERVICE_ACCOUNT''"

definition BucketAccessAuthenticationTypeKey :: BucketAccessAuthenticationType where [api_consts]:
  "BucketAccessAuthenticationTypeKey = ''Key''"
definition BucketAccessAuthenticationTypeServiceAccount :: BucketAccessAuthenticationType where [api_consts]:
  "BucketAccessAuthenticationTypeServiceAccount = ''ServiceAccount''"

definition BucketAccessModeReadWrite :: BucketAccessMode where [api_consts]:
  "BucketAccessModeReadWrite = ''ReadWrite''"
definition BucketAccessModeReadOnly :: BucketAccessMode where [api_consts]:
  "BucketAccessModeReadOnly = ''ReadOnly''"
definition BucketAccessModeWriteOnly :: BucketAccessMode where [api_consts]:
  "BucketAccessModeWriteOnly = ''WriteOnly''"

definition BucketDeletionPolicyRetain :: BucketDeletionPolicy where [api_consts]:
  "BucketDeletionPolicyRetain = ''Retain''"
definition BucketDeletionPolicyDelete :: BucketDeletionPolicy where [api_consts]:
  "BucketDeletionPolicyDelete = ''Delete''"

definition MultiBucketAccessSingleBucket :: MultiBucketAccess where [api_consts]:
  "MultiBucketAccessSingleBucket = ''SingleBucket''"
definition MultiBucketAccessMultipleBuckets :: MultiBucketAccess where [api_consts]:
  "MultiBucketAccessMultipleBuckets = ''MultipleBuckets''"

subsection \<open>Timestamped errors\<close>

record TimestampedError =
  te_Time :: "time option"
  te_Message :: "string option"

definition NewTimestampedError :: "time \<Rightarrow> string \<Rightarrow> TimestampedError" where
  "NewTimestampedError t message =
     \<lparr>te_Time = (if IsZero (Some t) then None else Some t),
      te_Message = (if message = '''' then None else Some message)\<rparr>"

subsection \<open>BucketClass and BucketAccessClass\<close>

record BucketClassSpec =
  bclSpec_DriverName :: string
  bclSpec_DeletionPolicy :: BucketDeletionPolicy
  bclSpec_Parameters :: "(string, string) gomap"

record BucketClass =
  bcl_meta :: ObjectMeta
  bcl_Spec :: BucketClassSpec

record BucketAccessClassSpec =
  baclSpec_DriverName :: string
  baclSpec_AuthenticationType :: BucketAccessAuthenticationType
  baclSpec_Parameters :: "(string, string) gomap"
  baclSpec_DisallowedBucketAccessModes :: "BucketAccessMode list"
  baclSpec_MultiBucketAccess :: MultiBucketAccess

record BucketAccessClass =
  bacl_meta :: ObjectMeta
  bacl_Spec :: BucketAccessClassSpec

definition SupportsMultiBucketAccess :: "BucketAccessClassSpec \<Rightarrow> bool" where
  "SupportsMultiBucketAccess v \<longleftrightarrow> baclSpec_MultiBucketAccess v = MultiBucketAccessMultipleBuckets"

subsection \<open>BucketClaim\<close>

record BucketClaimSpec =
  bcSpec_BucketClassName :: string
  bcSpec_Protocols :: "ObjectProtocol list"
  bcSpec_ExistingBucketName :: string

record BucketClaimStatus =
  bcStatus_BoundBucketName :: string
  bcStatus_ReadyToUse :: "bool option"
  bcStatus_Protocols :: "ObjectProtocol list"
  bcStatus_Error :: "TimestampedError option"

record BucketClaim =
  bc_meta :: ObjectMeta
  bc_Spec :: BucketClaimSpec
  bc_Status :: BucketClaimStatus

subsection \<open>Bucket\<close>

record BucketClaimReference =
  ref_Name :: string
  ref_Namespace :: string
  ref_UID :: UID

record BucketSpec =
  bSpec_DriverName :: string
  bSpec_DeletionPolicy :: BucketDeletionPolicy
  bSpec_Parameters :: "(string, string) gomap"
  bSpec_Protocols :: "ObjectProtocol list"
  bSpec_BucketClaimRef :: BucketClaimReference
  bSpec_ExistingBucketID :: string

record BucketStatus =
  bStatus_ReadyToUse :: "bool option"
  bStatus_BucketID :: string
  bStatus_Protocols :: "ObjectProtocol list"
  bStatus_BucketInfo :: "(string, string) gomap"
  bStatus_Error :: "TimestampedError option"

record Bucket =
  b_meta :: ObjectMeta
  b_Spec :: BucketSpec
  b_Status :: BucketStatus

subsection \<open>BucketAccess\<close>

record BucketClaimAccess =
  bca_BucketClaimName :: string
  bca_AccessMode :: BucketAccessMode
  bca_AccessSecretName :: string

record AccessedBucket =
  ab_BucketName :: string
  ab_BucketID :: string
  ab_BucketClaimName :: string

record BucketAccessSpec =
  baSpec_BucketClaims :: "BucketClaimAccess list"
  baSpec_BucketAccessClassName :: string
  baSpec_Protocol :: ObjectProtocol
  baSpec_ServiceAccountName :: string

record BucketAccessStatus =
  baStatus_ReadyToUse :: "bool option"
  baStatus_AccountID :: string
  baStatus_AccessedBuckets :: "AccessedBucket list"
  baStatus_DriverName :: string
  baStatus_AuthenticationType :: BucketAccessAuthenticationType
  baStatus_Parameters :: "(string, string) gomap"
  baStatus_Error :: "TimestampedError option"

record BucketAccess =
  ba_meta :: ObjectMeta
  ba_Spec :: BucketAccessSpec
  ba_Status :: BucketAccessStatus

text \<open>A core Secret, as far as the sidecar writes it.\<close>

record Secret =
  sec_meta :: ObjectMeta
  sec_Type :: string
  sec_Data :: "(string, string) gomap"
  sec_StringData :: "(string, string) gomap"

text \<open>The objects a predicate can be given.\<close>

datatype ClientObject = ObjBucketClaim BucketClaim | ObjBucket Bucket | ObjBucketAccess BucketAccess | ObjSecret Secret

fun object_meta :: "ClientObject \<Rightarrow> ObjectMeta" where
  "object_meta (ObjBucketClaim c) = bc_meta c"
| "object_meta (ObjBucket b) = b_meta b"
| "object_meta (ObjBucketAccess a) = ba_meta a"
| "object_meta (ObjSecret s) = sec_meta s"

subsection \<open>Immutability rules\<close>

text \<open>
  \<open>XValidation\<close> markers with \<open>oldSelf\<close>: a status field that \<open>cannot be removed once set\<close> and
  is \<open>immutable once set\<close>. A field is set when it is not empty (all are \<open>omitempty\<close>).
\<close>

definition immutable_once_set :: "('a \<Rightarrow> bool) \<Rightarrow> 'a \<Rightarrow> 'a \<Rightarrow> bool" where
  "immutable_once_set is_set old new \<longleftrightarrow> (is_set old \<longrightarrow> is_set new \<and> new = old)"

definition BucketAccessStatus_rules :: "BucketAccessStatus \<Rightarrow> BucketAccessStatus \<Rightarrow> bool" where
  "BucketAccessStatus_rules old new \<longleftrightarrow>
     immutable_once_set (\<lambda>x. x \<noteq> '''') (baStatus_AccountID old) (baStatus_AccountID new) \<and>
     immutable_once_set (\<lambda>x. x \<noteq> []) (baStatus_AccessedBuckets old) (baStatus_AccessedBuckets new) \<and>
     immutable_once_set (\<lambda>x. x \<noteq> '''') (baStatus_DriverName old) (baStatus_DriverName new) \<and>
     immutable_once_set (\<lambda>x. x \<noteq> '''') (baStatus_AuthenticationType old) (baStatus_AuthenticationType new) \<and>
     immutable_once_set (\<lambda>x. x \<noteq> []) (baStatus_Parameters old) (baStatus_Parameters new)"

definition BucketClaimStatus_rules :: "BucketClaimStatus \<Rightarrow> BucketClaimStatus \<Rightarrow> bool" where
  "BucketClaimStatus_rules old new \<longleftrightarrow>
     immutable_once_set (\<lambda>x. x \<noteq> '''') (bcStatus_BoundBucketName old) (bcStatus_BoundBucketName new) \<and>
     (bcStatus_Protocols old \<noteq> [] \<longrightarrow> bcStatus_Protocols new \<noteq> [])"

definition BucketClaimReference_rules :: "BucketClaimReference \<Rightarrow> BucketClaimReference \<Rightarrow> bool" where
  "BucketClaimReference_rules old new \<longleftrightarrow>
     immutable_once_set (\<lambda>x. x \<noteq> '''') (ref_Name old) (ref_Name new) \<and>
     immutable_once_set (\<lambda>x. x \<noteq> '''') (ref_Namespace old) (ref_Namespace new) \<and>
     immutable_once_set (\<lambda>x. x \<noteq> '''') (ref_UID old) (ref_UID new)"

subsection \<open>Finalizers and owners\<close>

lemma ContainsFinalizer_Add [simp]: "ContainsFinalizer (snd (AddFinalizer ob f)) g \<longleftrightarrow> g = f \<or> ContainsFinalizer ob g"
  by (auto simp: ContainsFinalizer_def AddFinalizer_def)

lemma ContainsFinalizer_Remove [simp]: "ContainsFinalizer (RemoveFinalizer ob f) g \<longleftrightarrow> g \<noteq> f \<and> ContainsFinalizer ob g"
  by (auto simp: ContainsFinalizer_def RemoveFinalizer_def)

lemma AddFinalizer_changed: "fst (AddFinalizer ob f) \<longleftrightarrow> \<not> ContainsFinalizer ob f"
  by (simp add: ContainsFinalizer_def AddFinalizer_def)

lemma AddFinalizer_frame [simp]:
  "Name (snd (AddFinalizer ob f)) = Name ob" "Namespace (snd (AddFinalizer ob f)) = Namespace ob"
  "UID (snd (AddFinalizer ob f)) = UID ob" "DeletionTimestamp (snd (AddFinalizer ob f)) = DeletionTimestamp ob"
  "Annotations (snd (AddFinalizer ob f)) = Annotations ob"
  "OwnerReferences (snd (AddFinalizer ob f)) = OwnerReferences ob"
  by (simp_all add: AddFinalizer_def)

lemma RemoveFinalizer_frame [simp]:
  "Name (RemoveFinalizer ob f) = Name ob" "Namespace (RemoveFinalizer ob f) = Namespace ob"
  "UID (RemoveFinalizer ob f) = UID ob" "DeletionTimestamp (RemoveFinalizer ob f) = DeletionTimestamp ob"
  "Annotations (RemoveFinalizer ob f) = Annotations ob"
  "OwnerReferences (RemoveFinalizer ob f) = OwnerReferences ob"
  by (simp_all add: RemoveFinalizer_def)

lemma find_upsertOwnerRef:
  "owner_Controller r = Some True \<Longrightarrow> find (\<lambda>x. owner_Controller x = Some True) xs = None \<Longrightarrow>
     find (\<lambda>x. owner_Controller x = Some True) (upsertOwnerRef r xs) = Some r"
  by (induction xs) (auto split: if_splits)

lemma IsControlledBy_SetControllerReference:
  assumes "GetControllerOf obj = None" and "SetControllerReference gv kind owner obj = Inr obj'"
  shows "IsControlledBy obj' owner"
  using assms
  by (auto simp: SetControllerReference_def IsControlledBy_def GetControllerOf_def Let_def
        find_upsertOwnerRef split: option.splits)

lemma NewTimestampedError_message:
  "te_Message (NewTimestampedError t m) = Some x \<longleftrightarrow> m = x \<and> m \<noteq> ''''"
  by (simp add: NewTimestampedError_def)

end
