(* ===== verification/Cosi_Proto.thy ===== *)
theory Cosi_Proto
  imports Go_Monad
begin

text \<open>
  The messages of the driver RPCs, as the structs generated into \<open>proto/cosi.pb.go\<close>: one record
  per message with the message's fields (without the runtime's bookkeeping fields), a pointer to a
  message as an option, an enum as the 32-bit integer it is on the wire (proto3 enums are open, so a
  driver can send a number the sidecar has no name for).
\<close>

type_synonym ObjectProtocol_Type = "32 word"
type_synonym S3AddressingStyle_Style = "32 word"
type_synonym AuthenticationType_Type = "32 word"
type_synonym AccessMode_Mode = "32 word"

definition ObjectProtocol_UNKNOWN :: ObjectProtocol_Type where [rpc_consts]: "ObjectProtocol_UNKNOWN = 0"
definition ObjectProtocol_S3 :: ObjectProtocol_Type where [rpc_consts]: "ObjectProtocol_S3 = 1"
definition ObjectProtocol_AZURE :: ObjectProtocol_Type where [rpc_consts]: "ObjectProtocol_AZURE = 2"
definition ObjectProtocol_GCS :: ObjectProtocol_Type where [rpc_consts]: "ObjectProtocol_GCS = 3"

definition S3AddressingStyle_UNKNOWN :: S3AddressingStyle_Style where [rpc_consts]: "S3AddressingStyle_UNKNOWN = 0"
definition S3AddressingStyle_PATH :: S3AddressingStyle_Style where [rpc_consts]: "S3AddressingStyle_PATH = 1"
definition S3AddressingStyle_VIRTUAL :: S3AddressingStyle_Style where [rpc_consts]: "S3AddressingStyle_VIRTUAL = 2"

definition AuthenticationType_UNKNOWN :: AuthenticationType_Type where [rpc_consts]: "AuthenticationType_UNKNOWN = 0"
definition AuthenticationType_KEY :: AuthenticationType_Type where [rpc_consts]: "AuthenticationType_KEY = 1"
definition AuthenticationType_SERVICE_ACCOUNT :: AuthenticationType_Type where [rpc_consts]:
  "AuthenticationType_SERVICE_ACCOUNT = 2"

definition AccessMode_UNKNOWN :: AccessMode_Mode where [rpc_consts]: "AccessMode_UNKNOWN = 0"
definition AccessMode_READ_WRITE :: AccessMode_Mode where [rpc_consts]: "AccessMode_READ_WRITE = 1"
definition AccessMode_READ_ONLY :: AccessMode_Mode where [rpc_consts]: "AccessMode_READ_ONLY = 2"
definition AccessMode_WRITE_ONLY :: AccessMode_Mode where [rpc_consts]: "AccessMode_WRITE_ONLY = 3"

text \<open>The names of the protocol numbers (\<open>String()\<close>); an unnamed number prints as itself.\<close>

definition ObjectProtocol_Type_String :: "ObjectProtocol_Type \<Rightarrow> string" where
  "ObjectProtocol_Type_String t =
     (if t = ObjectProtocol_UNKNOWN then ''UNKNOWN'' else if t = ObjectProtocol_S3 then ''S3''
      else if t = ObjectProtocol_AZURE then ''AZURE'' else if t = ObjectProtocol_GCS then ''GCS''
      else if sint t < 0 then ''-'' @ nat_str (nat (- sint t)) else nat_str (unat t))"

record ObjectProtocolMsg = op_Type :: ObjectProtocol_Type
record S3AddressingStyle = sty_Style :: S3AddressingStyle_Style
record AuthenticationTypeMsg = at_Type :: AuthenticationType_Type
record AccessModeMsg = am_Mode :: AccessMode_Mode

record S3BucketInfo =
  s3_BucketId :: string
  s3_Endpoint :: string
  s3_Region :: string
  s3_AddressingStyle :: "S3AddressingStyle option"

record S3CredentialInfo =
  s3c_AccessKeyId :: string
  s3c_AccessSecretKey :: string

record AzureBucketInfo =
  az_StorageAccount :: string

record AzureCredentialInfo =
  azc_AccessToken :: string
  azc_ExpiryTimestamp :: string

record GcsBucketInfo =
  gcs_ProjectId :: string
  gcs_BucketName :: string

record GcsCredentialInfo =
  gcsc_AccessId :: string
  gcsc_AccessSecret :: string
  gcsc_PrivateKeyName :: string
  gcsc_ServiceAccount :: string

record ObjectProtocolAndBucketInfo =
  opbi_S3 :: "S3BucketInfo option"
  opbi_Azure :: "AzureBucketInfo option"
  opbi_Gcs :: "GcsBucketInfo option"

record CredentialInfo =
  ci_S3 :: "S3CredentialInfo option"
  ci_Azure :: "AzureCredentialInfo option"
  ci_Gcs :: "GcsCredentialInfo option"

record DriverGetInfoResponse =
  gi_Name :: string
  gi_SupportedProtocols :: "ObjectProtocolMsg list"

record DriverCreateBucketRequest =
  cbq_Name :: string
  cbq_Protocols :: "ObjectProtocolMsg list"
  cbq_Parameters :: "(string, string) gomap"

record DriverCreateBucketResponse =
  cbr_BucketId :: string
  cbr_Protocols :: "ObjectProtocolAndBucketInfo option"

record DriverGetExistingBucketRequest =
  geq_ExistingBucketId :: string
  geq_Protocols :: "ObjectProtocolMsg list"
  geq_Parameters :: "(string, string) gomap"

record DriverGetExistingBucketResponse =
  ger_BucketId :: string
  ger_Protocols :: "ObjectProtocolAndBucketInfo option"

record GrantAccessedBucket =
  gab_BucketId :: string
  gab_AccessMode :: AccessModeMsg

record DriverGrantBucketAccessRequest =
  gaq_AccountName :: string
  gaq_Protocol :: ObjectProtocolMsg
  gaq_AuthenticationType :: AuthenticationTypeMsg
  gaq_ServiceAccountName :: string
  gaq_Parameters :: "(string, string) gomap"
  gaq_Buckets :: "GrantAccessedBucket list"

record GrantBucketInfo =
  gbi_BucketId :: string
  gbi_BucketInfo :: "ObjectProtocolAndBucketInfo option"

record DriverGrantBucketAccessResponse =
  gar_AccountId :: string
  gar_Buckets :: "GrantBucketInfo list"
  gar_Credentials :: "CredentialInfo option"

record RevokeAccessedBucket =
  rab_BucketId :: string

record DriverRevokeBucketAccessRequest =
  raq_AccountId :: string
  raq_Protocol :: ObjectProtocolMsg
  raq_AuthenticationType :: AuthenticationTypeMsg
  raq_ServiceAccountName :: string
  raq_Parameters :: "(string, string) gomap"
  raq_Buckets :: "RevokeAccessedBucket list"

end
