(* ===== verification/Protocol.thy ===== *)
theory Protocol
  imports Cosi_Api Cosi_Proto
begin

text \<open>
  \<open>internal/protocol\<close>: the translation of protocols, bucket info and credentials between the
  driver's RPC domain and the API domain of environment variables. The generic interface
  \<open>RpcApiTranslator\<close> is the record \<open>translator\<close>; the contract its comments state is the
  locale \<open>rpc_api_translator\<close>, interpreted on all six implementations (S3, Azure and GCS, bucket
  info and credentials). The properties are the round trips and what each \<open>Validate\<close> accepts.
\<close>

subsection \<open>Protocols (protocol.go)\<close>

definition objectProtocolProtoApiMapping :: "(ObjectProtocol_Type, ObjectProtocol) gomap" where
  "objectProtocolProtoApiMapping =
     [(ObjectProtocol_S3, ObjectProtocolS3), (ObjectProtocol_AZURE, ObjectProtocolAzure),
      (ObjectProtocol_GCS, ObjectProtocolGcs)]"

definition ObjectProtocol_RpcToApi :: "ObjectProtocol_Type \<Rightarrow> gerror + ObjectProtocol" where
  "ObjectProtocol_RpcToApi t =
     (case map_of objectProtocolProtoApiMapping t of
        None \<Rightarrow> Inl (Errorf ''unknown driver protocol %q'' [AText (rune_string (unat t))])
      | Some a \<Rightarrow> Inr a)"

text \<open>The loop over the mapping stops at the first entry with the wanted value; the entries come in
  an unspecified order.\<close>

definition ObjectProtocol_ApiToRpc ::
  "(ObjectProtocol_Type \<Rightarrow> nat) \<Rightarrow> ObjectProtocol \<Rightarrow> gerror + ObjectProtocol_Type" where
  "ObjectProtocol_ApiToRpc rank a =
     (case find (\<lambda>(p, a'). a' = a) (range_map rank objectProtocolProtoApiMapping) of
        Some (p, _) \<Rightarrow> Inr p
      | None \<Rightarrow> Inl (Errorf ''unknown api protocol %q'' [AStr a]))"

subsection \<open>The translator interface (protocol.go)\<close>

record 'r translator =
  tr_ApiProtocol :: ObjectProtocol
  tr_RpcToApi :: "'r option \<Rightarrow> (string, string) gomap option"
  tr_ApiToRpc :: "(string, string) gomap option \<Rightarrow> 'r option"
  tr_Validate :: "(string, string) gomap option \<Rightarrow> BucketAccessAuthenticationType \<Rightarrow> gerror option"

text \<open>\<open>vars[k]\<close> on a map that may be nil, and \<open>len(vars) == 0\<close>.\<close>

definition var :: "(string, string) gomap option \<Rightarrow> string \<Rightarrow> string" where
  "var vars k = (case vars of None \<Rightarrow> '''' | Some m \<Rightarrow> gstr m k)"

definition no_vars :: "(string, string) gomap option \<Rightarrow> bool" where
  "no_vars vars = (case vars of None \<Rightarrow> True | Some m \<Rightarrow> m = [])"

text \<open>\<open>if len(errs) > 0 \{ return fmt.Errorf("...: %w", errors.Join(errs...)) \} return nil\<close>.\<close>

definition join_errs :: "string \<Rightarrow> gerror list \<Rightarrow> gerror option" where
  "join_errs f errs = (if errs = [] then None else Some (Wrapf f [] (Join errs)))"

definition err_if :: "bool \<Rightarrow> string \<Rightarrow> gerror list" where
  "err_if c m = (if c then [Errorf m []] else [])"

subsection \<open>S3 (s3.go)\<close>

definition s3AddressingStylePath :: string where "s3AddressingStylePath = ''path''"
definition s3AddressingStyleVirtual :: string where "s3AddressingStyleVirtual = ''virtual''"
definition validS3AddressingStyles :: "string list" where
  "validS3AddressingStyles = [s3AddressingStylePath, s3AddressingStyleVirtual]"

definition S3BucketInfo_RpcToApi :: "S3BucketInfo option \<Rightarrow> (BucketInfoVar, string) gomap option" where
  "S3BucketInfo_RpcToApi r =
     (case r of
        None \<Rightarrow> None
      | Some b \<Rightarrow>
          (let out = [(BucketInfoVar_S3_BucketId, s3_BucketId b), (BucketInfoVar_S3_Endpoint, s3_Endpoint b),
                      (BucketInfoVar_S3_Region, s3_Region b), (BucketInfoVar_S3_AddressingStyle, '''')]
           in Some (case s3_AddressingStyle b of
                      None \<Rightarrow> out
                    | Some sty \<Rightarrow>
                        if sty_Style sty = S3AddressingStyle_PATH
                        then gput BucketInfoVar_S3_AddressingStyle s3AddressingStylePath out
                        else if sty_Style sty = S3AddressingStyle_VIRTUAL
                        then gput BucketInfoVar_S3_AddressingStyle s3AddressingStyleVirtual out
                        else out)))"

definition S3BucketInfo_ApiToRpc :: "(BucketInfoVar, string) gomap option \<Rightarrow> S3BucketInfo option" where
  "S3BucketInfo_ApiToRpc vars =
     (if no_vars vars then None
      else
        (let addrStyle = var vars BucketInfoVar_S3_AddressingStyle
         in Some \<lparr>s3_BucketId = var vars BucketInfoVar_S3_BucketId,
                  s3_Endpoint = var vars BucketInfoVar_S3_Endpoint,
                  s3_Region = var vars BucketInfoVar_S3_Region,
                  s3_AddressingStyle = Some \<lparr>sty_Style =
                    (if addrStyle = s3AddressingStylePath then S3AddressingStyle_PATH
                     else if addrStyle = s3AddressingStyleVirtual then S3AddressingStyle_VIRTUAL
                     else S3AddressingStyle_UNKNOWN)\<rparr>\<rparr>))"

definition S3BucketInfo_Validate ::
  "(BucketInfoVar, string) gomap option \<Rightarrow> BucketAccessAuthenticationType \<Rightarrow> gerror option" where
  "S3BucketInfo_Validate vars authType =
     join_errs ''S3 bucket info is invalid: %w''
       (err_if (var vars BucketInfoVar_S3_BucketId = '''') ''S3 bucket ID cannot be unset'' @
        err_if (var vars BucketInfoVar_S3_Endpoint = '''') ''S3 endpoint cannot be unset'' @
        err_if (var vars BucketInfoVar_S3_Region = '''') ''S3 region cannot be unset'' @
        (let as = var vars BucketInfoVar_S3_AddressingStyle
         in if as \<in> set validS3AddressingStyles then []
            else [Errorf ''S3 addressing style %q must be one of %v'' [AStr as, AErrs validS3AddressingStyles]]))"

definition S3Credential_RpcToApi :: "S3CredentialInfo option \<Rightarrow> (CredentialVar, string) gomap option" where
  "S3Credential_RpcToApi r =
     (case r of
        None \<Rightarrow> None
      | Some c \<Rightarrow> Some [(CredentialVar_S3_AccessKeyId, s3c_AccessKeyId c),
                     (CredentialVar_S3_AccessSecretKey, s3c_AccessSecretKey c)])"

definition S3Credential_ApiToRpc :: "(CredentialVar, string) gomap option \<Rightarrow> S3CredentialInfo option" where
  "S3Credential_ApiToRpc vars =
     (if no_vars vars then None
      else Some \<lparr>s3c_AccessKeyId = var vars CredentialVar_S3_AccessKeyId,
                 s3c_AccessSecretKey = var vars CredentialVar_S3_AccessSecretKey\<rparr>)"

definition S3Credential_Validate ::
  "(CredentialVar, string) gomap option \<Rightarrow> BucketAccessAuthenticationType \<Rightarrow> gerror option" where
  "S3Credential_Validate vars authType =
     (if authType \<noteq> BucketAccessAuthenticationTypeKey then None
      else join_errs ''S3 credential info is invalid: %w''
        (err_if (var vars CredentialVar_S3_AccessKeyId = '''') ''S3 access key ID cannot be unset'' @
         err_if (var vars CredentialVar_S3_AccessSecretKey = '''') ''S3 access secret key cannot be unset''))"

definition S3BucketInfoTranslator :: "S3BucketInfo translator" where
  "S3BucketInfoTranslator =
     \<lparr>tr_ApiProtocol = ObjectProtocolS3, tr_RpcToApi = S3BucketInfo_RpcToApi,
      tr_ApiToRpc = S3BucketInfo_ApiToRpc, tr_Validate = S3BucketInfo_Validate\<rparr>"

definition S3CredentialTranslator :: "S3CredentialInfo translator" where
  "S3CredentialTranslator =
     \<lparr>tr_ApiProtocol = ObjectProtocolS3, tr_RpcToApi = S3Credential_RpcToApi,
      tr_ApiToRpc = S3Credential_ApiToRpc, tr_Validate = S3Credential_Validate\<rparr>"

subsection \<open>Azure (azure.go)\<close>

definition AzureBucketInfo_RpcToApi :: "AzureBucketInfo option \<Rightarrow> (BucketInfoVar, string) gomap option" where
  "AzureBucketInfo_RpcToApi r =
     (case r of None \<Rightarrow> None | Some b \<Rightarrow> Some [(BucketInfoVar_Azure_StorageAccount, az_StorageAccount b)])"

definition AzureBucketInfo_ApiToRpc :: "(BucketInfoVar, string) gomap option \<Rightarrow> AzureBucketInfo option" where
  "AzureBucketInfo_ApiToRpc vars =
     (if no_vars vars then None
      else Some \<lparr>az_StorageAccount = var vars BucketInfoVar_Azure_StorageAccount\<rparr>)"

definition AzureBucketInfo_Validate ::
  "(BucketInfoVar, string) gomap option \<Rightarrow> BucketAccessAuthenticationType \<Rightarrow> gerror option" where
  "AzureBucketInfo_Validate vars authType =
     join_errs ''azure bucket info is invalid: %w''
       (err_if (var vars BucketInfoVar_Azure_StorageAccount = '''') ''azure storage account cannot be unset'')"

definition AzureCredential_RpcToApi :: "AzureCredentialInfo option \<Rightarrow> (CredentialVar, string) gomap option" where
  "AzureCredential_RpcToApi r =
     (case r of
        None \<Rightarrow> None
      | Some c \<Rightarrow> Some [(CredentialVar_Azure_AccessToken, azc_AccessToken c),
                     (CredentialVar_Azure_ExpiryTimestamp, azc_ExpiryTimestamp c)])"

definition AzureCredential_ApiToRpc :: "(CredentialVar, string) gomap option \<Rightarrow> AzureCredentialInfo option" where
  "AzureCredential_ApiToRpc vars =
     (if no_vars vars then None
      else Some \<lparr>azc_AccessToken = var vars CredentialVar_Azure_AccessToken,
                 azc_ExpiryTimestamp = var vars CredentialVar_Azure_ExpiryTimestamp\<rparr>)"

definition AzureCredential_Validate ::
  "(CredentialVar, string) gomap option \<Rightarrow> BucketAccessAuthenticationType \<Rightarrow> gerror option" where
  "AzureCredential_Validate vars authType =
     (if authType \<noteq> BucketAccessAuthenticationTypeKey then None
      else join_errs ''azure credential info is invalid: %w''
        (err_if (var vars CredentialVar_Azure_AccessToken = '''') ''azure access token cannot be unset''))"

definition AzureBucketInfoTranslator :: "AzureBucketInfo translator" where
  "AzureBucketInfoTranslator =
     \<lparr>tr_ApiProtocol = ObjectProtocolAzure, tr_RpcToApi = AzureBucketInfo_RpcToApi,
      tr_ApiToRpc = AzureBucketInfo_ApiToRpc, tr_Validate = AzureBucketInfo_Validate\<rparr>"

definition AzureCredentialTranslator :: "AzureCredentialInfo translator" where
  "AzureCredentialTranslator =
     \<lparr>tr_ApiProtocol = ObjectProtocolAzure, tr_RpcToApi = AzureCredential_RpcToApi,
      tr_ApiToRpc = AzureCredential_ApiToRpc, tr_Validate = AzureCredential_Validate\<rparr>"

subsection \<open>Google Cloud Storage (gcs.go)\<close>

definition GcsBucketInfo_RpcToApi :: "GcsBucketInfo option \<Rightarrow> (BucketInfoVar, string) gomap option" where
  "GcsBucketInfo_RpcToApi r =
     (case r of
        None \<Rightarrow> None
      | Some b \<Rightarrow> Some [(BucketInfoVar_GCS_BucketName, gcs_BucketName b),
                     (BucketInfoVar_GCS_ProjectId, gcs_ProjectId b)])"

definition GcsBucketInfo_ApiToRpc :: "(BucketInfoVar, string) gomap option \<Rightarrow> GcsBucketInfo option" where
  "GcsBucketInfo_ApiToRpc vars =
     (if no_vars vars then None
      else Some \<lparr>gcs_ProjectId = var vars BucketInfoVar_GCS_ProjectId,
                 gcs_BucketName = var vars BucketInfoVar_GCS_BucketName\<rparr>)"

definition GcsBucketInfo_Validate ::
  "(BucketInfoVar, string) gomap option \<Rightarrow> BucketAccessAuthenticationType \<Rightarrow> gerror option" where
  "GcsBucketInfo_Validate vars authType =
     join_errs ''GCS bucket info is invalid: %w''
       (err_if (var vars BucketInfoVar_GCS_BucketName = '''') ''GCS bucket name cannot be unset'' @
        err_if (var vars BucketInfoVar_GCS_ProjectId = '''') ''GCS project ID cannot be unset'')"

definition GcsCredential_RpcToApi :: "GcsCredentialInfo option \<Rightarrow> (CredentialVar, string) gomap option" where
  "GcsCredential_RpcToApi r =
     (case r of
        None \<Rightarrow> None
      | Some c \<Rightarrow> Some [(CredentialVar_GCS_AccessId, gcsc_AccessId c),
                     (CredentialVar_GCS_AccessSecret, gcsc_AccessSecret c),
                     (CredentialVar_GCS_PrivateKeyName, gcsc_PrivateKeyName c),
                     (CredentialVar_GCS_ServiceAccount, gcsc_ServiceAccount c)])"

definition GcsCredential_ApiToRpc :: "(CredentialVar, string) gomap option \<Rightarrow> GcsCredentialInfo option" where
  "GcsCredential_ApiToRpc vars =
     (if no_vars vars then None
      else Some \<lparr>gcsc_AccessId = var vars CredentialVar_GCS_AccessId,
                 gcsc_AccessSecret = var vars CredentialVar_GCS_AccessSecret,
                 gcsc_PrivateKeyName = var vars CredentialVar_GCS_PrivateKeyName,
                 gcsc_ServiceAccount = var vars CredentialVar_GCS_ServiceAccount\<rparr>)"

definition GcsCredential_Validate ::
  "(CredentialVar, string) gomap option \<Rightarrow> BucketAccessAuthenticationType \<Rightarrow> gerror option" where
  "GcsCredential_Validate vars authType =
     join_errs ''GCS credential info is invalid: %w''
       (if authType = BucketAccessAuthenticationTypeKey then
          err_if (var vars CredentialVar_GCS_AccessId = '''') ''GCS access ID cannot be unset'' @
          err_if (var vars CredentialVar_GCS_AccessSecret = '''') ''GCS access secret cannot be unset''
        else if authType = BucketAccessAuthenticationTypeServiceAccount then
          err_if (var vars CredentialVar_GCS_PrivateKeyName = '''') ''GCS private key name cannot be unset'' @
          err_if (var vars CredentialVar_GCS_ServiceAccount = '''') ''GCS service account cannot be unset''
        else [])"

definition GcsBucketInfoTranslator :: "GcsBucketInfo translator" where
  "GcsBucketInfoTranslator =
     \<lparr>tr_ApiProtocol = ObjectProtocolGcs, tr_RpcToApi = GcsBucketInfo_RpcToApi,
      tr_ApiToRpc = GcsBucketInfo_ApiToRpc, tr_Validate = GcsBucketInfo_Validate\<rparr>"

definition GcsCredentialTranslator :: "GcsCredentialInfo translator" where
  "GcsCredentialTranslator =
     \<lparr>tr_ApiProtocol = ObjectProtocolGcs, tr_RpcToApi = GcsCredential_RpcToApi,
      tr_ApiToRpc = GcsCredential_ApiToRpc, tr_Validate = GcsCredential_Validate\<rparr>"

subsection \<open>The contract of a translator\<close>

text \<open>
  What the comments of \<open>RpcApiTranslator\<close> and of the variable types ask of an implementation:
  a nil message gives a nil map and no variables give a nil message; a message gives every field of
  its kind, each named with the protocol's prefix; the way back reads these variables only and gives
  the message up to the normal form \<open>canon\<close> (an S3 addressing style the API has no name for is lost).
\<close>

locale rpc_api_translator =
  fixes T :: "'r translator"
    and fields :: "string list"
    and prefix :: string
    and canon :: "'r \<Rightarrow> 'r"
  assumes rpc_nil: "tr_RpcToApi T None = None"
    and rpc_some: "\<exists>m. tr_RpcToApi T (Some r) = Some m \<and> gkeys m = fields"
    and api_nil: "tr_ApiToRpc T None = None"
    and api_empty: "tr_ApiToRpc T (Some []) = None"
    and round: "tr_ApiToRpc T (tr_RpcToApi T (Some r)) = Some (canon r)"
    and canon_same: "tr_RpcToApi T (Some (canon r)) = tr_RpcToApi T (Some r)"
    and reads_fields: "\<forall>f \<in> set fields. map_of m f = map_of m' f \<Longrightarrow> m \<noteq> [] \<Longrightarrow> m' \<noteq> [] \<Longrightarrow>
      tr_ApiToRpc T (Some m) = tr_ApiToRpc T (Some m')"
    and fields_ok: "fields \<noteq> [] \<and> distinct fields"
    and fields_prefix: "f \<in> set fields \<Longrightarrow> has_prefix f prefix"
begin

lemma rpc_nil_iff: "tr_RpcToApi T r = None \<longleftrightarrow> r = None"
  by (metis rpc_nil rpc_some option.distinct(1) not_None_eq)

lemma rpc_keys: "tr_RpcToApi T r = Some m \<Longrightarrow> gkeys m = fields"
  by (metis rpc_nil rpc_some option.distinct(1) option.inject not_None_eq)

lemma round_trip: "tr_ApiToRpc T (tr_RpcToApi T r) = map_option canon r"
  using round api_nil rpc_nil by (cases r) simp_all

lemma canon_idem: "canon (canon r) = canon r"
  by (metis canon_same round option.inject)

lemma read_back:
  assumes "tr_RpcToApi T (Some r) = Some m" and "\<forall>f \<in> set fields. map_of m' f = map_of m f"
  shows "tr_ApiToRpc T (Some m') = Some (canon r)"
proof -
  have k: "gkeys m = fields" using rpc_keys assms(1) .
  then have m: "m \<noteq> []" using fields_ok by auto
  obtain f where f: "f \<in> set fields" using fields_ok by (meson list.set_sel(1))
  then have "map_of m f \<noteq> None" using k by (auto simp: map_of_eq_None_iff simp flip: set_map)
  with assms(2) f have "m' \<noteq> []" by fastforce
  then show ?thesis using reads_fields [OF assms(2)] m round [of r] assms(1) by simp
qed

end

lemmas translator_defs =
  S3BucketInfoTranslator_def S3BucketInfo_RpcToApi_def S3BucketInfo_ApiToRpc_def
  S3CredentialTranslator_def S3Credential_RpcToApi_def S3Credential_ApiToRpc_def
  AzureBucketInfoTranslator_def AzureBucketInfo_RpcToApi_def AzureBucketInfo_ApiToRpc_def
  AzureCredentialTranslator_def AzureCredential_RpcToApi_def AzureCredential_ApiToRpc_def
  GcsBucketInfoTranslator_def GcsBucketInfo_RpcToApi_def GcsBucketInfo_ApiToRpc_def
  GcsCredentialTranslator_def GcsCredential_RpcToApi_def GcsCredential_ApiToRpc_def
  var_def no_vars_def gstr_def has_prefix_def

definition s3_canon :: "S3BucketInfo \<Rightarrow> S3BucketInfo" where
  "s3_canon b = b\<lparr>s3_AddressingStyle := Some \<lparr>sty_Style =
     (case s3_AddressingStyle b of
        None \<Rightarrow> S3AddressingStyle_UNKNOWN
      | Some sty \<Rightarrow> if sty_Style sty \<in> {S3AddressingStyle_PATH, S3AddressingStyle_VIRTUAL} then sty_Style sty
                    else S3AddressingStyle_UNKNOWN)\<rparr>\<rparr>"

lemmas s3_style_defs = s3_canon_def s3AddressingStylePath_def s3AddressingStyleVirtual_def

interpretation s3b: rpc_api_translator S3BucketInfoTranslator
  "[BucketInfoVar_S3_BucketId, BucketInfoVar_S3_Endpoint, BucketInfoVar_S3_Region, BucketInfoVar_S3_AddressingStyle]"
  "''COSI_S3_''" s3_canon
  by unfold_locales (auto simp: translator_defs s3_style_defs api_consts rpc_consts Let_def split: option.splits)

interpretation s3c: rpc_api_translator S3CredentialTranslator
  "[CredentialVar_S3_AccessKeyId, CredentialVar_S3_AccessSecretKey]" "''COSI_S3_''" id
  by unfold_locales (auto simp: translator_defs api_consts)

interpretation azb: rpc_api_translator AzureBucketInfoTranslator
  "[BucketInfoVar_Azure_StorageAccount]" "''COSI_AZURE_''" id
  by unfold_locales (auto simp: translator_defs api_consts)

interpretation azc: rpc_api_translator AzureCredentialTranslator
  "[CredentialVar_Azure_AccessToken, CredentialVar_Azure_ExpiryTimestamp]" "''COSI_AZURE_''" id
  by unfold_locales (auto simp: translator_defs api_consts)

interpretation gcb: rpc_api_translator GcsBucketInfoTranslator
  "[BucketInfoVar_GCS_BucketName, BucketInfoVar_GCS_ProjectId]" "''COSI_GCS_''" id
  by unfold_locales (auto simp: translator_defs api_consts)

interpretation gcc: rpc_api_translator GcsCredentialTranslator
  "[CredentialVar_GCS_AccessId, CredentialVar_GCS_AccessSecret, CredentialVar_GCS_PrivateKeyName,
    CredentialVar_GCS_ServiceAccount]" "''COSI_GCS_''" id
  by unfold_locales (auto simp: translator_defs api_consts)

subsection \<open>Properties\<close>

lemma join_errs_None [simp]: "join_errs f errs = None \<longleftrightarrow> errs = []"
  by (simp add: join_errs_def)

lemma err_if_Nil [simp]: "err_if c m = [] \<longleftrightarrow> \<not> c"
  by (simp add: err_if_def)

lemma ObjectProtocol_translations:
  "ObjectProtocol_RpcToApi t = Inr a \<longleftrightarrow> ObjectProtocol_ApiToRpc rank a = Inr t"
proof -
  have d: "distinct (map snd objectProtocolProtoApiMapping)" "distinct (gkeys objectProtocolProtoApiMapping)"
    by (simp_all add: objectProtocolProtoApiMapping_def api_consts rpc_consts)
  have "ObjectProtocol_RpcToApi t = Inr a \<longleftrightarrow> (t, a) \<in> set objectProtocolProtoApiMapping"
    using map_of_eq_Some_iff [OF d(2), of t a]
    by (cases "map_of objectProtocolProtoApiMapping t") (auto simp: ObjectProtocol_RpcToApi_def)
  also have "\<dots> \<longleftrightarrow> ObjectProtocol_ApiToRpc rank a = Inr t"
  proof (cases "find (\<lambda>(p, a'). a' = a) (range_map rank objectProtocolProtoApiMapping)")
    case None
    then show ?thesis
      using find_value_range_map [OF d(1), of a rank t a] by (simp add: ObjectProtocol_ApiToRpc_def)
  next
    case (Some q)
    then have "q \<in> set objectProtocolProtoApiMapping \<and> snd q = a"
      using find_value_range_map [OF d(1), of a rank "fst q" "snd q"] by simp
    then show ?thesis
      using Some find_value_range_map [OF d(1), of a rank t a]
      by (cases q) (auto simp: ObjectProtocol_ApiToRpc_def)
  qed
  finally show ?thesis .
qed

text \<open>Translating a protocol number to the API name and an API name to the number are inverse to
  each other, whatever order the loop visits the mapping in: one succeeds with a result exactly when
  the other brings it back.\<close>

lemma ObjectProtocol_translation_inverse:
  "ObjectProtocol_RpcToApi t = Inr a \<longleftrightarrow> ObjectProtocol_ApiToRpc rank a = Inr t"
  by (rule ObjectProtocol_translations)

text \<open>C34. Bucket info and credentials survive the way to the API and back for every protocol: nothing a
  driver reports is lost but an S3 addressing style the API has no name for.\<close>

theorem translators_round_trip:
  "S3BucketInfo_ApiToRpc (S3BucketInfo_RpcToApi b1) = map_option s3_canon b1 \<and>
   S3Credential_ApiToRpc (S3Credential_RpcToApi c1) = c1 \<and>
   AzureBucketInfo_ApiToRpc (AzureBucketInfo_RpcToApi b2) = b2 \<and>
   AzureCredential_ApiToRpc (AzureCredential_RpcToApi c2) = c2 \<and>
   GcsBucketInfo_ApiToRpc (GcsBucketInfo_RpcToApi b3) = b3 \<and>
   GcsCredential_ApiToRpc (GcsCredential_RpcToApi c3) = c3"
  using s3b.round_trip [of b1] s3c.round_trip [of c1] azb.round_trip [of b2] azc.round_trip [of c2]
    gcb.round_trip [of b3] gcc.round_trip [of c3]
  by (simp add: S3BucketInfoTranslator_def S3CredentialTranslator_def AzureBucketInfoTranslator_def
      AzureCredentialTranslator_def GcsBucketInfoTranslator_def GcsCredentialTranslator_def option.map_id)

text \<open>What a driver's bucket info must hold to pass validation: every field for S3, with the
  addressing style one of the two named ones, and every field for Azure and GCS; the authentication
  type does not matter.\<close>

lemma bucket_info_validation:
  "(S3BucketInfo_Validate (S3BucketInfo_RpcToApi (Some b1)) auth = None \<longleftrightarrow>
      s3_BucketId b1 \<noteq> '''' \<and> s3_Endpoint b1 \<noteq> '''' \<and> s3_Region b1 \<noteq> '''' \<and>
      (\<exists>sty. s3_AddressingStyle b1 = Some sty \<and>
             sty_Style sty \<in> {S3AddressingStyle_PATH, S3AddressingStyle_VIRTUAL})) \<and>
   (AzureBucketInfo_Validate (AzureBucketInfo_RpcToApi (Some b2)) auth = None \<longleftrightarrow> az_StorageAccount b2 \<noteq> '''') \<and>
   (GcsBucketInfo_Validate (GcsBucketInfo_RpcToApi (Some b3)) auth = None \<longleftrightarrow>
      gcs_BucketName b3 \<noteq> '''' \<and> gcs_ProjectId b3 \<noteq> '''')"
proof (intro conjI)
  show "S3BucketInfo_Validate (S3BucketInfo_RpcToApi (Some b1)) auth = None \<longleftrightarrow>
      s3_BucketId b1 \<noteq> '''' \<and> s3_Endpoint b1 \<noteq> '''' \<and> s3_Region b1 \<noteq> '''' \<and>
      (\<exists>sty. s3_AddressingStyle b1 = Some sty \<and>
             sty_Style sty \<in> {S3AddressingStyle_PATH, S3AddressingStyle_VIRTUAL})"
    by (auto simp: S3BucketInfo_Validate_def S3BucketInfo_RpcToApi_def validS3AddressingStyles_def
        s3_style_defs var_def gstr_def api_consts rpc_consts Let_def split: option.splits)
qed (auto simp: AzureBucketInfo_Validate_def GcsBucketInfo_Validate_def translator_defs api_consts)

text \<open>What a driver's credentials must hold: for key authentication the access key pair, the access
  token or the HMAC pair; for service accounts nothing for S3 and Azure but the private key name and
  the service account for GCS; nothing for any other authentication type.\<close>

lemma credential_validation:
  "(S3Credential_Validate (S3Credential_RpcToApi (Some c1)) auth = None \<longleftrightarrow>
      (if auth = BucketAccessAuthenticationTypeKey
       then s3c_AccessKeyId c1 \<noteq> '''' \<and> s3c_AccessSecretKey c1 \<noteq> '''' else True)) \<and>
   (AzureCredential_Validate (AzureCredential_RpcToApi (Some c2)) auth = None \<longleftrightarrow>
      (if auth = BucketAccessAuthenticationTypeKey then azc_AccessToken c2 \<noteq> '''' else True)) \<and>
   (GcsCredential_Validate (GcsCredential_RpcToApi (Some c3)) auth = None \<longleftrightarrow>
      (if auth = BucketAccessAuthenticationTypeKey
       then gcsc_AccessId c3 \<noteq> '''' \<and> gcsc_AccessSecret c3 \<noteq> ''''
       else if auth = BucketAccessAuthenticationTypeServiceAccount
       then gcsc_PrivateKeyName c3 \<noteq> '''' \<and> gcsc_ServiceAccount c3 \<noteq> '''' else True))"
  by (auto simp: S3Credential_Validate_def AzureCredential_Validate_def GcsCredential_Validate_def
      translator_defs api_consts)

end
