(* ===== verification/Translator.thy ===== *)
theory Translator
  imports Protocol
begin

text \<open>
  \<open>sidecar/internal/translator/translator.go\<close>: what the sidecar makes of a driver's bucket info
  and credentials. One generic step (\<open>translate\<close>) per protocol, collected over the three
  protocols; with a validation configuration exactly the expected protocol may be present. The
  lemmas about \<open>translate\<close> are proved once in the contract \<open>rpc_api_translator\<close> and used for all
  six translators.
\<close>

subsection \<open>Configuration and the generic step\<close>

record ValidationConfig =
  ExpectedProtocol :: ObjectProtocol
  AuthenticationType :: BucketAccessAuthenticationType

text \<open>The two reflection guards of the source cannot fire for the types it is called with: the
  translators are empty structs (never nil) and every RPC type is a pointer.\<close>

definition translate ::
  "'r translator \<Rightarrow> 'r option \<Rightarrow> ValidationConfig option \<Rightarrow> gerror + (string, string) gomap option" where
  "translate T rpcInfo validation =
     (let thisProto = tr_ApiProtocol T
      in case validation of
           None \<Rightarrow> Inr (tr_RpcToApi T rpcInfo)
         | Some v \<Rightarrow>
             if ExpectedProtocol v \<noteq> thisProto then
               (case rpcInfo of
                  None \<Rightarrow> Inr (Some [])
                | Some _ \<Rightarrow>
                    Inl (Errorf ''received %q protocol response when only %q protocol is expected''
                           [AStr thisProto, AStr (ExpectedProtocol v)]))
             else
               (case rpcInfo of
                  None \<Rightarrow> Inl (Errorf ''missing response for expected %q protocol'' [AStr thisProto])
                | Some _ \<Rightarrow>
                    (let out = tr_RpcToApi T rpcInfo
                     in case tr_Validate T out (AuthenticationType v) of
                          Some e \<Rightarrow> Inl e
                        | None \<Rightarrow> Inr out)))"

text \<open>The target is never nil where it is called; ranging over a nil map does nothing. The order of
  the range is a rank of the keys.\<close>

definition MergeApiInfoIntoStringMap ::
  "(string \<Rightarrow> nat) \<Rightarrow> (string, string) gomap option \<Rightarrow> (string, string) gomap \<Rightarrow> (string, string) gomap" where
  "MergeApiInfoIntoStringMap rank varKey target =
     (case varKey of None \<Rightarrow> target | Some m \<Rightarrow> fold (\<lambda>(k, v). gput k v) (range_map rank m) target)"

text \<open>The errors a translation adds to \<open>errs\<close>, and the map after a successful one was merged.\<close>

definition translate_errs :: "string \<Rightarrow> fmtarg list \<Rightarrow> gerror + 'a \<Rightarrow> gerror list" where
  "translate_errs f args r = (case r of Inl e \<Rightarrow> [Wrapf f args e] | Inr _ \<Rightarrow> [])"

definition merge_info ::
  "(string \<Rightarrow> nat) \<Rightarrow> gerror + (string, string) gomap option \<Rightarrow> (string, string) gomap \<Rightarrow> (string, string) gomap" where
  "merge_info rank r target =
     (case r of Inl _ \<Rightarrow> target | Inr info \<Rightarrow> MergeApiInfoIntoStringMap rank info target)"

subsection \<open>All protocols\<close>

definition BucketInfoToApi ::
  "(string \<Rightarrow> nat) \<Rightarrow> ObjectProtocolAndBucketInfo option \<Rightarrow> ValidationConfig option \<Rightarrow>
   gerror + ObjectProtocol list \<times> (string, string) gomap" where
  "BucketInfoToApi rank bi validation =
     (case bi of
        None \<Rightarrow> Inl (Errorf ''bucket info response is nil'' [])
      | Some b \<Rightarrow>
          (let returnedProtos =
                 (if opbi_S3 b \<noteq> None then [ObjectProtocolS3] else []) @
                 (if opbi_Azure b \<noteq> None then [ObjectProtocolAzure] else []) @
                 (if opbi_Gcs b \<noteq> None then [ObjectProtocolGcs] else []);
               s3 = translate S3BucketInfoTranslator (opbi_S3 b) validation;
               azure = translate AzureBucketInfoTranslator (opbi_Azure b) validation;
               gcs = translate GcsBucketInfoTranslator (opbi_Gcs b) validation;
               allProtoBucketInfo = merge_info rank gcs (merge_info rank azure (merge_info rank s3 []));
               errs =
                 translate_errs ''errors translating %s bucket info: %w'' [AStr ObjectProtocolS3] s3 @
                 translate_errs ''errors translating %s bucket info: %w'' [AStr ObjectProtocolAzure] azure @
                 translate_errs ''errors translating %s bucket info: %w'' [AStr ObjectProtocolGcs] gcs
           in if errs \<noteq> [] then Inl (Wrapf ''errors translating bucket info: %w'' [] (Join errs))
              else Inr (returnedProtos, allProtoBucketInfo)))"

definition CredentialsToApi ::
  "(string \<Rightarrow> nat) \<Rightarrow> CredentialInfo option \<Rightarrow> ValidationConfig \<Rightarrow> gerror + (string, string) gomap" where
  "CredentialsToApi rank ci validation =
     (case ci of
        None \<Rightarrow> Inl (Errorf ''credential info is nil'' [])
      | Some c \<Rightarrow>
          (let s3 = translate S3CredentialTranslator (ci_S3 c) (Some validation);
               azure = translate AzureCredentialTranslator (ci_Azure c) (Some validation);
               gcs = translate GcsCredentialTranslator (ci_Gcs c) (Some validation);
               allProtoCredentials = merge_info rank gcs (merge_info rank azure (merge_info rank s3 []));
               errs =
                 translate_errs ''errors translating S3 bucket credentials: %w'' [] s3 @
                 translate_errs ''errors translating Azure bucket credentials: %w'' [] azure @
                 translate_errs ''errors translating GCS bucket credentials: %w'' [] gcs
           in if errs \<noteq> [] then Inl (Wrapf ''errors translating access credentials: %w'' [] (Join errs))
              else Inr allProtoCredentials))"

definition AuthenticationTypeToRpc ::
  "BucketAccessAuthenticationType \<Rightarrow> gerror + AuthenticationType_Type" where
  "AuthenticationTypeToRpc a =
     (if a = BucketAccessAuthenticationTypeKey then Inr AuthenticationType_KEY
      else if a = BucketAccessAuthenticationTypeServiceAccount then Inr AuthenticationType_SERVICE_ACCOUNT
      else Inl (Errorf ''unknown authentication type %q'' [AStr a]))"

definition AccessModeToRpc :: "BucketAccessMode \<Rightarrow> gerror + AccessMode_Mode" where
  "AccessModeToRpc m =
     (if m = BucketAccessModeReadOnly then Inr AccessMode_READ_ONLY
      else if m = BucketAccessModeReadWrite then Inr AccessMode_READ_WRITE
      else if m = BucketAccessModeWriteOnly then Inr AccessMode_WRITE_ONLY
      else Inl (Errorf ''unknown access mode %q'' [AStr m]))"

subsection \<open>One protocol, from the contract\<close>

lemma translate_errs_Nil [simp]: "translate_errs f args r = [] \<longleftrightarrow> (\<exists>x. r = Inr x)"
  by (cases r) (simp_all add: translate_errs_def)

lemma merge_info_Inr [simp]: "merge_info rank (Inr info) t = MergeApiInfoIntoStringMap rank info t"
  by (simp add: merge_info_def)

context rpc_api_translator
begin

lemma translate_unvalidated: "translate T r None = Inr (tr_RpcToApi T r)"
  by (simp add: translate_def)

lemma translate_unexpected:
  "ExpectedProtocol v \<noteq> tr_ApiProtocol T \<Longrightarrow>
     translate T r (Some v) = Inr x \<longleftrightarrow> r = None \<and> x = Some []"
  by (auto simp: translate_def Let_def split: option.splits)

lemma translate_expected:
  "ExpectedProtocol v = tr_ApiProtocol T \<Longrightarrow>
     translate T r (Some v) = Inr x \<longleftrightarrow>
     r \<noteq> None \<and> x = tr_RpcToApi T r \<and> tr_Validate T x (AuthenticationType v) = None"
  by (auto simp: translate_def Let_def split: option.splits)

lemma keys_distinct: "tr_RpcToApi T r = Some m \<Longrightarrow> distinct (gkeys m)"
  using rpc_keys fields_ok by metis

lemma merge_lookup:
  "map_of (MergeApiInfoIntoStringMap rank (tr_RpcToApi T r) t) =
     map_of t ++ (case tr_RpcToApi T r of None \<Rightarrow> Map.empty | Some m \<Rightarrow> map_of m)"
  by (auto simp: MergeApiInfoIntoStringMap_def range_map_copy keys_distinct split: option.splits)

lemma dom_lookup:
  "dom (case tr_RpcToApi T r of None \<Rightarrow> Map.empty | Some m \<Rightarrow> map_of m) = (if r = None then {} else set fields)"
proof (cases r)
  case (Some a)
  then obtain m where "tr_RpcToApi T r = Some m" "gkeys m = fields" using rpc_some by blast
  then show ?thesis using Some by (simp add: dom_map_of_conv_image_fst flip: set_map)
qed (simp add: rpc_nil)

end

subsection \<open>All protocols, as a specification\<close>

text \<open>The variables of one protocol as a partial function, and the condition under which a driver's
  answer for one protocol is acceptable: absent when it is not the expected protocol, present and
  valid when it is.\<close>

definition vars_of :: "'r translator \<Rightarrow> 'r option \<Rightarrow> string \<rightharpoonup> string" where
  "vars_of T r = (case tr_RpcToApi T r of None \<Rightarrow> Map.empty | Some m \<Rightarrow> map_of m)"

definition acceptable :: "'r translator \<Rightarrow> ValidationConfig option \<Rightarrow> 'r option \<Rightarrow> bool" where
  "acceptable T validation r =
     (case validation of
        None \<Rightarrow> True
      | Some v \<Rightarrow> (if ExpectedProtocol v = tr_ApiProtocol T
                   then r \<noteq> None \<and> tr_Validate T (tr_RpcToApi T r) (AuthenticationType v) = None
                   else r = None))"

context rpc_api_translator
begin

lemma translate_acceptable: "(\<exists>x. translate T r validation = Inr x) \<longleftrightarrow> acceptable T validation r"
  by (cases validation)
    (auto simp: acceptable_def translate_unvalidated translate_expected translate_unexpected
      split: if_splits)

lemma merge_translated:
  assumes "translate T r validation = Inr x"
  shows "map_of (MergeApiInfoIntoStringMap rank x t) = map_of t ++ vars_of T r"
proof -
  have "x = tr_RpcToApi T r \<or> x = Some [] \<and> r = None"
    using assms by (auto simp: translate_def Let_def split: option.splits if_splits)
  then show ?thesis
    by (auto simp: merge_lookup vars_of_def rpc_nil) (simp add: MergeApiInfoIntoStringMap_def)
qed

lemma dom_vars_of: "dom (vars_of T r) = (if r = None then {} else set fields)"
  unfolding vars_of_def by (rule dom_lookup)

end

subsection \<open>Properties\<close>

definition present_protocols :: "ObjectProtocolAndBucketInfo \<Rightarrow> ObjectProtocol list" where
  "present_protocols b =
     (if opbi_S3 b \<noteq> None then [ObjectProtocolS3] else []) @
     (if opbi_Azure b \<noteq> None then [ObjectProtocolAzure] else []) @
     (if opbi_Gcs b \<noteq> None then [ObjectProtocolGcs] else [])"

lemma BucketInfoToApi_Inr:
  assumes "BucketInfoToApi rank bi validation = Inr (ps, m)"
  obtains b where "bi = Some b" and "ps = present_protocols b"
    and "map_of m = vars_of S3BucketInfoTranslator (opbi_S3 b) ++
           vars_of AzureBucketInfoTranslator (opbi_Azure b) ++ vars_of GcsBucketInfoTranslator (opbi_Gcs b)"
proof -
  from assms obtain b where b: "bi = Some b" by (cases bi) (simp_all add: BucketInfoToApi_def)
  with assms obtain s a g where
    t: "translate S3BucketInfoTranslator (opbi_S3 b) validation = Inr s"
       "translate AzureBucketInfoTranslator (opbi_Azure b) validation = Inr a"
       "translate GcsBucketInfoTranslator (opbi_Gcs b) validation = Inr g"
    by (auto simp: BucketInfoToApi_def Let_def split: if_splits)
  have "ps = present_protocols b"
    and "m = MergeApiInfoIntoStringMap rank g (MergeApiInfoIntoStringMap rank a (MergeApiInfoIntoStringMap rank s []))"
    using assms b t by (auto simp: BucketInfoToApi_def present_protocols_def Let_def)
  then show ?thesis
    using that b s3b.merge_translated [OF t(1)] azb.merge_translated [OF t(2)] gcb.merge_translated [OF t(3)]
    by simp
qed

lemma BucketInfoToApi_succeeds:
  "(\<exists>r. BucketInfoToApi rank (Some b) validation = Inr r) \<longleftrightarrow>
     acceptable S3BucketInfoTranslator validation (opbi_S3 b) \<and>
     acceptable AzureBucketInfoTranslator validation (opbi_Azure b) \<and>
     acceptable GcsBucketInfoTranslator validation (opbi_Gcs b)"
  unfolding s3b.translate_acceptable [symmetric] azb.translate_acceptable [symmetric]
    gcb.translate_acceptable [symmetric]
  by (auto simp: BucketInfoToApi_def Let_def)

lemma CredentialsToApi_Inr:
  assumes "CredentialsToApi rank ci v = Inr m"
  obtains c where "ci = Some c"
    and "map_of m = vars_of S3CredentialTranslator (ci_S3 c) ++
           vars_of AzureCredentialTranslator (ci_Azure c) ++ vars_of GcsCredentialTranslator (ci_Gcs c)"
proof -
  from assms obtain c where c: "ci = Some c" by (cases ci) (simp_all add: CredentialsToApi_def)
  with assms obtain s a g where
    t: "translate S3CredentialTranslator (ci_S3 c) (Some v) = Inr s"
       "translate AzureCredentialTranslator (ci_Azure c) (Some v) = Inr a"
       "translate GcsCredentialTranslator (ci_Gcs c) (Some v) = Inr g"
    by (auto simp: CredentialsToApi_def Let_def split: if_splits)
  have "m = MergeApiInfoIntoStringMap rank g (MergeApiInfoIntoStringMap rank a (MergeApiInfoIntoStringMap rank s []))"
    using assms c t by (auto simp: CredentialsToApi_def Let_def)
  then show ?thesis
    using that c s3c.merge_translated [OF t(1)] azc.merge_translated [OF t(2)] gcc.merge_translated [OF t(3)]
    by simp
qed

lemma CredentialsToApi_succeeds:
  "(\<exists>r. CredentialsToApi rank (Some c) v = Inr r) \<longleftrightarrow>
     acceptable S3CredentialTranslator (Some v) (ci_S3 c) \<and>
     acceptable AzureCredentialTranslator (Some v) (ci_Azure c) \<and>
     acceptable GcsCredentialTranslator (Some v) (ci_Gcs c)"
  unfolding s3c.translate_acceptable [symmetric] azc.translate_acceptable [symmetric]
    gcc.translate_acceptable [symmetric]
  by (auto simp: CredentialsToApi_def Let_def)

lemmas acceptable_defs = acceptable_def S3BucketInfoTranslator_def AzureBucketInfoTranslator_def
  GcsBucketInfoTranslator_def S3CredentialTranslator_def AzureCredentialTranslator_def GcsCredentialTranslator_def

text \<open>Variables of different protocols never clash, so each protocol's info can be read back from the
  merged map.\<close>

lemma bucket_vars_disjoint:
  "dom (vars_of S3BucketInfoTranslator x) \<inter> dom (vars_of AzureBucketInfoTranslator y) = {}"
  "dom (vars_of S3BucketInfoTranslator x) \<inter> dom (vars_of GcsBucketInfoTranslator z) = {}"
  "dom (vars_of AzureBucketInfoTranslator y) \<inter> dom (vars_of GcsBucketInfoTranslator z) = {}"
  by (simp_all add: s3b.dom_vars_of azb.dom_vars_of gcb.dom_vars_of api_consts)

lemma merged_lookup_left: "f \<in> dom A \<Longrightarrow> dom A \<inter> dom B = {} \<Longrightarrow> dom A \<inter> dom C = {} \<Longrightarrow> (A ++ B ++ C) f = A f"
  by (auto simp: map_add_def split: option.splits)

lemma merged_lookup_mid: "f \<in> dom B \<Longrightarrow> dom B \<inter> dom C = {} \<Longrightarrow> (A ++ B ++ C) f = B f"
  by (auto simp: map_add_def split: option.splits)

lemma merged_lookup_right: "f \<in> dom C \<Longrightarrow> (A ++ B ++ C) f = C f"
  by (auto simp: map_add_def split: option.splits)

context rpc_api_translator
begin

lemma read_back_vars:
  assumes "\<And>f. f \<in> dom (vars_of T (Some r)) \<Longrightarrow> map_of m f = vars_of T (Some r) f"
  shows "tr_ApiToRpc T (Some m) = Some (canon r)"
proof -
  obtain m' where "tr_RpcToApi T (Some r) = Some m'" using rpc_some by blast
  then show ?thesis
    using assms read_back [of r m' m] dom_vars_of [of "Some r"] by (simp add: vars_of_def)
qed

end

text \<open>C35. Translating a driver's bucket info without validation never fails on a non-nil answer, reports
  exactly the protocols present, in the order S3, Azure, GCS, and loses nothing: from the merged map
  every protocol's info can be read back (but an S3 addressing style the API has no name for).\<close>

theorem BucketInfoToApi_lossless:
  "\<exists>m. BucketInfoToApi rank (Some b) None = Inr (present_protocols b, m) \<and>
     (case opbi_S3 b of None \<Rightarrow> True | Some i \<Rightarrow> S3BucketInfo_ApiToRpc (Some m) = Some (s3_canon i)) \<and>
     (case opbi_Azure b of None \<Rightarrow> True | Some i \<Rightarrow> AzureBucketInfo_ApiToRpc (Some m) = Some i) \<and>
     (case opbi_Gcs b of None \<Rightarrow> True | Some i \<Rightarrow> GcsBucketInfo_ApiToRpc (Some m) = Some i)"
proof -
  have "\<exists>r. BucketInfoToApi rank (Some b) None = Inr r"
    using BucketInfoToApi_succeeds [of rank b None] by (simp add: acceptable_def)
  then obtain ps m where r: "BucketInfoToApi rank (Some b) None = Inr (ps, m)" by fastforce
  then have ps: "ps = present_protocols b"
    and m: "map_of m = vars_of S3BucketInfoTranslator (opbi_S3 b) ++
           vars_of AzureBucketInfoTranslator (opbi_Azure b) ++ vars_of GcsBucketInfoTranslator (opbi_Gcs b)"
    by (auto elim: BucketInfoToApi_Inr)
  have "opbi_S3 b = Some i \<Longrightarrow> tr_ApiToRpc S3BucketInfoTranslator (Some m) = Some (s3_canon i)" for i
    by (rule s3b.read_back_vars) (simp add: m merged_lookup_left bucket_vars_disjoint)
  moreover have "opbi_Azure b = Some i \<Longrightarrow> tr_ApiToRpc AzureBucketInfoTranslator (Some m) = Some (id i)" for i
    by (rule azb.read_back_vars) (simp add: m merged_lookup_mid bucket_vars_disjoint)
  moreover have "opbi_Gcs b = Some i \<Longrightarrow> tr_ApiToRpc GcsBucketInfoTranslator (Some m) = Some (id i)" for i
    by (rule gcb.read_back_vars) (simp add: m merged_lookup_right)
  ultimately show ?thesis
    using r ps by (auto simp: S3BucketInfoTranslator_def AzureBucketInfoTranslator_def
        GcsBucketInfoTranslator_def split: option.splits)
qed

lemma BucketInfoToApi_exists:
  "(\<exists>m. BucketInfoToApi rank (Some b) validation = Inr (ps, m)) \<longleftrightarrow>
     ps = present_protocols b \<and> (\<exists>r. BucketInfoToApi rank (Some b) validation = Inr r)"
proof -
  have "qs = present_protocols b" if "BucketInfoToApi rank (Some b) validation = Inr (qs, m)" for qs m
    using that by (auto elim: BucketInfoToApi_Inr)
  then show ?thesis by (cases "BucketInfoToApi rank (Some b) validation") auto
qed

text \<open>With a validation configuration the bucket info is accepted exactly when it is there for the
  expected protocol, valid for it, and absent for both other protocols; then the expected protocol is
  the only one reported. For an expected protocol that is none of the three, only an empty answer is
  accepted.\<close>

lemma BucketInfoToApi_validated:
  "(\<exists>m. BucketInfoToApi rank bi (Some v) = Inr (ps, m)) \<longleftrightarrow>
     (case bi of
        None \<Rightarrow> False
      | Some b \<Rightarrow>
          if ExpectedProtocol v = ObjectProtocolS3 then
            ps = [ObjectProtocolS3] \<and> opbi_S3 b \<noteq> None \<and> opbi_Azure b = None \<and> opbi_Gcs b = None \<and>
            S3BucketInfo_Validate (S3BucketInfo_RpcToApi (opbi_S3 b)) (AuthenticationType v) = None
          else if ExpectedProtocol v = ObjectProtocolAzure then
            ps = [ObjectProtocolAzure] \<and> opbi_S3 b = None \<and> opbi_Azure b \<noteq> None \<and> opbi_Gcs b = None \<and>
            AzureBucketInfo_Validate (AzureBucketInfo_RpcToApi (opbi_Azure b)) (AuthenticationType v) = None
          else if ExpectedProtocol v = ObjectProtocolGcs then
            ps = [ObjectProtocolGcs] \<and> opbi_S3 b = None \<and> opbi_Azure b = None \<and> opbi_Gcs b \<noteq> None \<and>
            GcsBucketInfo_Validate (GcsBucketInfo_RpcToApi (opbi_Gcs b)) (AuthenticationType v) = None
          else ps = [] \<and> opbi_S3 b = None \<and> opbi_Azure b = None \<and> opbi_Gcs b = None)"
proof (cases bi)
  case None
  then show ?thesis by (simp add: BucketInfoToApi_def)
next
  case (Some b)
  have p: "ObjectProtocolS3 \<noteq> ObjectProtocolAzure" "ObjectProtocolS3 \<noteq> ObjectProtocolGcs"
    "ObjectProtocolAzure \<noteq> ObjectProtocolGcs"
    by (simp_all add: api_consts)
  show ?thesis
    unfolding Some BucketInfoToApi_exists BucketInfoToApi_succeeds
    using p p [symmetric] by (auto simp: acceptable_defs present_protocols_def)
qed

text \<open>C36. Credentials are accepted exactly when they are there for the expected protocol, valid for the
  authentication type, and absent for both other protocols; the accepted map gives the driver's
  credentials back unchanged.\<close>

theorem CredentialsToApi_validated:
  "((\<exists>m. CredentialsToApi rank ci v = Inr m) \<longleftrightarrow>
     (case ci of
        None \<Rightarrow> False
      | Some c \<Rightarrow>
          if ExpectedProtocol v = ObjectProtocolS3 then
            ci_S3 c \<noteq> None \<and> ci_Azure c = None \<and> ci_Gcs c = None \<and>
            S3Credential_Validate (S3Credential_RpcToApi (ci_S3 c)) (AuthenticationType v) = None
          else if ExpectedProtocol v = ObjectProtocolAzure then
            ci_S3 c = None \<and> ci_Azure c \<noteq> None \<and> ci_Gcs c = None \<and>
            AzureCredential_Validate (AzureCredential_RpcToApi (ci_Azure c)) (AuthenticationType v) = None
          else if ExpectedProtocol v = ObjectProtocolGcs then
            ci_S3 c = None \<and> ci_Azure c = None \<and> ci_Gcs c \<noteq> None \<and>
            GcsCredential_Validate (GcsCredential_RpcToApi (ci_Gcs c)) (AuthenticationType v) = None
          else ci_S3 c = None \<and> ci_Azure c = None \<and> ci_Gcs c = None)) \<and>
   (case CredentialsToApi rank ci v of
      Inl e \<Rightarrow> True
    | Inr m \<Rightarrow> (\<exists>c. ci = Some c \<and>
        (if ExpectedProtocol v = ObjectProtocolS3 then S3Credential_ApiToRpc (Some m) = ci_S3 c
         else if ExpectedProtocol v = ObjectProtocolAzure then AzureCredential_ApiToRpc (Some m) = ci_Azure c
         else if ExpectedProtocol v = ObjectProtocolGcs then GcsCredential_ApiToRpc (Some m) = ci_Gcs c
         else m = [])))"
  (is "?accepts \<and> ?gives")
proof
  have p: "ObjectProtocolS3 \<noteq> ObjectProtocolAzure" "ObjectProtocolS3 \<noteq> ObjectProtocolGcs"
    "ObjectProtocolAzure \<noteq> ObjectProtocolGcs"
    by (simp_all add: api_consts)
  show acc: ?accepts
  proof (cases ci)
    case None
    then show ?thesis by (simp add: CredentialsToApi_def)
  next
    case (Some c)
    show ?thesis unfolding Some CredentialsToApi_succeeds
      using p p [symmetric] by (auto simp: acceptable_defs)
  qed
  show ?gives
  proof (cases "CredentialsToApi rank ci v")
    case (Inr m)
    then obtain c where c: "ci = Some c"
      and m: "map_of m = vars_of S3CredentialTranslator (ci_S3 c) ++
           vars_of AzureCredentialTranslator (ci_Azure c) ++ vars_of GcsCredentialTranslator (ci_Gcs c)"
      by (rule CredentialsToApi_Inr)
    have nil: "vars_of S3CredentialTranslator None = Map.empty" "vars_of AzureCredentialTranslator None = Map.empty"
      "vars_of GcsCredentialTranslator None = Map.empty"
      using s3c.dom_vars_of [of None] azc.dom_vars_of [of None] gcc.dom_vars_of [of None] by simp_all
    have "map_of m = vars_of S3CredentialTranslator (Some x) \<Longrightarrow> S3Credential_ApiToRpc (Some m) = Some x" for x
      using s3c.read_back_vars [of x m] by (simp add: S3CredentialTranslator_def)
    moreover have "map_of m = vars_of AzureCredentialTranslator (Some x) \<Longrightarrow> AzureCredential_ApiToRpc (Some m) = Some x" for x
      using azc.read_back_vars [of x m] by (simp add: AzureCredentialTranslator_def)
    moreover have "map_of m = vars_of GcsCredentialTranslator (Some x) \<Longrightarrow> GcsCredential_ApiToRpc (Some m) = Some x" for x
      using gcc.read_back_vars [of x m] by (simp add: GcsCredentialTranslator_def)
    ultimately show ?thesis
      using acc Inr c m nil by (auto split: if_splits)
  qed simp
qed

lemma AuthenticationTypeToRpc_iff:
  "(\<exists>t. AuthenticationTypeToRpc a = Inr t) \<longleftrightarrow>
     a \<in> {BucketAccessAuthenticationTypeKey, BucketAccessAuthenticationTypeServiceAccount}"
  by (simp add: AuthenticationTypeToRpc_def)

lemma AccessModeToRpc_iff:
  "(\<exists>t. AccessModeToRpc m = Inr t) \<longleftrightarrow>
     m \<in> {BucketAccessModeReadOnly, BucketAccessModeReadWrite, BucketAccessModeWriteOnly}"
  by (simp add: AccessModeToRpc_def)

end
