(* ===== verification/Handoff.thy ===== *)
theory Handoff
  imports Cosi_Api
begin

text \<open>
  \<open>internal/bucketaccess/bucketaccess.go\<close>: who manages a BucketAccess. The Controller initializes it
  and hands it to the driver's Sidecar by setting the status; during deletion the Sidecar hands it
  back by an annotation. Controller and Sidecar evaluate the same function, so each BucketAccess
  has exactly one manager.
\<close>

definition ManagedBySidecar :: "BucketAccess \<Rightarrow> bool" where
  "ManagedBySidecar ba =
     (if ghas (Annotations (ba_meta ba)) ControllerManagementOverrideAnnotation then False
      else if baStatus_DriverName (ba_Status ba) = '''' then False
      else if \<not> IsZero (DeletionTimestamp (ba_meta ba)) then
        \<not> ghas (Annotations (ba_meta ba)) SidecarCleanupFinishedAnnotation
      else True)"

text \<open>\<open>%v\<close> of the map of required fields: Go prints the keys in order.\<close>

definition bool_text :: "bool \<Rightarrow> string" where
  "bool_text b = (if b then ''true'' else ''false'')"

definition required_fields_text :: "bool \<Rightarrow> bool \<Rightarrow> bool \<Rightarrow> string" where
  "required_fields_text buckets driver auth =
     ''map[status.accessedBuckets:'' @ bool_text buckets @ '' status.authenticationType:'' @ bool_text auth @
     '' status.driverName:'' @ bool_text driver @ '']''"

definition SidecarRequirementsPresent :: "BucketAccessStatus \<Rightarrow> gerror + bool" where
  "SidecarRequirementsPresent s =
     (let requiredFields =
            [(''status.accessedBuckets'', baStatus_AccessedBuckets s \<noteq> []),
             (''status.driverName'', baStatus_DriverName s \<noteq> ''''),
             (''status.authenticationType'', baStatus_AuthenticationType s \<noteq> '''')];
          set_fields = map fst (filter snd requiredFields)
      in if length set_fields = 0 then Inr False
         else if length set_fields = length requiredFields then Inr True
         else Inl (Errorf ''fields required for sidecar provisioning are only partially set: %v''
                     [AText (required_fields_text (baStatus_AccessedBuckets s \<noteq> [])
                               (baStatus_DriverName s \<noteq> '''') (baStatus_AuthenticationType s \<noteq> ''''))]))"

subsection \<open>Properties\<close>

lemma ManagedBySidecar_iff:
  "ManagedBySidecar ba \<longleftrightarrow>
     \<not> ghas (Annotations (ba_meta ba)) ControllerManagementOverrideAnnotation \<and>
     baStatus_DriverName (ba_Status ba) \<noteq> '''' \<and>
     (deleting (ba_meta ba) \<longrightarrow> \<not> ghas (Annotations (ba_meta ba)) SidecarCleanupFinishedAnnotation)"
  by (simp add: ManagedBySidecar_def deleting_def)

lemma SidecarRequirementsPresent_True:
  "SidecarRequirementsPresent s = Inr True \<longleftrightarrow>
     baStatus_AccessedBuckets s \<noteq> [] \<and> baStatus_DriverName s \<noteq> '''' \<and> baStatus_AuthenticationType s \<noteq> ''''"
  by (auto simp: SidecarRequirementsPresent_def Let_def)

lemma SidecarRequirementsPresent_False:
  "SidecarRequirementsPresent s = Inr False \<longleftrightarrow>
     baStatus_AccessedBuckets s = [] \<and> baStatus_DriverName s = '''' \<and> baStatus_AuthenticationType s = ''''"
  by (auto simp: SidecarRequirementsPresent_def Let_def)

text \<open>A BucketAccess status is initialized, not initialized or degraded, exactly when all, none or
  only some of the three fields the sidecar needs are set; degradation is the only error.\<close>

lemma SidecarRequirementsPresent_trichotomy:
  "let fields = [baStatus_AccessedBuckets s \<noteq> [], baStatus_DriverName s \<noteq> '''',
                 baStatus_AuthenticationType s \<noteq> '''']
   in (SidecarRequirementsPresent s = Inr True \<longleftrightarrow> list_all id fields) \<and>
      (SidecarRequirementsPresent s = Inr False \<longleftrightarrow> \<not> list_ex id fields) \<and>
      ((\<exists>e. SidecarRequirementsPresent s = Inl e) \<longleftrightarrow> list_ex id fields \<and> \<not> list_all id fields)"
  by (auto simp: SidecarRequirementsPresent_def Let_def)

end
