(* ===== verification/Predicates.thy ===== *)
theory Predicates
  imports Handoff
begin

text \<open>
  \<open>internal/predicate/predicate.go\<close>, the vendored predicate combinators it builds on, the driver
  name predicate of \<open>sidecar/pkg/reconciler/driver.go\<close>, and the event filters the reconcilers are
  set up with: which watch events put an object into which work queue. The properties state for
  every event what is enqueued where, and that a change of manager always reaches the new manager.
\<close>

subsection \<open>Events and predicates (controller-runtime)\<close>

datatype event = CreateEvent ClientObject | UpdateEvent ClientObject ClientObject
  | DeleteEvent ClientObject | GenericEvent ClientObject

record Funcs =
  CreateFunc :: "ClientObject \<Rightarrow> bool"
  UpdateFunc :: "ClientObject \<Rightarrow> ClientObject \<Rightarrow> bool"
  DeleteFunc :: "ClientObject \<Rightarrow> bool"
  GenericFunc :: "ClientObject \<Rightarrow> bool"

fun admits :: "Funcs \<Rightarrow> event \<Rightarrow> bool" where
  "admits p (CreateEvent e) = CreateFunc p e"
| "admits p (UpdateEvent old new) = UpdateFunc p old new"
| "admits p (DeleteEvent e) = DeleteFunc p e"
| "admits p (GenericEvent e) = GenericFunc p e"

definition NewPredicateFuncs :: "(ClientObject \<Rightarrow> bool) \<Rightarrow> Funcs" where
  "NewPredicateFuncs filt =
     \<lparr>CreateFunc = filt, UpdateFunc = (\<lambda>old new. filt new), DeleteFunc = filt, GenericFunc = filt\<rparr>"

definition And :: "Funcs list \<Rightarrow> Funcs" where
  "And ps =
     \<lparr>CreateFunc = (\<lambda>e. list_all (\<lambda>p. CreateFunc p e) ps),
      UpdateFunc = (\<lambda>old new. list_all (\<lambda>p. UpdateFunc p old new) ps),
      DeleteFunc = (\<lambda>e. list_all (\<lambda>p. DeleteFunc p e) ps),
      GenericFunc = (\<lambda>e. list_all (\<lambda>p. GenericFunc p e) ps)\<rparr>"

definition Or :: "Funcs list \<Rightarrow> Funcs" where
  "Or ps =
     \<lparr>CreateFunc = (\<lambda>e. list_ex (\<lambda>p. CreateFunc p e) ps),
      UpdateFunc = (\<lambda>old new. list_ex (\<lambda>p. UpdateFunc p old new) ps),
      DeleteFunc = (\<lambda>e. list_ex (\<lambda>p. DeleteFunc p e) ps),
      GenericFunc = (\<lambda>e. list_ex (\<lambda>p. GenericFunc p e) ps)\<rparr>"

definition GenerationChanged_Update :: "ClientObject \<Rightarrow> ClientObject \<Rightarrow> bool" where
  "GenerationChanged_Update old new \<longleftrightarrow> Generation (object_meta new) \<noteq> Generation (object_meta old)"

subsection \<open>COSI predicates (predicate.go)\<close>

definition allFalseFuncs :: Funcs where
  "allFalseFuncs =
     \<lparr>CreateFunc = (\<lambda>e. False), UpdateFunc = (\<lambda>old new. False),
      DeleteFunc = (\<lambda>e. False), GenericFunc = (\<lambda>e. False)\<rparr>"

definition AnyCreate :: Funcs where "AnyCreate = allFalseFuncs\<lparr>CreateFunc := (\<lambda>e. True)\<rparr>"

definition AnyDelete :: Funcs where "AnyDelete = allFalseFuncs\<lparr>DeleteFunc := (\<lambda>e. True)\<rparr>"

definition AnyGeneric :: Funcs where "AnyGeneric = allFalseFuncs\<lparr>GenericFunc := (\<lambda>e. True)\<rparr>"

definition GenerationChangedInUpdateOnly :: Funcs where
  "GenerationChangedInUpdateOnly = allFalseFuncs\<lparr>UpdateFunc := GenerationChanged_Update\<rparr>"

definition ProtectionFinalizerRemoved :: Funcs where
  "ProtectionFinalizerRemoved = allFalseFuncs\<lparr>UpdateFunc := (\<lambda>old new.
     (if \<not> IsZero (DeletionTimestamp (object_meta new)) then False
      else
        (let oldHas = ContainsFinalizer (object_meta old) ProtectionFinalizer;
             newHas = ContainsFinalizer (object_meta new) ProtectionFinalizer
         in if oldHas \<and> \<not> newHas then True else False)))\<rparr>"

text \<open>The conversion to the expected type; a failure is logged.\<close>

fun toTypedBucketAccess :: "ClientObject \<Rightarrow> BucketAccess option" where
  "toTypedBucketAccess (ObjBucketAccess ba) = Some ba"
| "toTypedBucketAccess _ = None"

definition handoffOccurred :: "BucketAccess \<Rightarrow> BucketAccess \<Rightarrow> bool" where
  "handoffOccurred old new =
     (let oldIsSidecar = ManagedBySidecar old; newIsSidecar = ManagedBySidecar new
      in if oldIsSidecar \<noteq> newIsSidecar then True else False)"

definition BucketAccessHandoffOccurred :: Funcs where
  "BucketAccessHandoffOccurred = allFalseFuncs\<lparr>UpdateFunc := (\<lambda>old new.
     (case toTypedBucketAccess old of
        None \<Rightarrow> False
      | Some oldBa \<Rightarrow>
          (case toTypedBucketAccess new of None \<Rightarrow> False | Some newBa \<Rightarrow> handoffOccurred oldBa newBa)))\<rparr>"

definition BucketAccessManagedBySidecar :: Funcs where
  "BucketAccessManagedBySidecar = NewPredicateFuncs (\<lambda>object.
     (case toTypedBucketAccess object of None \<Rightarrow> False | Some ba \<Rightarrow> ManagedBySidecar ba))"

definition BucketAccessManagedByController :: Funcs where
  "BucketAccessManagedByController = NewPredicateFuncs (\<lambda>object.
     (case toTypedBucketAccess object of None \<Rightarrow> False | Some ba \<Rightarrow> \<not> ManagedBySidecar ba))"

definition driverNameMatchesPredicate :: "string \<Rightarrow> Funcs" where
  "driverNameMatchesPredicate driverName = NewPredicateFuncs (\<lambda>object.
     (case object of
        ObjBucket b \<Rightarrow> bSpec_DriverName (b_Spec b) = driverName
      | ObjBucketAccess a \<Rightarrow> baStatus_DriverName (ba_Status a) = driverName
      | _ \<Rightarrow> False))"

subsection \<open>The filters of the reconcilers (SetupWithManager)\<close>

definition claim_controller_filter :: Funcs where
  "claim_controller_filter =
     Or [AnyCreate, AnyDelete, AnyGeneric, GenerationChangedInUpdateOnly, ProtectionFinalizerRemoved]"

definition access_controller_filter :: Funcs where
  "access_controller_filter =
     And [BucketAccessManagedByController,
          Or [AnyCreate, AnyDelete, AnyGeneric, BucketAccessHandoffOccurred, ProtectionFinalizerRemoved]]"

definition bucket_sidecar_filter :: "string \<Rightarrow> Funcs" where
  "bucket_sidecar_filter driver =
     And [driverNameMatchesPredicate driver,
          Or [AnyCreate, AnyDelete, AnyGeneric, GenerationChangedInUpdateOnly, ProtectionFinalizerRemoved]]"

definition access_sidecar_filter :: "string \<Rightarrow> Funcs" where
  "access_sidecar_filter driver =
     And [driverNameMatchesPredicate driver,
          Or [AnyCreate, AnyDelete, AnyGeneric, BucketAccessHandoffOccurred, ProtectionFinalizerRemoved]]"

subsection \<open>Properties\<close>

lemmas predicate_defs = NewPredicateFuncs_def And_def Or_def allFalseFuncs_def AnyCreate_def AnyDelete_def
  AnyGeneric_def GenerationChangedInUpdateOnly_def GenerationChanged_Update_def
  ProtectionFinalizerRemoved_def handoffOccurred_def BucketAccessHandoffOccurred_def
  BucketAccessManagedBySidecar_def BucketAccessManagedByController_def driverNameMatchesPredicate_def

lemmas filter_defs = claim_controller_filter_def access_controller_filter_def bucket_sidecar_filter_def
  access_sidecar_filter_def

fun event_object :: "event \<Rightarrow> ClientObject" where
  "event_object (CreateEvent e) = e"
| "event_object (UpdateEvent old new) = new"
| "event_object (DeleteEvent e) = e"
| "event_object (GenericEvent e) = e"

definition finalizer_lost :: "ObjectMeta \<Rightarrow> ObjectMeta \<Rightarrow> bool" where
  "finalizer_lost old new \<longleftrightarrow> \<not> deleting new \<and> ContainsFinalizer old ProtectionFinalizer \<and>
     \<not> ContainsFinalizer new ProtectionFinalizer"

lemma admits_And [simp]: "admits (And ps) e \<longleftrightarrow> (\<forall>p \<in> set ps. admits p e)"
  by (cases e) (auto simp: And_def list_all_iff)

lemma admits_Or [simp]: "admits (Or ps) e \<longleftrightarrow> (\<exists>p \<in> set ps. admits p e)"
  by (cases e) (auto simp: Or_def list_ex_iff)

lemma admits_NewPredicateFuncs [simp]: "admits (NewPredicateFuncs f) e \<longleftrightarrow> f (event_object e)"
  by (cases e) (auto simp: NewPredicateFuncs_def)

declare admits.simps [simp del]

text \<open>For every event exactly one of the two management predicates admits a BucketAccess, and
  neither admits any other object.\<close>

lemma manager_predicates_partition:
  "(admits BucketAccessManagedBySidecar e \<noteq> admits BucketAccessManagedByController e) \<longleftrightarrow>
     (\<exists>ba. event_object e = ObjBucketAccess ba)"
  by (cases "event_object e") (simp_all add: BucketAccessManagedBySidecar_def BucketAccessManagedByController_def)

lemma update_admits:
  "admits AnyCreate (UpdateEvent x y) = False" "admits AnyDelete (UpdateEvent x y) = False"
  "admits AnyGeneric (UpdateEvent x y) = False"
  "admits ProtectionFinalizerRemoved (UpdateEvent x y) = finalizer_lost (object_meta x) (object_meta y)"
  "admits GenerationChangedInUpdateOnly (UpdateEvent x y) \<longleftrightarrow> Generation (object_meta y) \<noteq> Generation (object_meta x)"
  by (auto simp: admits.simps predicate_defs finalizer_lost_def deleting_def Let_def)

lemma update_admits_handoff:
  "admits BucketAccessHandoffOccurred (UpdateEvent (ObjBucketAccess old) (ObjBucketAccess new)) \<longleftrightarrow>
     ManagedBySidecar old \<noteq> ManagedBySidecar new"
  by (simp add: admits.simps predicate_defs Let_def)

text \<open>C29. Which updates of a BucketAccess are enqueued: the Controller's queue gets one exactly when the
  new object is the Controller's and it either was the Sidecar's before or lost its finalizer; the
  queue of a driver's Sidecar gets one exactly when the new object names the driver and the manager
  changed or the finalizer was lost.\<close>

theorem access_update_enqueued:
  "(admits access_controller_filter (UpdateEvent (ObjBucketAccess old) (ObjBucketAccess new)) \<longleftrightarrow>
      \<not> ManagedBySidecar new \<and> (ManagedBySidecar old \<or> finalizer_lost (ba_meta old) (ba_meta new))) \<and>
   (admits (access_sidecar_filter d) (UpdateEvent (ObjBucketAccess old) (ObjBucketAccess new)) \<longleftrightarrow>
      baStatus_DriverName (ba_Status new) = d \<and>
      ((ManagedBySidecar old \<longleftrightarrow> \<not> ManagedBySidecar new) \<or> finalizer_lost (ba_meta old) (ba_meta new)))"
  by (auto simp: filter_defs update_admits update_admits_handoff BucketAccessManagedByController_def
      driverNameMatchesPredicate_def)

definition access_requested :: BucketAccess where
  "access_requested =
     \<lparr>ba_meta = \<lparr>Name = ''a'', Namespace = ''ns'', UID = ''u1'', ResourceVersion = 1, Generation = 1,
                 DeletionTimestamp = None, Finalizers = [ProtectionFinalizer], Annotations = [],
                 OwnerReferences = []\<rparr>,
      ba_Spec = \<lparr>baSpec_BucketClaims = [\<lparr>bca_BucketClaimName = ''c'', bca_AccessMode = ''ReadWrite'',
                   bca_AccessSecretName = ''s''\<rparr>],
                 baSpec_BucketAccessClassName = ''class'', baSpec_Protocol = ''S3'', baSpec_ServiceAccountName = ''''\<rparr>,
      ba_Status = \<lparr>baStatus_ReadyToUse = None, baStatus_AccountID = '''', baStatus_AccessedBuckets = [],
                   baStatus_DriverName = '''', baStatus_AuthenticationType = '''', baStatus_Parameters = [],
                   baStatus_Error = None\<rparr>\<rparr>"

definition access_handed_off :: BucketAccess where
  "access_handed_off = access_requested\<lparr>ba_Status := (ba_Status access_requested)\<lparr>
     baStatus_AccessedBuckets := [\<lparr>ab_BucketName = ''bc-u0'', ab_BucketID = '''', ab_BucketClaimName = ''c''\<rparr>],
     baStatus_DriverName := ''drv'', baStatus_AuthenticationType := ''Key''\<rparr>\<rparr>"

lemma handed_off_managers: "\<not> ManagedBySidecar access_requested" "ManagedBySidecar access_handed_off"
  by (simp_all add: ManagedBySidecar_def access_requested_def access_handed_off_def IsZero_def)

text \<open>C30. The filters do not look at the deletion timestamp: the update that requests the deletion of a
  BucketAccess (and changes nothing the filters look at) is enqueued neither by the Controller nor
  by any Sidecar, as long as the Sidecar has not finished its cleanup.\<close>

theorem access_deletion_request_not_enqueued:
  assumes "\<not> ghas (Annotations (ba_meta ba)) SidecarCleanupFinishedAnnotation" and "\<not> deleting (ba_meta ba)"
    and "t \<noteq> 0"
  shows "let deleted = ba\<lparr>ba_meta := (ba_meta ba)\<lparr>DeletionTimestamp := Some t, Generation := g\<rparr>\<rparr>;
             e = UpdateEvent (ObjBucketAccess ba) (ObjBucketAccess deleted)
         in \<not> admits access_controller_filter e \<and> \<not> admits (access_sidecar_filter d) e"
proof -
  let ?deleted = "ba\<lparr>ba_meta := (ba_meta ba)\<lparr>DeletionTimestamp := Some t, Generation := g\<rparr>\<rparr>"
  have "ManagedBySidecar ?deleted = ManagedBySidecar ba"
    using assms by (simp add: ManagedBySidecar_def)
  moreover have "deleting (ba_meta ?deleted)" using assms by (simp add: deleting_def IsZero_def)
  ultimately show ?thesis
    by (auto simp: filter_defs update_admits update_admits_handoff BucketAccessManagedByController_def
        driverNameMatchesPredicate_def finalizer_lost_def Let_def)
qed

theorem access_deletion_request_not_enqueued_witness:
  "\<not> admits (access_sidecar_filter ''drv'')
     (UpdateEvent (ObjBucketAccess access_handed_off)
        (ObjBucketAccess (access_handed_off\<lparr>ba_meta := (ba_meta access_handed_off)\<lparr>DeletionTimestamp := Some 9,
           Generation := 2\<rparr>\<rparr>)))"
  using access_deletion_request_not_enqueued [of access_handed_off 9 2 "''drv''"]
  by (simp add: access_handed_off_def access_requested_def deleting_def IsZero_def Let_def)

end
