(* ===== verification/Driver.thy ===== *)
theory Driver
  imports Cosi_Api Cosi_Proto
begin

text \<open>
  How a sidecar meets its driver: \<open>sidecar/cmd/rpc.go\<close> (the endpoint, the connection loop, the
  driver's self description) and \<open>sidecar/pkg/reconciler/driver.go\<close> (validation of the driver's
  name and protocols, the classification of RPC error codes). The gRPC client is outside: its
  observable results are arguments.
\<close>

subsection \<open>RPC error codes\<close>

definition codes_InvalidArgument :: Code where [rpc_consts]: "codes_InvalidArgument = 3"
definition codes_NotFound :: Code where [rpc_consts]: "codes_NotFound = 5"
definition codes_AlreadyExists :: Code where [rpc_consts]: "codes_AlreadyExists = 6"
definition codes_PermissionDenied :: Code where [rpc_consts]: "codes_PermissionDenied = 7"
definition codes_Aborted :: Code where [rpc_consts]: "codes_Aborted = 10"
definition codes_OutOfRange :: Code where [rpc_consts]: "codes_OutOfRange = 11"
definition codes_Unimplemented :: Code where [rpc_consts]: "codes_Unimplemented = 12"
definition codes_Unauthenticated :: Code where [rpc_consts]: "codes_Unauthenticated = 16"

definition rpcErrorIsRetryable :: "Code \<Rightarrow> bool" where
  "rpcErrorIsRetryable c =
     (if c = codes_InvalidArgument then False
      else if c = codes_PermissionDenied then True
      else if c = codes_AlreadyExists then False
      else if c = codes_Aborted then True
      else if c = codes_Unimplemented then False
      else if c = codes_Unauthenticated then True
      else True)"

subsection \<open>The driver's info\<close>

text \<open>\<open>DriverInfo\<close>; its client handle is the environment of the reconcilers.\<close>

record DriverInfo =
  di_Name :: string
  di_SupportedProtocols :: "ObjectProtocol_Type list"

definition SupportsProtocol :: "DriverInfo \<Rightarrow> ObjectProtocol_Type \<Rightarrow> bool" where
  "SupportsProtocol d p = list_ex (\<lambda>sp. sp = p) (di_SupportedProtocols d)"

text \<open>The vendored check of an RFC 1035 label: the length bound and the regular expression
  \<open>[a-z]([-a-z0-9]*[a-z0-9])?\<close>, anchored at both ends.\<close>

definition is_lower :: "char \<Rightarrow> bool" where
  "is_lower c \<longleftrightarrow> (let n = (of_char c :: nat) in 97 \<le> n \<and> n \<le> 122)"

definition is_alnum :: "char \<Rightarrow> bool" where
  "is_alnum c \<longleftrightarrow> is_lower c \<or> (let n = (of_char c :: nat) in 48 \<le> n \<and> n \<le> 57)"

definition dns1035LabelRegexp :: "string \<Rightarrow> bool" where
  "dns1035LabelRegexp s =
     (case s of
        [] \<Rightarrow> False
      | c # cs \<Rightarrow> is_lower c \<and>
          (cs = [] \<or> list_all (\<lambda>x. x = CHR ''-'' \<or> is_alnum x) (butlast cs) \<and> is_alnum (last cs)))"

definition DNS1035LabelMaxLength :: nat where "DNS1035LabelMaxLength = 63"

definition MaxLenError :: "nat \<Rightarrow> string" where
  "MaxLenError n = sprintf ''must be no more than %d characters'' [ANat n]"

fun regex_examples :: "string list \<Rightarrow> string" where
  "regex_examples [] = ''''"
| "regex_examples [x] = [CHR 0x27] @ x @ [CHR 0x27] @ '', ''"
| "regex_examples (x # y # xs) = [CHR 0x27] @ x @ [CHR 0x27] @ '',  or '' @ regex_examples (y # xs)"

definition RegexError :: "string \<Rightarrow> string \<Rightarrow> string list \<Rightarrow> string" where
  "RegexError msg fmt examples =
     (if examples = [] then msg @ '' (regex used for validation is '' @ [CHR 0x27] @ fmt @ [CHR 0x27] @ '')''
      else msg @ '' (e.g. '' @ regex_examples examples @ ''regex used for validation is '' @
           [CHR 0x27] @ fmt @ [CHR 0x27] @ '')'')"

definition IsDNS1035Label :: "string \<Rightarrow> string list" where
  "IsDNS1035Label v =
     (if length v > DNS1035LabelMaxLength then [MaxLenError DNS1035LabelMaxLength] else []) @
     (if \<not> dns1035LabelRegexp v
      then [RegexError (''a DNS-1035 label must consist of lower case alphanumeric characters or '' @
              [CHR 0x27] @ ''-'' @ [CHR 0x27] @ '', start with an alphabetic character, and end with an alphanumeric character'')
              ''[a-z]([-a-z0-9]*[a-z0-9])?'' [''my-name'', ''abc-123'']]
      else [])"

definition validateDriverName :: "string \<Rightarrow> gerror option" where
  "validateDriverName n =
     (let allErrs =
            (if length n > 63 then [sprintf ''must be no more than 63 characters: length=%d'' [ANat (length n)]] else []) @
            concat (map (\<lambda>l. let errs = IsDNS1035Label l
                              in if errs \<noteq> [] then [sprintf ''%q is not a valid RFC-1035 label: %v'' [AStr l, AErrs errs]]
                                 else []) (split_on CHR ''.'' n))
      in if allErrs \<noteq> [] then Some (Errorf ''driver name %q is invalid: %v'' [AStr n, AErrs allErrs]) else None)"

text \<open>The loop of \<open>validateAndParseProtocols\<close>, with its set of protocols seen. A message with the type
  UNKNOWN prints as the empty text.\<close>

fun parse_protocols ::
  "ObjectProtocol_Type list \<Rightarrow> ObjectProtocol_Type list \<Rightarrow> ObjectProtocolMsg list \<Rightarrow> gerror + ObjectProtocol_Type list" where
  "parse_protocols seen out [] = Inr out"
| "parse_protocols seen out (op # ops) =
     (let t = op_Type op
      in if t = ObjectProtocol_UNKNOWN then Inl (Errorf ''object protocol %q is unknown'' [AStr ''''])
         else if t \<in> set seen then Inl (Errorf ''object protocol'' [])
         else parse_protocols (t # seen) (out @ [t]) ops)"

definition validateAndParseProtocols :: "ObjectProtocolMsg list \<Rightarrow> gerror + ObjectProtocol_Type list" where
  "validateAndParseProtocols objProtocols =
     (if objProtocols = [] then Inl (Errorf ''at least one object protocol must be supported'' [])
      else parse_protocols [] [] objProtocols)"

definition ValidateAndSetDriverConnectionInfo :: "DriverGetInfoResponse \<Rightarrow> gerror + DriverInfo" where
  "ValidateAndSetDriverConnectionInfo info =
     (case validateDriverName (gi_Name info) of
        Some e \<Rightarrow> Inl (Wrapf ''driver name is invalid: %w'' [] e)
      | None \<Rightarrow>
          (case validateAndParseProtocols (gi_SupportedProtocols info) of
             Inl e \<Rightarrow> Inl (Wrapf ''supported protocols list is invalid: %w'' [] e)
           | Inr ps \<Rightarrow> Inr \<lparr>di_Name = gi_Name info, di_SupportedProtocols = ps\<rparr>))"

subsection \<open>Connecting (cmd/rpc.go)\<close>

datatype connectivity = Idle | Connecting | Ready | TransientFailure | Shutdown

fun connectivity_String :: "connectivity \<Rightarrow> string" where
  "connectivity_String Idle = ''IDLE''"
| "connectivity_String Connecting = ''CONNECTING''"
| "connectivity_String Ready = ''READY''"
| "connectivity_String TransientFailure = ''TRANSIENT_FAILURE''"
| "connectivity_String Shutdown = ''SHUTDOWN''"

text \<open>The loop waits for the next state of the connection until the context ends; what it observes is
  the list of states the connection changes to before the timeout. That this is what the loop computes is shown below
  (\<open>wait_loop\<close>).\<close>

fun wait_ready :: "connectivity list \<Rightarrow> gerror + unit" where
  "wait_ready [] = Inl (Errorf ''timed out waiting for RPC client to connect'' [])"
| "wait_ready (st # sts) = (if st = Ready then Inr () else wait_ready sts)"

text \<open>The loop as it is written, without a bound on the waits: the \<open>i\<close>-th wait yields the state the connection has then, or \<open>None\<close> when the context
  ended first. Without an end of the context the loop may run forever, which is \<open>None\<close>.\<close>

partial_function (option) wait_loop :: "(nat \<Rightarrow> connectivity option) \<Rightarrow> nat \<Rightarrow> (gerror + unit) option" where
  "wait_loop conn i =
     (case conn i of
        None \<Rightarrow> Some (Inl (Errorf ''timed out waiting for RPC client to connect'' []))
      | Some st \<Rightarrow> if st = Ready then Some (Inr ()) else wait_loop conn (Suc i))"

definition connectRpc :: "gerror + connectivity \<Rightarrow> connectivity list \<Rightarrow> gerror + unit" where
  "connectRpc client states =
     (case client of
        Inl e \<Rightarrow> Inl (Wrapf ''unable to create gRPC client: %w'' [] e)
      | Inr st \<Rightarrow>
          if st \<noteq> Idle then Inl (Errorf ''gRPC client is not idle: %v'' [AText (connectivity_String st)])
          else wait_ready states)"

definition connectRpcAndGetDriverInfo ::
  "string \<Rightarrow> gerror + connectivity \<Rightarrow> connectivity list \<Rightarrow> gerror + DriverGetInfoResponse \<Rightarrow> gerror + DriverInfo" where
  "connectRpcAndGetDriverInfo rpcEndpoint client states driverGetInfo =
     (if \<not> has_prefix rpcEndpoint ''unix://''
      then Inl (Errorf (''rpc endpoint must be a unix socket prefix '' @ [CHR 0x27] @ ''unix://'' @ [CHR 0x27] @ '': %s'')
                  [AStr rpcEndpoint])
      else if \<not> has_suffix rpcEndpoint ''.sock''
      then Inl (Errorf (''rpc endpoint must be a unix socket with extension '' @ [CHR 0x27] @ ''.sock'' @ [CHR 0x27] @ '': %s'')
                  [AStr rpcEndpoint])
      else
        (case connectRpc client states of
           Inl e \<Rightarrow> Inl (Wrapf ''unable to connect to RPC endpoint %q: %w'' [AStr rpcEndpoint] e)
         | Inr _ \<Rightarrow>
             (case driverGetInfo of
                Inl e \<Rightarrow> Inl (Wrapf ''unable to get driver info: %w'' [] e)
              | Inr driverResponse \<Rightarrow>
                  (case ValidateAndSetDriverConnectionInfo driverResponse of
                     Inl e \<Rightarrow> Inl (Wrapf ''driver info is invalid: %w'' [] e)
                   | Inr validatedInfo \<Rightarrow> Inr validatedInfo))))"

subsection \<open>The names the API takes\<close>

text \<open>The markers of \<open>driverName\<close> in the schema: length 1 to 63 and the pattern
  \<open>^[a-zA-Z0-9]([a-zA-Z0-9\-\.]\{0,61\}[a-zA-Z0-9])?$\<close>.\<close>

definition alphanumeric :: "char \<Rightarrow> bool" where
  "alphanumeric c \<longleftrightarrow> is_alnum c \<or> (let n = (of_char c :: nat) in 65 \<le> n \<and> n \<le> 90)"

definition name_char :: "char \<Rightarrow> bool" where
  "name_char c \<longleftrightarrow> alphanumeric c \<or> c = CHR ''-'' \<or> c = CHR ''.''"

definition DriverName_valid :: "string \<Rightarrow> bool" where
  "DriverName_valid n \<longleftrightarrow> 1 \<le> length n \<and> length n \<le> 63 \<and> alphanumeric (hd n) \<and> list_all name_char n \<and> alphanumeric (last n)"

subsection \<open>Lemmas\<close>

lemma concat_map_if: "concat (map (\<lambda>l. if P l then [f l] else []) xs) = [] \<longleftrightarrow> (\<forall>l \<in> set xs. \<not> P l)"
  by (induction xs) auto

lemma none_if: "(if b then Some e else None) = None \<longleftrightarrow> \<not> b" and nil_if: "(if b then [x] else []) = [] \<longleftrightarrow> \<not> b"
  by simp_all

lemma length_label: "l \<in> set (split_on sep s) \<Longrightarrow> length l \<le> length s"
proof (induction s arbitrary: l)
  case (Cons c s)
  then show ?case by (fastforce split: if_splits list.splits simp: le_SucI)
qed simp

lemma IsDNS1035Label_Nil: "IsDNS1035Label l = [] \<longleftrightarrow> length l \<le> 63 \<and> dns1035LabelRegexp l"
  by (simp add: IsDNS1035Label_def DNS1035LabelMaxLength_def)

lemma dns1035_no_dot: "dns1035LabelRegexp l \<Longrightarrow> CHR ''.'' \<notin> set l"
proof (cases l)
  case (Cons c cs)
  assume r: "dns1035LabelRegexp l"
  have n: "\<not> is_alnum CHR ''.''" "\<not> is_lower CHR ''.''" by (simp_all add: is_alnum_def is_lower_def)
  show ?thesis
  proof (cases cs rule: rev_cases)
    case Nil
    then show ?thesis using r n Cons by (auto simp: dns1035LabelRegexp_def)
  next
    case (snoc ds d)
    then have "is_lower c" "is_alnum d" "list_all (\<lambda>x. x = CHR ''-'' \<or> is_alnum x) ds"
      using r Cons by (simp_all add: dns1035LabelRegexp_def)
    then show ?thesis using n Cons snoc by (auto simp: list_all_iff)
  qed
qed (simp add: dns1035LabelRegexp_def)

lemma parse_protocols_Inr:
  "parse_protocols seen out ops = Inr ps \<longleftrightarrow>
     ps = out @ map op_Type ops \<and> distinct (map op_Type ops) \<and> set (map op_Type ops) \<inter> set seen = {} \<and>
     ObjectProtocol_UNKNOWN \<notin> set (map op_Type ops)"
  by (induction seen out ops rule: parse_protocols.induct) (auto simp: Let_def)

lemma wait_ready_iff: "wait_ready sts = Inr u \<longleftrightarrow> Ready \<in> set sts"
  by (induction sts) auto

lemma wait_ready_Inl: "wait_ready sts = Inl e \<Longrightarrow> Ready \<notin> set sts"
  using wait_ready_iff [of sts] by auto

lemma wait_loop_from:
  assumes "conn n = None" and "i \<le> n"
  shows "wait_loop conn i = Some (wait_ready (map the (takeWhile (\<lambda>st. st \<noteq> None) (map conn [i..<Suc n]))))"
  using assms(2)
proof (induction i rule: inc_induct)
  case base
  show ?case using assms(1) by (simp add: wait_loop.simps [of conn n])
next
  case (step i)
  have "[i..<Suc n] = i # [Suc i..<Suc n]" using step(2) by (simp add: upt_conv_Cons)
  then show ?case using step by (simp add: wait_loop.simps [of conn i] split: option.split)
qed

subsection \<open>Properties\<close>

text \<open>A driver name is accepted exactly when it has at most 63 characters and is a dot-separated
  series of at least one label of \<open>IsDNS1035Label\<close>: lower case, and starting with a letter.\<close>

lemma validateDriverName_iff:
  "validateDriverName n = None \<longleftrightarrow>
     length n \<le> 63 \<and> (\<exists>ls. ls \<noteq> [] \<and> list_all dns1035LabelRegexp ls \<and> n = join_with ''.'' ls)"
proof -
  have "validateDriverName n = None \<longleftrightarrow> length n \<le> 63 \<and> (\<forall>l \<in> set (split_on CHR ''.'' n). IsDNS1035Label l = [])"
    unfolding validateDriverName_def Let_def none_if not_not append_is_Nil_conv concat_map_if nil_if not_less
    by (rule refl)
  also have "\<dots> \<longleftrightarrow> length n \<le> 63 \<and> list_all dns1035LabelRegexp (split_on CHR ''.'' n)"
    using length_label [of _ "CHR ''.''" n] by (fastforce simp: IsDNS1035Label_Nil list_all_iff)
  also have "\<dots> \<longleftrightarrow> length n \<le> 63 \<and> (\<exists>ls. ls \<noteq> [] \<and> list_all dns1035LabelRegexp ls \<and> n = join_with ''.'' ls)"
    using join_split [of "CHR ''.''" n] split_join [of _ "CHR ''.''"]
    by (metis dns1035_no_dot list_all_iff split_on_nonempty)
  finally show ?thesis .
qed

text \<open>The list of supported protocols is accepted exactly when it is not empty, holds no protocol
  twice and no UNKNOWN; then it is taken over as it is, in order.\<close>

lemma validateAndParseProtocols_iff:
  "validateAndParseProtocols ops = Inr ps \<longleftrightarrow>
     ops \<noteq> [] \<and> ps = map op_Type ops \<and> distinct ps \<and> ObjectProtocol_UNKNOWN \<notin> set ps"
  by (auto simp: validateAndParseProtocols_def parse_protocols_Inr)

text \<open>The sidecar starts exactly when the endpoint is a unix socket, the connection starts idle and
  becomes ready before the timeout, the driver answers, and its name and protocols are valid; then it
  serves under the driver's own name and supports exactly the protocols the driver listed.\<close>

lemma connectRpcAndGetDriverInfo_iff:
  "connectRpcAndGetDriverInfo ep client states resp = Inr d \<longleftrightarrow>
     has_prefix ep ''unix://'' \<and> has_suffix ep ''.sock'' \<and> client = Inr Idle \<and> Ready \<in> set states \<and>
     (\<exists>info. resp = Inr info \<and> validateDriverName (gi_Name info) = None \<and> di_Name d = gi_Name info \<and>
        (\<exists>ps. validateAndParseProtocols (gi_SupportedProtocols info) = Inr ps \<and> di_SupportedProtocols d = ps))"
  by (cases d)
    (auto simp: connectRpcAndGetDriverInfo_def connectRpc_def ValidateAndSetDriverConnectionInfo_def
      wait_ready_iff dest: wait_ready_Inl split: sum.splits option.splits)

text \<open>A label starts and ends with an alphanumeric character and has only those and dashes.\<close>

lemma label_chars:
  assumes "dns1035LabelRegexp l"
  shows "l \<noteq> []" and "alphanumeric (hd l)" and "alphanumeric (last l)" and "list_all name_char l"
proof -
  obtain c cs where l: "l = c # cs" using assms by (cases l) (simp_all add: dns1035LabelRegexp_def)
  have c: "is_alnum c" using assms l by (simp add: dns1035LabelRegexp_def is_alnum_def)
  have cs: "cs = [] \<or> list_all (\<lambda>x. x = CHR ''-'' \<or> is_alnum x) (butlast cs) \<and> is_alnum (last cs)"
    using assms l by (simp add: dns1035LabelRegexp_def)
  have a: "is_alnum x \<Longrightarrow> alphanumeric x" for x by (simp add: alphanumeric_def)
  show "l \<noteq> []" "alphanumeric (hd l)" "alphanumeric (last l)" using l a c cs by auto
  show "list_all name_char l"
    using l a c cs by (cases cs rule: rev_cases) (auto simp: name_char_def list_all_iff)
qed

lemma labels_chars:
  assumes "ls \<noteq> []" and "list_all dns1035LabelRegexp ls"
  shows "join_with ''.'' ls \<noteq> [] \<and> alphanumeric (hd (join_with ''.'' ls)) \<and> alphanumeric (last (join_with ''.'' ls)) \<and>
    list_all name_char (join_with ''.'' ls)"
  using assms
proof (induction "''.''" ls rule: join_with.induct)
  case (2 l)
  then show ?case using label_chars [of l] by simp
next
  case (3 l m ls)
  then show ?case using label_chars [of l] by (auto simp: name_char_def)
qed simp



text \<open>Of all 32-bit RPC error codes exactly InvalidArgument, AlreadyExists and Unimplemented are not
  retried.\<close>

lemma rpcErrorIsRetryable_iff:
  "rpcErrorIsRetryable c \<longleftrightarrow> c \<notin> {codes_InvalidArgument, codes_AlreadyExists, codes_Unimplemented}"
  by (auto simp: rpcErrorIsRetryable_def rpc_consts)

lemma SupportsProtocol_iff: "SupportsProtocol d p \<longleftrightarrow> p \<in> set (di_SupportedProtocols d)"
  by (auto simp: SupportsProtocol_def list_ex_iff)

text \<open>C31. The wait for the driver's connection ends: once the context has ended at some wait, the loop has returned, with the
  result for the states that were observed until the context first ended: connected if one of them was ready, and timed
  out otherwise.\<close>

theorem wait_loop_terminates:
  assumes "conn n = None"
  shows "let states = map the (takeWhile (\<lambda>st. st \<noteq> None) (map conn [0..<Suc n]))
    in wait_loop conn 0 = Some (wait_ready states) \<and> (wait_ready states = Inr () \<longleftrightarrow> Ready \<in> set states)"
  using wait_loop_from [of conn n 0] assms by (simp add: Let_def wait_ready_iff)

theorem wait_loop_terminates_witness:
  "wait_loop (\<lambda>i. if i = 0 then Some Connecting else if i = 1 then Some Ready else None) 0 = Some (Inr ())"
  using wait_loop_terminates [of "\<lambda>i. if i = 0 then Some Connecting else if i = 1 then Some Ready else None" 2]
  by (simp add: Let_def numeral_2_eq_2)

end
