(* ===== verification/Cluster.thy ===== *)
theory Cluster
  imports Cosi_Api Cosi_Proto
begin

text \<open>
  The outside of the reconcilers: the Kubernetes API server (through the \<open>controller-runtime\<close>
  client), the driver's provisioner service, the clock, and the order in which Go ranges over a map.
  All are parameters: an environment gives for each call its result and the next state of the
  world, and no law is assumed of it, so what is proved of a reconciler holds for every behaviour of
  the API server and of the driver, with every interleaving of other clients between two calls.
  A successful write returns the object as the server stored it, which the Go client decodes into the
  pointer it was given.

  A run records its calls with their results, the latest first. \<open>allowed R\<close> is the form of the safety properties:
  every call of a run is permitted by \<open>R\<close> after the calls before it.
\<close>

subsection \<open>Environment\<close>

record 'w env =
  e_GetClaim :: "NamespacedName \<Rightarrow> 'w \<Rightarrow> (gerror + BucketClaim) \<times> 'w"
  e_GetBucket :: "NamespacedName \<Rightarrow> 'w \<Rightarrow> (gerror + Bucket) \<times> 'w"
  e_GetClass :: "NamespacedName \<Rightarrow> 'w \<Rightarrow> (gerror + BucketClass) \<times> 'w"
  e_GetAccess :: "NamespacedName \<Rightarrow> 'w \<Rightarrow> (gerror + BucketAccess) \<times> 'w"
  e_GetAccessClass :: "NamespacedName \<Rightarrow> 'w \<Rightarrow> (gerror + BucketAccessClass) \<times> 'w"
  e_GetSecret :: "NamespacedName \<Rightarrow> 'w \<Rightarrow> (gerror + Secret) \<times> 'w"
  e_UpdateClaim :: "BucketClaim \<Rightarrow> 'w \<Rightarrow> (gerror + BucketClaim) \<times> 'w"
  e_UpdateBucket :: "Bucket \<Rightarrow> 'w \<Rightarrow> (gerror + Bucket) \<times> 'w"
  e_UpdateAccess :: "BucketAccess \<Rightarrow> 'w \<Rightarrow> (gerror + BucketAccess) \<times> 'w"
  e_UpdateSecret :: "Secret \<Rightarrow> 'w \<Rightarrow> (gerror + Secret) \<times> 'w"
  e_StatusClaim :: "BucketClaim \<Rightarrow> 'w \<Rightarrow> (gerror + BucketClaim) \<times> 'w"
  e_StatusBucket :: "Bucket \<Rightarrow> 'w \<Rightarrow> (gerror + Bucket) \<times> 'w"
  e_StatusAccess :: "BucketAccess \<Rightarrow> 'w \<Rightarrow> (gerror + BucketAccess) \<times> 'w"
  e_CreateBucket :: "Bucket \<Rightarrow> 'w \<Rightarrow> (gerror + Bucket) \<times> 'w"
  e_CreateSecret :: "Secret \<Rightarrow> 'w \<Rightarrow> (gerror + Secret) \<times> 'w"
  e_DeleteBucket :: "Bucket \<Rightarrow> 'w \<Rightarrow> (gerror + unit) \<times> 'w"
  e_DeleteSecret :: "Secret \<Rightarrow> 'w \<Rightarrow> (gerror + unit) \<times> 'w"
  e_ListAccesses :: "string \<Rightarrow> 'w \<Rightarrow> (gerror + BucketAccess list) \<times> 'w"
  e_DriverCreateBucket :: "DriverCreateBucketRequest \<Rightarrow> 'w \<Rightarrow> (gerror + DriverCreateBucketResponse) \<times> 'w"
  e_DriverGetExistingBucket ::
    "DriverGetExistingBucketRequest \<Rightarrow> 'w \<Rightarrow> (gerror + DriverGetExistingBucketResponse) \<times> 'w"
  e_DriverGrantBucketAccess ::
    "DriverGrantBucketAccessRequest \<Rightarrow> 'w \<Rightarrow> (gerror + DriverGrantBucketAccessResponse) \<times> 'w"
  e_DriverRevokeBucketAccess :: "DriverRevokeBucketAccessRequest \<Rightarrow> 'w \<Rightarrow> (gerror + unit) \<times> 'w"
  e_Now :: "'w \<Rightarrow> time \<times> 'w"
  e_Order :: "'w \<Rightarrow> (string \<Rightarrow> nat) \<times> 'w"
  e_ProtoOrder :: "'w \<Rightarrow> (ObjectProtocol_Type \<Rightarrow> nat) \<times> 'w"

datatype call =
    GetClaim NamespacedName "gerror + BucketClaim"
  | GetBucket NamespacedName "gerror + Bucket"
  | GetClass NamespacedName "gerror + BucketClass"
  | GetAccess NamespacedName "gerror + BucketAccess"
  | GetAccessClass NamespacedName "gerror + BucketAccessClass"
  | GetSecret NamespacedName "gerror + Secret"
  | UpdateClaim BucketClaim "gerror + BucketClaim"
  | UpdateBucket Bucket "gerror + Bucket"
  | UpdateAccess BucketAccess "gerror + BucketAccess"
  | UpdateSecret Secret "gerror + Secret"
  | StatusClaim BucketClaim "gerror + BucketClaim"
  | StatusBucket Bucket "gerror + Bucket"
  | StatusAccess BucketAccess "gerror + BucketAccess"
  | CreateBucket Bucket "gerror + Bucket"
  | CreateSecret Secret "gerror + Secret"
  | DeleteBucket Bucket "gerror + unit"
  | DeleteSecret Secret "gerror + unit"
  | ListAccesses string "gerror + BucketAccess list"
  | DriverCreateBucket DriverCreateBucketRequest "gerror + DriverCreateBucketResponse"
  | DriverGetExistingBucket DriverGetExistingBucketRequest "gerror + DriverGetExistingBucketResponse"
  | DriverGrantBucketAccess DriverGrantBucketAccessRequest "gerror + DriverGrantBucketAccessResponse"
  | DriverRevokeBucketAccess DriverRevokeBucketAccessRequest "gerror + unit"

text \<open>The state of a run: the world, the calls so far, and the object being reconciled, which the Go
  code shares by pointer between \<open>Reconcile\<close> and \<open>reconcile\<close>.\<close>

record ('w, 'o) st =
  world :: 'w
  calls :: "call list"
  obj :: 'o

subsection \<open>Calls\<close>

definition ask :: "('w \<Rightarrow> (gerror + 'r) \<times> 'w) \<Rightarrow> (gerror + 'r \<Rightarrow> call) \<Rightarrow> (('w, 'o) st, 'r) prog" where
  "ask call_op record_call =
     (\<lambda>s. case call_op (world s) of (r, w') \<Rightarrow> (r, s\<lparr>world := w', calls := record_call r # calls s\<rparr>))"

definition observe :: "('w \<Rightarrow> 'r \<times> 'w) \<Rightarrow> (('w, 'o) st, 'r) prog" where
  "observe read = (\<lambda>s. case read (world s) of (x, w') \<Rightarrow> (Inr x, s\<lparr>world := w'\<rparr>))"

definition upd_obj :: "('o \<Rightarrow> 'o) \<Rightarrow> (('w, 'o) st, unit) prog" where
  "upd_obj f = modify (\<lambda>s. s\<lparr>obj := f (obj s)\<rparr>)"

text \<open>A write of the reconciled object: on success the pointer holds the stored object.\<close>

definition write_obj ::
  "('o \<Rightarrow> 'w \<Rightarrow> (gerror + 'o) \<times> 'w) \<Rightarrow> ('o \<Rightarrow> gerror + 'o \<Rightarrow> call) \<Rightarrow> (('w, 'o) st, unit) prog" where
  "write_obj call_op record_call =
     bind (gets obj) (\<lambda>ob. bind (ask (call_op ob) (record_call ob)) (\<lambda>ob'. upd_obj (\<lambda>_. ob')))"

text \<open>A loop over a list whose body threads an accumulator (the loops that collect errors).\<close>

fun foldM :: "('a \<Rightarrow> 'b \<Rightarrow> ('s, 'b) prog) \<Rightarrow> 'a list \<Rightarrow> 'b \<Rightarrow> ('s, 'b) prog" where
  "foldM f [] acc = ret acc"
| "foldM f (x # xs) acc = bind (f x acc) (\<lambda>acc'. foldM f xs acc')"

text \<open>A run from a fresh state.\<close>

definition start :: "'o \<Rightarrow> 'w \<Rightarrow> ('w, 'o) st" where
  "start ob w = \<lparr>world = w, calls = [], obj = ob\<rparr>"

definition outcome_of :: "(('w, 'o) st, 'a) prog \<Rightarrow> ('w, 'o) st \<Rightarrow> gerror + 'a" where
  "outcome_of m s = fst (m s)"

definition trace :: "(('w, 'o) st, 'a) prog \<Rightarrow> ('w, 'o) st \<Rightarrow> call list" where
  "trace m s = calls (snd (m s))"

subsection \<open>Permitted calls\<close>

fun allowed :: "(call list \<Rightarrow> call \<Rightarrow> bool) \<Rightarrow> call list \<Rightarrow> bool" where
  "allowed R [] = True"
| "allowed R (c # h) = (R h c \<and> allowed R h)"

lemma allowed_split: "allowed R l \<longleftrightarrow> (\<forall>later c h. l = later @ c # h \<longrightarrow> R h c)"
proof (induction l)
  case (Cons a l)
  have "(\<forall>later c h. a # l = later @ c # h \<longrightarrow> R h c) \<longleftrightarrow> R l a \<and> (\<forall>later c h. l = later @ c # h \<longrightarrow> R h c)"
    by (metis append_Cons append_Nil list.inject neq_Nil_conv)
  then show ?case using Cons by simp
qed simp

lemma allowed_mono: "allowed R l \<Longrightarrow> (\<And>h c. R h c \<Longrightarrow> S h c) \<Longrightarrow> allowed S l"
  by (induction l) auto

lemma allowed_conj: "allowed (\<lambda>h c. R h c \<and> S h c) l \<longleftrightarrow> allowed R l \<and> allowed S l"
  by (induction l) auto

lemma allowed_memory: "allowed (\<lambda>h c. P c) l \<longleftrightarrow> (\<forall>c \<in> set l. P c)"
  by (induction l) auto

subsection \<open>Verification conditions\<close>

text \<open>
  \<open>vc m N X h ob\<close>: run in any world after the calls \<open>h\<close> with the object \<open>ob\<close> in memory, \<open>m\<close> ends with a
  value and \<open>N\<close> or with an error and \<open>X\<close>, stated of the calls and the object at the end. The rules
  are introduction rules, quantified over every result of a call: a proof about a program is
  \<open>intro vc_intros\<close> followed by the conditions at its ends.
\<close>

definition vc ::
  "(('w, 'o) st, 'a) prog \<Rightarrow> ('a \<Rightarrow> call list \<Rightarrow> 'o \<Rightarrow> bool) \<Rightarrow> (gerror \<Rightarrow> call list \<Rightarrow> 'o \<Rightarrow> bool) \<Rightarrow>
   call list \<Rightarrow> 'o \<Rightarrow> bool" where
  "vc m N X h ob \<longleftrightarrow>
     (\<forall>w. case m \<lparr>world = w, calls = h, obj = ob\<rparr> of
        (Inl e, s') \<Rightarrow> X e (calls s') (obj s') | (Inr x, s') \<Rightarrow> N x (calls s') (obj s'))"

lemma vc_run:
  assumes "vc m N X (calls s) (obj s)" and "m s = (r, s')"
  shows "case r of Inl e \<Rightarrow> X e (calls s') (obj s') | Inr x \<Rightarrow> N x (calls s') (obj s')"
  using assms by (cases s) (auto simp: vc_def split: sum.splits dest: spec [of _ "world s"])

lemma vc_mono:
  "vc m N X h ob \<Longrightarrow> (\<And>x h' ob'. N x h' ob' \<Longrightarrow> N' x h' ob') \<Longrightarrow> (\<And>e h' ob'. X e h' ob' \<Longrightarrow> X' e h' ob') \<Longrightarrow>
     vc m N' X' h ob"
  by (auto simp: vc_def split: prod.splits sum.splits)

lemma vc_ret [vc_intros]: "N x h ob \<Longrightarrow> vc (ret x) N X h ob"
  by (simp add: vc_def ret_def)

lemma vc_fail [vc_intros]: "X e h ob \<Longrightarrow> vc (fail e) N X h ob"
  by (simp add: vc_def fail_def)

lemma vc_handle [vc_intros]: "vc m (\<lambda>x. vc (k x) N X) (\<lambda>e. vc (f e) N X) h ob \<Longrightarrow> vc (handle m f k) N X h ob"
  unfolding vc_def handle_def
proof (rule allI)
  fix w
  assume a: "\<forall>w. case m \<lparr>world = w, calls = h, obj = ob\<rparr> of
        (Inl e, s') \<Rightarrow> \<forall>w. case f e \<lparr>world = w, calls = calls s', obj = obj s'\<rparr> of
            (Inl e, s') \<Rightarrow> X e (calls s') (obj s') | (Inr x, s') \<Rightarrow> N x (calls s') (obj s')
      | (Inr x, s') \<Rightarrow> \<forall>w. case k x \<lparr>world = w, calls = calls s', obj = obj s'\<rparr> of
            (Inl e, s') \<Rightarrow> X e (calls s') (obj s') | (Inr x, s') \<Rightarrow> N x (calls s') (obj s')"
  obtain r s' where m: "m \<lparr>world = w, calls = h, obj = ob\<rparr> = (r, s')" by fastforce
  have s': "\<lparr>world = world s', calls = calls s', obj = obj s'\<rparr> = s'" by simp
  show "case case m \<lparr>world = w, calls = h, obj = ob\<rparr> of (Inl e, s') \<Rightarrow> f e s' | (Inr x, s') \<Rightarrow> k x s' of
      (Inl e, s') \<Rightarrow> X e (calls s') (obj s') | (Inr x, s') \<Rightarrow> N x (calls s') (obj s')"
    using spec [OF a, of w] m s' by (cases r) (metis (mono_tags, lifting) case_prod_conv sum.case)+
qed

lemma bind_handle: "bind m k = handle m fail k"
  by (auto simp: fun_eq_iff bind_def handle_def fail_def split: prod.splits sum.splits)

lemma on_err_handle: "on_err g m = handle m (\<lambda>e. fail (g e)) ret"
  by (auto simp: fun_eq_iff on_err_def handle_def fail_def ret_def split: prod.splits sum.splits)

lemma vc_bind [vc_intros]: "vc m (\<lambda>x. vc (f x) N X) X h ob \<Longrightarrow> vc (bind m f) N X h ob"
  unfolding bind_handle by (rule vc_handle) (auto elim: vc_mono intro: vc_fail)

lemma vc_seq [vc_intros]: "vc m (\<lambda>_. vc n N X) X h ob \<Longrightarrow> vc (seq m n) N X h ob"
  unfolding seq_def by (rule vc_bind)

lemma vc_on_err [vc_intros]: "vc m N (\<lambda>e. X (g e)) h ob \<Longrightarrow> vc (on_err g m) N X h ob"
  unfolding on_err_handle by (rule vc_handle) (auto elim: vc_mono intro: vc_fail vc_ret)

lemma vc_lift_sum [vc_intros]:
  "(\<And>x. r = Inr x \<Longrightarrow> N x h ob) \<Longrightarrow> (\<And>e. r = Inl e \<Longrightarrow> X e h ob) \<Longrightarrow> vc (lift_sum r) N X h ob"
  by (cases r) (simp_all add: vc_def lift_sum_def)

lemma vc_gets_obj [vc_intros]: "N ob h ob \<Longrightarrow> vc (gets obj) N X h ob"
  by (simp add: vc_def gets_def)

lemma vc_when [vc_intros]: "(c \<Longrightarrow> vc m N X h ob) \<Longrightarrow> (\<not> c \<Longrightarrow> N () h ob) \<Longrightarrow> vc (when_cond c m) N X h ob"
  by (simp add: when_cond_def vc_ret)

lemma vc_if [vc_intros]: "(c \<Longrightarrow> vc m N X h ob) \<Longrightarrow> (\<not> c \<Longrightarrow> vc n N X h ob) \<Longrightarrow> vc (if c then m else n) N X h ob"
  by simp

lemma vc_case_option [vc_intros]:
  "(x = None \<Longrightarrow> vc m N X h ob) \<Longrightarrow> (\<And>y. x = Some y \<Longrightarrow> vc (n y) N X h ob) \<Longrightarrow>
     vc (case x of None \<Rightarrow> m | Some y \<Rightarrow> n y) N X h ob"
  by (cases x) simp_all

lemma vc_case_sum [vc_intros]:
  "(\<And>e. x = Inl e \<Longrightarrow> vc (m e) N X h ob) \<Longrightarrow> (\<And>y. x = Inr y \<Longrightarrow> vc (n y) N X h ob) \<Longrightarrow>
     vc (case x of Inl e \<Rightarrow> m e | Inr y \<Rightarrow> n y) N X h ob"
  by (cases x) simp_all

lemma vc_case_prod [vc_intros]:
  "(\<And>a b. p = (a, b) \<Longrightarrow> vc (m a b) N X h ob) \<Longrightarrow> vc (case p of (a, b) \<Rightarrow> m a b) N X h ob"
  by (cases p) simp

lemma vc_case_prod_app [vc_intros]:
  "(\<And>a b. p = (a, b) \<Longrightarrow> vc (m a b y) N X h ob) \<Longrightarrow> vc ((case p of (a, b) \<Rightarrow> m a b) y) N X h ob"
  by (cases p) simp

lemma vc_ask [vc_intros]:
  "(\<And>x. N x (mk (Inr x) # h) ob) \<Longrightarrow> (\<And>e. X e (mk (Inl e) # h) ob) \<Longrightarrow> vc (ask f mk) N X h ob"
  by (simp add: vc_def ask_def split: prod.splits sum.splits)

lemma vc_observe [vc_intros]: "(\<And>x. N x h ob) \<Longrightarrow> vc (observe f) N X h ob"
  by (simp add: vc_def observe_def split: prod.splits)

lemma vc_upd_obj [vc_intros]: "N () h (f ob) \<Longrightarrow> vc (upd_obj f) N X h ob"
  by (simp add: vc_def upd_obj_def modify_def)

lemma vc_write_obj [vc_intros]:
  "(\<And>ob'. N () (mk ob (Inr ob') # h) ob') \<Longrightarrow> (\<And>e. X e (mk ob (Inl e) # h) ob) \<Longrightarrow> vc (write_obj f mk) N X h ob"
  unfolding write_obj_def by (intro vc_intros)

text \<open>The same for calls whose result has a known property or is known, and the rules without those of the
  calls, for runs with known results.\<close>

lemma vc_ask_rely:
  assumes "\<And>w. R (fst (f w))" and "\<And>x. R (Inr x) \<Longrightarrow> N x (mk (Inr x) # h) ob" and "\<And>e. R (Inl e) \<Longrightarrow> X e (mk (Inl e) # h) ob"
  shows "vc (ask f mk) N X h ob"
proof -
  have "R (fst (f w))" for w by (rule assms(1))
  then show ?thesis using assms(2,3) by (auto simp: vc_def ask_def split: prod.splits sum.splits) (metis fst_conv)+
qed

lemma vc_ask_known: "(\<And>w. fst (f w) = Inr x) \<Longrightarrow> N x (mk (Inr x) # h) ob \<Longrightarrow> vc (ask f mk) N X h ob"
  by (auto simp: vc_def ask_def split: prod.splits sum.splits) (metis fst_conv sum.distinct(1) sum.inject(2))+

lemma vc_write_obj_known:
  "(\<And>w. fst (f ob w) = Inr ob') \<Longrightarrow> N () (mk ob (Inr ob') # h) ob' \<Longrightarrow> vc (write_obj f mk) N X h ob"
  unfolding write_obj_def by (intro vc_bind vc_gets_obj vc_upd_obj vc_ask_known)

lemmas vc_steps = vc_ret vc_fail vc_handle vc_bind vc_seq vc_on_err vc_lift_sum vc_gets_obj vc_when vc_if
  vc_case_option vc_case_sum vc_case_prod vc_case_prod_app vc_observe vc_upd_obj

lemma vc_foldM:
  assumes "\<And>x acc h ob. x \<in> set xs \<Longrightarrow> I acc h ob \<Longrightarrow> vc (f x acc) I X h ob"
    and "I acc h ob" and "\<And>acc h ob. I acc h ob \<Longrightarrow> N acc h ob"
  shows "vc (foldM f xs acc) N X h ob"
  using assms
proof (induction xs arbitrary: acc h ob)
  case Nil
  then show ?case by (simp add: vc_ret)
next
  case (Cons x xs)
  have rest: "vc (foldM f xs a) N X t c" if "I a t c" for a t c
    by (rule Cons.IH [OF Cons.prems(1)]) (simp_all add: that Cons.prems(3))
  have "vc (f x acc) I X h ob" using Cons.prems by simp
  then have "vc (f x acc) (\<lambda>a. vc (foldM f xs a) N X) X h ob"
    by (rule vc_mono) (auto intro: rest)
  then show ?case by (simp add: vc_bind)
qed

lemma vc_total:
  assumes "vc m N (\<lambda>_ _ _. False) (calls s) (obj s)"
  shows "\<exists>x. outcome_of m s = Inr x \<and> N x (trace m s) (obj (snd (m s)))"
  using vc_run [OF assms, of "fst (m s)" "snd (m s)"]
  by (auto simp: outcome_of_def trace_def split: sum.splits)

lemma trace_allowedI:
  "vc m (\<lambda>x h ob. allowed R h) (\<lambda>e h ob. allowed R h) (calls s) (obj s) \<Longrightarrow> allowed R (trace m s)"
  using vc_run [of m "\<lambda>x h ob. allowed R h" "\<lambda>e h ob. allowed R h" s "fst (m s)" "snd (m s)"]
  by (simp add: trace_def split: sum.splits)

lemma start_simps [simp]: "calls (start ob w) = []" "obj (start ob w) = ob" "world (start ob w) = w"
  by (simp_all add: start_def)

lemma vc_from_start:
  "vc m N (\<lambda>_ _ _. False) [] ob \<Longrightarrow>
     \<exists>x. outcome_of m (start ob w) = Inr x \<and> N x (trace m (start ob w)) (obj (snd (m (start ob w))))"
  using vc_total [of m N "start ob w"] by simp

subsection \<open>What a history shows\<close>

text \<open>Queries of the calls so far: \<open>saw sel P h\<close> when some call of \<open>h\<close> that \<open>sel\<close> selects a value of
  has one with \<open>P\<close>.\<close>

definition saw :: "(call \<Rightarrow> 'a option) \<Rightarrow> ('a \<Rightarrow> bool) \<Rightarrow> call list \<Rightarrow> bool" where
  "saw sel P h = list_ex (\<lambda>c. case sel c of None \<Rightarrow> False | Some x \<Rightarrow> P x) h"

definition good :: "gerror + 'a \<Rightarrow> 'a option" where
  "good r = (case r of Inl _ \<Rightarrow> None | Inr x \<Rightarrow> Some x)"

definition bad :: "gerror + 'a \<Rightarrow> gerror option" where
  "bad r = (case r of Inl e \<Rightarrow> Some e | Inr _ \<Rightarrow> None)"

text \<open>The key of a cluster-scoped object.\<close>

definition global :: "string \<Rightarrow> NamespacedName" where
  "global name = \<lparr>nn_Namespace = '''', nn_Name = name\<rparr>"

definition got_claim :: "call \<Rightarrow> BucketClaim option" where
  "got_claim c = (case c of GetClaim _ r \<Rightarrow> good r | _ \<Rightarrow> None)"

definition got_claim_at :: "NamespacedName \<Rightarrow> call \<Rightarrow> BucketClaim option" where
  "got_claim_at key c = (case c of GetClaim n r \<Rightarrow> (if n = key then good r else None) | _ \<Rightarrow> None)"

definition missed_claim_at :: "NamespacedName \<Rightarrow> call \<Rightarrow> gerror option" where
  "missed_claim_at key c = (case c of GetClaim n r \<Rightarrow> (if n = key then bad r else None) | _ \<Rightarrow> None)"

definition updated_claim :: "call \<Rightarrow> (BucketClaim \<times> BucketClaim) option" where
  "updated_claim c = (case c of UpdateClaim x r \<Rightarrow> map_option (Pair x) (good r) | _ \<Rightarrow> None)"

definition seen_claim :: "call \<Rightarrow> BucketClaim option" where
  "seen_claim c = (case c of GetClaim _ r \<Rightarrow> good r | UpdateClaim _ r \<Rightarrow> good r | StatusClaim _ r \<Rightarrow> good r | _ \<Rightarrow> None)"

definition got_bucket :: "call \<Rightarrow> Bucket option" where
  "got_bucket c = (case c of GetBucket _ r \<Rightarrow> good r | _ \<Rightarrow> None)"

definition seen_bucket :: "call \<Rightarrow> Bucket option" where
  "seen_bucket c = (case c of GetBucket _ r \<Rightarrow> good r | CreateBucket _ r \<Rightarrow> good r | UpdateBucket _ r \<Rightarrow> good r
     | StatusBucket _ r \<Rightarrow> good r | _ \<Rightarrow> None)"

definition got_bucket_at :: "NamespacedName \<Rightarrow> call \<Rightarrow> Bucket option" where
  "got_bucket_at key c = (case c of GetBucket n r \<Rightarrow> (if n = key then good r else None) | _ \<Rightarrow> None)"

definition missed_bucket_at :: "NamespacedName \<Rightarrow> call \<Rightarrow> gerror option" where
  "missed_bucket_at key c = (case c of GetBucket n r \<Rightarrow> (if n = key then bad r else None) | _ \<Rightarrow> None)"

definition updated_bucket :: "call \<Rightarrow> (Bucket \<times> Bucket) option" where
  "updated_bucket c = (case c of UpdateBucket b r \<Rightarrow> map_option (Pair b) (good r) | _ \<Rightarrow> None)"

definition got_class_at :: "NamespacedName \<Rightarrow> call \<Rightarrow> BucketClass option" where
  "got_class_at key c = (case c of GetClass n r \<Rightarrow> (if n = key then good r else None) | _ \<Rightarrow> None)"

definition got_access_class_at :: "NamespacedName \<Rightarrow> call \<Rightarrow> BucketAccessClass option" where
  "got_access_class_at key c = (case c of GetAccessClass n r \<Rightarrow> (if n = key then good r else None) | _ \<Rightarrow> None)"

definition listed_in :: "string \<Rightarrow> call \<Rightarrow> BucketAccess list option" where
  "listed_in ns c = (case c of ListAccesses n r \<Rightarrow> (if n = ns then good r else None) | _ \<Rightarrow> None)"

definition seen_access :: "call \<Rightarrow> BucketAccess option" where
  "seen_access c = (case c of GetAccess _ r \<Rightarrow> good r | UpdateAccess _ r \<Rightarrow> good r | StatusAccess _ r \<Rightarrow> good r | _ \<Rightarrow> None)"

definition got_access :: "call \<Rightarrow> BucketAccess option" where
  "got_access c = (case c of GetAccess _ r \<Rightarrow> good r | _ \<Rightarrow> None)"

definition stored_status :: "call \<Rightarrow> BucketAccess option" where
  "stored_status c = (case c of StatusAccess _ r \<Rightarrow> good r | _ \<Rightarrow> None)"

definition stored_access :: "call \<Rightarrow> BucketAccess option" where
  "stored_access c = (case c of UpdateAccess _ r \<Rightarrow> good r | _ \<Rightarrow> None)"

definition seen_secret :: "call \<Rightarrow> Secret option" where
  "seen_secret c = (case c of GetSecret _ r \<Rightarrow> good r | UpdateSecret _ r \<Rightarrow> good r | CreateSecret _ r \<Rightarrow> good r | _ \<Rightarrow> None)"

lemma good_bad [simp]: "good (Inr x) = Some x" "good (Inl e) = None" "bad (Inr x) = None" "bad (Inl e) = Some e"
  by (simp_all add: good_def bad_def)

lemmas selectors = got_claim_def got_claim_at_def missed_claim_at_def seen_claim_def updated_claim_def
  got_bucket_def got_bucket_at_def missed_bucket_at_def seen_bucket_def updated_bucket_def got_class_at_def
  got_access_class_at_def seen_access_def listed_in_def seen_secret_def

lemma saw_Nil [simp]: "saw sel P [] = False"
  by (simp add: saw_def)

lemma saw_Cons [simp]: "saw sel P (c # h) \<longleftrightarrow> (case sel c of None \<Rightarrow> False | Some x \<Rightarrow> P x) \<or> saw sel P h"
  by (simp add: saw_def)

lemma saw_iff: "saw sel P h \<longleftrightarrow> (\<exists>c \<in> set h. \<exists>x. sel c = Some x \<and> P x)"
  by (auto simp: saw_def list_ex_iff split: option.splits)

lemma saw_mono: "saw sel P h \<Longrightarrow> (\<And>x. P x \<Longrightarrow> P' x) \<Longrightarrow> set h \<subseteq> set h' \<Longrightarrow> saw sel P' h'"
  by (auto simp: saw_iff)

lemma saw_later: "saw sel P h \<Longrightarrow> saw sel P (c # h)"
  by simp

lemma saw_superset: "saw sel P h \<Longrightarrow> set h \<subseteq> set h' \<Longrightarrow> saw sel P h'"
  by (auto simp: saw_iff)

lemma know_saw: "saw sel ((=) x) h \<Longrightarrow> P x \<Longrightarrow> saw sel P h"
  by (auto simp: saw_iff)

subsection \<open>Loops with their progress\<close>

lemma vc_foldM_prefix:
  assumes "\<And>pre x post acc h ob. xs = pre @ x # post \<Longrightarrow> I pre acc h ob \<Longrightarrow> vc (f x acc) (I (pre @ [x])) X h ob"
    and "I [] acc h ob" and "\<And>acc h ob. I xs acc h ob \<Longrightarrow> N acc h ob"
  shows "vc (foldM f xs acc) N X h ob"
proof -
  have step: "vc (foldM f post acc) N X h ob" if "xs = pre @ post" and "I pre acc h ob" for pre post acc h ob
    using that
  proof (induction post arbitrary: pre acc h ob)
    case Nil
    then show ?case by (simp add: vc_ret assms(3))
  next
    case (Cons x post)
    have "vc (f x acc) (I (pre @ [x])) X h ob" using assms(1) Cons.prems by blast
    then have "vc (f x acc) (\<lambda>a. vc (foldM f post a) N X) X h ob"
      by (rule vc_mono) (auto intro!: Cons.IH [of "pre @ [x]"] simp: Cons.prems(1))
    then show ?case by (simp add: vc_bind)
  qed
  show ?thesis by (rule step [of "[]" xs]) (simp_all add: assms(2))
qed

lemma set_gput_subset: "set (gput k v m) \<subseteq> insert (k, v) (set m)"
  by (induction m) auto

lemma in_set_gput: "x \<in> set (gput k v m) \<Longrightarrow> x = (k, v) \<or> x \<in> set m"
  using set_gput_subset [of k v m] by auto

end
