(* ===== verification/Work_Queue.thy ===== *)
theory Work_Queue
  imports Cluster
begin

text \<open>
  The shell that the four reconcilers which do something have in common, as the locale \<open>reconciler\<close>: \<open>Reconcile\<close> reads
  the object, leaves it alone if it is not its own, runs \<open>reconcile\<close>, and reports an error of it or finishes. Its laws are those of
  the parts; what follows for the whole run and for the work queue of \<open>controller-runtime\<close> is proved once: a run always
  returns, an error of \<open>reconcile\<close> is the error the queue gets, it is stored in the status of the object or the last call
  failed, and a run succeeds only in a way the reconciler counts as success.
\<close>

subsection \<open>The handler\<close>

datatype queue_call = Forget NamespacedName | AddRateLimited NamespacedName

text \<open>\<open>reconcileHandler\<close>: what is done with the queue after a run. The reconcilers never set
  \<open>RequeueAfter\<close>, \<open>Requeue\<close> or a priority.\<close>

definition reconcileHandler :: "NamespacedName \<Rightarrow> outcome \<Rightarrow> queue_call list" where
  "reconcileHandler req r =
     (case r of Terminal _ \<Rightarrow> [] | Requeue _ \<Rightarrow> [AddRateLimited req] | Success \<Rightarrow> [Forget req])"

subsection \<open>Errors in the status\<close>

text \<open>The timestamped error carries the text of an error.\<close>

definition says :: "TimestampedError option \<Rightarrow> gerror \<Rightarrow> bool" where
  "says te e = (case te of None \<Rightarrow> False
     | Some x \<Rightarrow> te_Message x = (if Error e = '''' then None else Some (Error e)))"

text \<open>A call that writes an error into a status, and the error a call returned.\<close>

fun carries :: "call \<Rightarrow> gerror \<Rightarrow> bool" where
  "carries (StatusClaim c _) e = says (bcStatus_Error (bc_Status c)) e"
| "carries (StatusBucket b _) e = says (bStatus_Error (b_Status b)) e"
| "carries (StatusAccess a _) e = says (baStatus_Error (ba_Status a)) e"
| "carries _ e = False"

fun call_error :: "call \<Rightarrow> gerror option" where
  "call_error (GetClaim _ r) = bad r"
| "call_error (GetBucket _ r) = bad r"
| "call_error (GetClass _ r) = bad r"
| "call_error (GetAccess _ r) = bad r"
| "call_error (GetAccessClass _ r) = bad r"
| "call_error (GetSecret _ r) = bad r"
| "call_error (UpdateClaim _ r) = bad r"
| "call_error (UpdateBucket _ r) = bad r"
| "call_error (UpdateAccess _ r) = bad r"
| "call_error (UpdateSecret _ r) = bad r"
| "call_error (StatusClaim _ r) = bad r"
| "call_error (StatusBucket _ r) = bad r"
| "call_error (StatusAccess _ r) = bad r"
| "call_error (CreateBucket _ r) = bad r"
| "call_error (CreateSecret _ r) = bad r"
| "call_error (DeleteBucket _ r) = bad r"
| "call_error (DeleteSecret _ r) = bad r"
| "call_error (ListAccesses _ r) = bad r"
| "call_error (DriverCreateBucket _ r) = bad r"
| "call_error (DriverGetExistingBucket _ r) = bad r"
| "call_error (DriverGrantBucketAccess _ r) = bad r"
| "call_error (DriverRevokeBucketAccess _ r) = bad r"

text \<open>No call failed, but for reads of objects that may be missing.\<close>

definition unfailed :: "(call \<Rightarrow> bool) \<Rightarrow> call list \<Rightarrow> bool" where
  "unfailed may_miss h = list_all (\<lambda>c. case call_error c of None \<Rightarrow> True | Some e \<Rightarrow> IsNotFound e \<and> may_miss c) h"

text \<open>How a run may end, where \<open>fine\<close> says of the calls of a run that they are those of a success. An error that is given up
  is non-retryable, and the last call stored its text in the status. An error that is retried is that of the
  last call, or the last call wrote its text into the status, and failed or stored an error that is not non-retryable.\<close>

definition outcome_ok :: "(call list \<Rightarrow> bool) \<Rightarrow> outcome \<Rightarrow> call list \<Rightarrow> bool" where
  "outcome_ok fine r h =
     (case r of
        Success \<Rightarrow> fine h
      | Terminal e \<Rightarrow> h \<noteq> [] \<and> carries (hd h) e \<and> call_error (hd h) = None \<and> is_nonretryable e
      | Requeue e \<Rightarrow> h \<noteq> [] \<and> (call_error (hd h) = Some e \<or>
          carries (hd h) e \<and> (call_error (hd h) \<noteq> None \<or> \<not> is_nonretryable e)))"

lemma says_NewTimestampedError [simp]: "says (Some (NewTimestampedError t (Error e))) e"
  by (simp add: says_def NewTimestampedError_def)

lemma unfailed_simps [simp]:
  "unfailed may_miss []"
  "unfailed may_miss (c # h) \<longleftrightarrow> (case call_error c of None \<Rightarrow> True | Some e \<Rightarrow> IsNotFound e \<and> may_miss c) \<and> unfailed may_miss h"
  by (simp_all add: unfailed_def)

lemma outcome_ok_simps [simp]:
  "outcome_ok fine Success h \<longleftrightarrow> fine h"
  "outcome_ok fine (Terminal e) (c # h) \<longleftrightarrow> carries c e \<and> call_error c = None \<and> is_nonretryable e"
  "outcome_ok fine (Requeue e) (c # h) \<longleftrightarrow> call_error c = Some e \<or> carries c e \<and> (call_error c \<noteq> None \<or> \<not> is_nonretryable e)"
  by (simp_all add: outcome_ok_def)

text \<open>The end of a run is accounted for.\<close>

definition reported :: "(call list \<Rightarrow> bool) \<Rightarrow> (('w, 'o) st, outcome) prog \<Rightarrow> ('w, 'o) st \<Rightarrow> bool" where
  "reported fine m s = (case m s of (Inl _, _) \<Rightarrow> False | (Inr r, s') \<Rightarrow> outcome_ok fine r (calls s'))"

text \<open>What the queue gets of a run: when the object cannot be read, the error, unless the object does not exist; when
  \<open>reconcile\<close> fails on the object that was read, its error, wrapped; never success instead.\<close>

definition passes_error ::
  "('w \<Rightarrow> (gerror + 'o) \<times> 'w) \<Rightarrow> (gerror + 'o \<Rightarrow> call) \<Rightarrow> ('o \<Rightarrow> bool) \<Rightarrow> (('w, 'o) st, unit) prog \<Rightarrow> (gerror \<Rightarrow> gerror) \<Rightarrow>
   (('w, 'o) st, outcome) prog \<Rightarrow> 'o \<Rightarrow> 'w \<Rightarrow> bool" where
  "passes_error get got mine body wrap m ob w =
     (case get w of
        (Inl e, _) \<Rightarrow> outcome_of m (start ob w) = Inr (if IsNotFound e then Success else Requeue e)
      | (Inr x, w') \<Rightarrow>
          (case fst (body \<lparr>world = w', calls = [got (Inr x)], obj = x\<rparr>) of
             Inl err \<Rightarrow> mine x \<longrightarrow> outcome_of m (start ob w) \<in> {Inr (Terminal (wrap err)), Inr (Requeue (wrap err))}
           | Inr _ \<Rightarrow> True))"

subsection \<open>The contract of a reconciler\<close>

locale reconciler =
  fixes Reconcile :: "'w env \<Rightarrow> NamespacedName \<Rightarrow> (('w, 'o) st, outcome) prog"
    and get :: "'w env \<Rightarrow> NamespacedName \<Rightarrow> 'w \<Rightarrow> (gerror + 'o) \<times> 'w"
    and got :: "NamespacedName \<Rightarrow> gerror + 'o \<Rightarrow> call"
    and mine :: "'o \<Rightarrow> bool"
    and body :: "'w env \<Rightarrow> (('w, 'o) st, unit) prog"
    and wrap :: "gerror \<Rightarrow> gerror"
    and report :: "'w env \<Rightarrow> gerror \<Rightarrow> (('w, 'o) st, outcome) prog"
    and finish :: "'w env \<Rightarrow> (('w, 'o) st, outcome) prog"
    and fine :: "call list \<Rightarrow> bool"
  assumes shell: "Reconcile E req =
      handle (ask (get E req) (got req)) (\<lambda>e. if IsNotFound e then ret Success else ret (Requeue e))
        (\<lambda>x. if mine x then seq (upd_obj (\<lambda>_. x)) (handle (body E) (\<lambda>e. report E (wrap e)) (\<lambda>_. finish E)) else ret Success)"
    and read_error: "call_error (got req (Inl e)) = Some e"
    and missing: "IsNotFound e \<Longrightarrow> fine [got req (Inl e)]"
    and not_mine: "\<not> mine x \<Longrightarrow> fine [got req (Inr x)]"
    and body_succeeds: "mine x \<Longrightarrow> vc (body E) (\<lambda>_ h ob. fine h) (\<lambda>_ _ _. True) [got req (Inr x)] x"
    and reports: "vc (report E e) (\<lambda>r h ob. r \<in> {Terminal e, Requeue e} \<and> outcome_ok fine r h) (\<lambda>_ _ _. False) h0 ob0"
    and finishes: "fine h0 \<Longrightarrow> vc (finish E) (\<lambda>r h ob. outcome_ok fine r h) (\<lambda>_ _ _. False) h0 ob0"
begin

lemma ends: "vc (Reconcile E req) (\<lambda>r h ob. outcome_ok fine r h) (\<lambda>_ _ _. False) [] ob"
  unfolding shell
  by (intro vc_intros body_succeeds [THEN vc_mono] reports [THEN vc_mono] finishes)
    (auto simp: missing not_mine read_error)

lemma reported_run: "reported fine (Reconcile E req) (start ob w)"
  using vc_run [of "Reconcile E req" "\<lambda>r h ob. outcome_ok fine r h" "\<lambda>_ _ _. False" "start ob w"] ends [of E req ob]
  by (auto simp: reported_def split: prod.splits sum.splits)

lemma error_passed: "passes_error (get E req) (got req) mine (body E) wrap (Reconcile E req) ob w"
proof (cases "get E req w")
  case (Pair r w')
  show ?thesis
  proof (cases r)
    case (Inl e)
    then show ?thesis using Pair by (simp add: passes_error_def outcome_of_def shell handle_def ask_def ret_def start_def)
  next
    case (Inr x)
    obtain b s where b: "body E \<lparr>world = w', calls = [got req (Inr x)], obj = x\<rparr> = (b, s)" by fastforce
    have "outcome_of (Reconcile E req) (start ob w) = outcome_of (report E (wrap err)) s" if "mine x" and "b = Inl err" for err
      using that Pair Inr b
      by (simp add: outcome_of_def shell handle_def ask_def start_def seq_def bind_def upd_obj_def modify_def)
    moreover have "outcome_of (report E e) s \<in> {Inr (Terminal e), Inr (Requeue e)}" for e
      using vc_total [OF reports [of E e "calls s" "obj s"]] by auto
    ultimately show ?thesis using Pair Inr b by (simp add: passes_error_def split: sum.split)
  qed
qed

lemma returns: obtains r where "outcome_of (Reconcile E req) (start ob w) = Inr r"
  using reported_run [of E req ob w] that by (auto simp: reported_def outcome_of_def split: prod.splits sum.splits)

lemma run_ok: "outcome_of (Reconcile E req) (start ob w) = Inr r \<Longrightarrow> outcome_ok fine r (trace (Reconcile E req) (start ob w))"
  using reported_run [of E req ob w] by (auto simp: reported_def outcome_of_def trace_def split: prod.splits sum.splits)

text \<open>A request leaves the queue with an error only when the error can be read in the object's
  status and no retry would help.\<close>

lemma dropped_error:
  assumes "outcome_of (Reconcile E req) (start ob w) = Inr r" and "reconcileHandler req r = []"
  obtains e c h where "r = Terminal e" and "is_nonretryable e" and "trace (Reconcile E req) (start ob w) = c # h"
    and "carries c e" and "call_error c = None"
proof -
  obtain e where e: "r = Terminal e" using assms(2) by (cases r) (simp_all add: reconcileHandler_def)
  from run_ok [OF assms(1)] show ?thesis
    using that e by (cases "trace (Reconcile E req) (start ob w)") (auto simp: outcome_ok_def)
qed

text \<open>It leaves the queue for good without an error only after a success.\<close>

lemma forgotten:
  "outcome_of (Reconcile E req) (start ob w) = Inr r \<Longrightarrow> reconcileHandler req r = [Forget req] \<Longrightarrow>
     fine (trace (Reconcile E req) (start ob w))"
  using run_ok [of E req ob w r] by (cases r) (simp_all add: reconcileHandler_def)

end

end
