(* ===== verification/Claim_Controller.thy ===== *)
theory Claim_Controller
  imports Work_Queue
begin

text \<open>
  \<open>controller/pkg/reconciler/bucketclaim.go\<close>: the Controller's BucketClaim reconciler, and the
  Controller's Bucket reconciler (\<open>bucket.go\<close>), which does nothing. The reconciler creates the
  intermediate Bucket of a dynamically provisioned claim, binds claim and Bucket to each other, copies
  the Bucket's readiness into the claim, and cleans up when the claim is deleted.
\<close>

type_synonym ('w, 'a) claim_prog = "(('w, BucketClaim) st, 'a) prog"

subsection \<open>Pure parts\<close>

definition determineBucketName :: "BucketClaim \<Rightarrow> gerror + string" where
  "determineBucketName claim =
     (let name = (if bcSpec_ExistingBucketName (bc_Spec claim) \<noteq> ''''
                  then bcSpec_ExistingBucketName (bc_Spec claim)
                  else ''bc-'' @ UID (bc_meta claim))
      in if name = '''' then Inl (Errorf ''internal error: determined bucket name is empty'' [])
         else if bcStatus_BoundBucketName (bc_Status claim) \<noteq> '''' \<and> bcStatus_BoundBucketName (bc_Status claim) \<noteq> name
         then Inl (Errorf ''unrecoverable degradation: boundBucketName %q does not match determined name %q''
                     [AStr (bcStatus_BoundBucketName (bc_Status claim)), AStr name])
         else Inr name)"

text \<open>A new object's metadata: only the name (and the namespace) set.\<close>

definition new_meta :: "string \<Rightarrow> string \<Rightarrow> ObjectMeta" where
  "new_meta ns name =
     \<lparr>Name = name, Namespace = ns, UID = '''', ResourceVersion = 0, Generation = 0, DeletionTimestamp = None,
      Finalizers = [], Annotations = [], OwnerReferences = []\<rparr>"

definition generateIntermediateBucket :: "BucketClaim \<Rightarrow> BucketClass \<Rightarrow> string \<Rightarrow> Bucket" where
  "generateIntermediateBucket claim cls bucketName =
     \<lparr>b_meta = new_meta '''' bucketName,
      b_Spec = \<lparr>bSpec_DriverName = bclSpec_DriverName (bcl_Spec cls),
                bSpec_DeletionPolicy = bclSpec_DeletionPolicy (bcl_Spec cls),
                bSpec_Parameters = bclSpec_Parameters (bcl_Spec cls),
                bSpec_Protocols = bcSpec_Protocols (bc_Spec claim),
                bSpec_BucketClaimRef = \<lparr>ref_Name = Name (bc_meta claim), ref_Namespace = Namespace (bc_meta claim),
                                        ref_UID = UID (bc_meta claim)\<rparr>,
                bSpec_ExistingBucketID = ''''\<rparr>,
      b_Status = \<lparr>bStatus_ReadyToUse = None, bStatus_BucketID = '''', bStatus_Protocols = [],
                  bStatus_BucketInfo = [], bStatus_Error = None\<rparr>\<rparr>"

definition bucketIsBoundToClaim :: "Bucket \<Rightarrow> BucketClaim \<Rightarrow> gerror + bool" where
  "bucketIsBoundToClaim bucket claim =
     (let claimRef = bSpec_BucketClaimRef (b_Spec bucket);
          errs =
            (if ref_Namespace claimRef \<noteq> Namespace (bc_meta claim)
             then [Errorf ''Bucket claim ref namespace %q does not match BucketClaim namespace %q''
                     [AStr (ref_Namespace claimRef), AStr (Namespace (bc_meta claim))]] else []) @
            (if ref_Name claimRef \<noteq> Name (bc_meta claim)
             then [Errorf ''Bucket claim ref name %q does not match BucketClaim name %q''
                     [AStr (ref_Name claimRef), AStr (Name (bc_meta claim))]] else [])
      in if ref_UID claimRef = '''' then
           (if errs \<noteq> [] then Inl (Wrapf ''unbound Bucket does not match BucketClaim: %w'' [] (Join errs)) else Inr False)
         else
           (let errs2 = errs @
                  (if ref_UID claimRef \<noteq> UID (bc_meta claim)
                   then [Errorf ''Bucket claim ref UID %q does not match BucketClaim UID %q''
                           [AStr (ref_UID claimRef), AStr (UID (bc_meta claim))]] else [])
            in if errs2 \<noteq> [] then Inl (Wrapf ''bound Bucket does not match BucketClaim: %w'' [] (Join errs2))
               else Inr True))"

subsection \<open>Status mutations\<close>

definition claim_status :: "(BucketClaimStatus \<Rightarrow> BucketClaimStatus) \<Rightarrow> BucketClaim \<Rightarrow> BucketClaim" where
  "claim_status f claim = claim\<lparr>bc_Status := f (bc_Status claim)\<rparr>"

text \<open>\<open>if status.ReadyToUse == nil \{ status.ReadyToUse = ptr.To(false) \}\<close>.\<close>

definition claim_ready_default :: "BucketClaim \<Rightarrow> BucketClaim" where
  "claim_ready_default = claim_status (\<lambda>st.
     (case bcStatus_ReadyToUse st of None \<Rightarrow> st\<lparr>bcStatus_ReadyToUse := Some False\<rparr> | Some _ \<Rightarrow> st))"

subsection \<open>Steps with effects\<close>

definition removeClaimFinalizer :: "'w env \<Rightarrow> ('w, unit) claim_prog" where
  "removeClaimFinalizer E =
     seq (upd_obj (\<lambda>claim. claim\<lparr>bc_meta := RemoveFinalizer (bc_meta claim) ProtectionFinalizer\<rparr>))
     (on_err (Wrapf ''failed to remove finalizer: %w'' []) (write_obj (e_UpdateClaim E) UpdateClaim))"

definition mark_claim_deleting :: "Bucket \<Rightarrow> Bucket" where
  "mark_claim_deleting bucket =
     bucket\<lparr>b_meta := (b_meta bucket)\<lparr>Annotations := gput BucketClaimBeingDeletedAnnotation '''' (Annotations (b_meta bucket))\<rparr>\<rparr>"

text \<open>The Bucket as stored is the result, since the Go code goes on with the same pointer.\<close>

definition applyBucketClaimIsDeletingAnnotation :: "'w env \<Rightarrow> Bucket \<Rightarrow> ('w, Bucket) claim_prog" where
  "applyBucketClaimIsDeletingAnnotation E bucket =
     (let marked = mark_claim_deleting bucket
      in on_err (Wrapf ''failed to annotate Bucket to indicate BucketClaim is being deleted: %w'' [])
           (ask (e_UpdateBucket E marked) (UpdateBucket marked)))"

definition createIntermediateBucket :: "'w env \<Rightarrow> string \<Rightarrow> ('w, Bucket) claim_prog" where
  "createIntermediateBucket E bucketName =
     bind (gets obj) (\<lambda>claim.
       (let className = bcSpec_BucketClassName (bc_Spec claim)
        in if className = ''''
           then fail (NonRetryableError (Some (Errorf ''BucketClaim cannot have empty bucketClassName'' [])))
           else
             bind (ask (e_GetClass E (global className)) (GetClass (global className))) (\<lambda>cls.
               (let bucket = generateIntermediateBucket claim cls bucketName
                in ask (e_CreateBucket E bucket) (CreateBucket bucket)))))"

text \<open>The Bucket with its reference to the claim set.\<close>

definition bind_bucket :: "Bucket \<Rightarrow> UID \<Rightarrow> Bucket" where
  "bind_bucket bucket claimUID =
     bucket\<lparr>b_Spec := (b_Spec bucket)\<lparr>bSpec_BucketClaimRef :=
       (bSpec_BucketClaimRef (b_Spec bucket))\<lparr>ref_UID := claimUID\<rparr>\<rparr>\<rparr>"

definition ensureStaticBucketBound :: "'w env \<Rightarrow> Bucket \<Rightarrow> UID \<Rightarrow> ('w, Bucket) claim_prog" where
  "ensureStaticBucketBound E bucket claimUID =
     (let claimRef = bSpec_BucketClaimRef (b_Spec bucket)
      in if ref_UID claimRef = claimUID then ret bucket
         else if ref_UID claimRef \<noteq> '''' \<and> ref_UID claimRef \<noteq> claimUID
         then fail (NonRetryableError (Some (Errorf ''Bucket claim ref UID %q does not match BucketClaim UID %q''
                      [AStr (ref_UID claimRef), AStr claimUID])))
         else
           (let bound = bind_bucket bucket claimUID
            in on_err (Wrapf ''failed to set bucketClaimRef.UID on Bucket: %w'' [])
                 (ask (e_UpdateBucket E bound) (UpdateBucket bound))))"

subsection \<open>Deletion\<close>

definition claim_reconcileDelete :: "'w env \<Rightarrow> string \<Rightarrow> bool \<Rightarrow> ('w, unit) claim_prog" where
  "claim_reconcileDelete E bucketName isStaticProvisioning =
     seq (upd_obj (claim_status (\<lambda>st. st\<lparr>bcStatus_ReadyToUse := Some False, bcStatus_Error := None\<rparr>)))
     (seq (on_err (Wrapf ''failed to update BucketClaim status before deletion: %w'' [])
             (write_obj (e_StatusClaim E) StatusClaim))
     (handle (ask (e_GetBucket E (global bucketName)) (GetBucket (global bucketName)))
       (\<lambda>e. if IsNotFound e then removeClaimFinalizer E else fail e)
       (\<lambda>bucket.
            bind (gets obj) (\<lambda>claim.
              (case bucketIsBoundToClaim bucket claim of
                 Inl e \<Rightarrow>
                   if isStaticProvisioning then removeClaimFinalizer E
                   else fail (NonRetryableError (Some (Wrapf ''%s: %w''
                          [AStr ''administrator must resolve unexpected error: dynamic Bucket does not reference this BucketClaim''] e)))
               | Inr isBound \<Rightarrow>
                   if \<not> isBound then removeClaimFinalizer E
                   else if bSpec_DeletionPolicy (b_Spec bucket) = BucketDeletionPolicyRetain then
                     bind (applyBucketClaimIsDeletingAnnotation E bucket) (\<lambda>_. removeClaimFinalizer E)
                   else if bSpec_DeletionPolicy (b_Spec bucket) = BucketDeletionPolicyDelete then
                     (if \<not> IsZero (DeletionTimestamp (b_meta bucket))
                      then fail (Errorf ''still waiting for Bucket to be deleted'' [])
                      else
                        bind (applyBucketClaimIsDeletingAnnotation E bucket) (\<lambda>marked.
                        bind (on_err (Wrapf ''failed to delete Bucket: %w'' [])
                                (ask (e_DeleteBucket E marked) (DeleteBucket marked))) (\<lambda>_.
                        fail (Errorf ''waiting for Bucket to be deleted'' []))))
                   else fail (NonRetryableError (Some (Errorf ''unknown Bucket deletion policy %q''
                          [AStr (bSpec_DeletionPolicy (b_Spec bucket))]))))))))"

subsection \<open>Reconciliation\<close>

text \<open>\<open>didAdd := AddFinalizer(claim, ...); if didAdd \{ r.Update(claim) \}\<close>.\<close>

definition ensure_claim_finalizer :: "'w env \<Rightarrow> ('w, unit) claim_prog" where
  "ensure_claim_finalizer E =
     bind (gets obj) (\<lambda>claim.
       (let (didAdd, meta') = AddFinalizer (bc_meta claim) ProtectionFinalizer
        in seq (upd_obj (\<lambda>_. claim\<lparr>bc_meta := meta'\<rparr>))
           (when_cond didAdd
             (on_err (Wrapf ''failed to add protection finalizer: %w'' [])
               (write_obj (e_UpdateClaim E) UpdateClaim)))))"

text \<open>The Bucket of the claim: the existing one, or for dynamic provisioning a new one.\<close>

definition claim_bucket :: "'w env \<Rightarrow> string \<Rightarrow> bool \<Rightarrow> ('w, Bucket) claim_prog" where
  "claim_bucket E bucketName isStaticProvisioning =
     handle (ask (e_GetBucket E (global bucketName)) (GetBucket (global bucketName)))
       (\<lambda>e. if \<not> IsNotFound e then fail e
            else
              bind (gets obj) (\<lambda>claim.
                if bcStatus_BoundBucketName (bc_Status claim) \<noteq> '''' then
                  fail (NonRetryableError (Some (Errorf
                    ''unrecoverable degradation: BucketClaim is bound to Bucket %q that no longer exists''
                    [AStr (bcStatus_BoundBucketName (bc_Status claim))])))
                else if isStaticProvisioning then
                  fail (Errorf ''waiting for statically-provisioned Bucket %q to exist'' [AStr bucketName])
                else createIntermediateBucket E bucketName))
       ret"

definition claim_reconcile :: "'w env \<Rightarrow> ('w, unit) claim_prog" where
  "claim_reconcile E =
     bind (gets obj) (\<lambda>claim.
       (case determineBucketName claim of
          Inl e \<Rightarrow> fail (NonRetryableError (Some e))
        | Inr bucketName \<Rightarrow>
            (let isStaticProvisioning = bcSpec_ExistingBucketName (bc_Spec claim) \<noteq> ''''
             in if \<not> IsZero (DeletionTimestamp (bc_meta claim))
                then claim_reconcileDelete E bucketName isStaticProvisioning
                else
                  seq (ensure_claim_finalizer E)
                  (bind (claim_bucket E bucketName isStaticProvisioning) (\<lambda>bucket0.
                   bind (gets obj) (\<lambda>claim1.
                   (case bucketIsBoundToClaim bucket0 claim1 of
                      Inl e \<Rightarrow> fail (NonRetryableError (Some e))
                    | Inr isBound \<Rightarrow>
                        bind (if isBound then ret bucket0
                              else if isStaticProvisioning then ensureStaticBucketBound E bucket0 (UID (bc_meta claim1))
                              else fail (NonRetryableError (Some (Errorf ''dynamic Bucket is malformed: %w''
                                     [AText ''%!w(<nil>)''])))) (\<lambda>bucket.
                        seq (when_cond (bcStatus_BoundBucketName (bc_Status claim1) = '''')
                              (seq (upd_obj claim_ready_default)
                              (seq (upd_obj (claim_status (\<lambda>st. st\<lparr>bcStatus_BoundBucketName := bucketName\<rparr>)))
                              (on_err (Wrapf ''failed to bind BucketClaim to Bucket: %w'' [])
                                (write_obj (e_StatusClaim E) StatusClaim)))))
                        (if bStatus_BucketID (b_Status bucket) = ''''
                         then fail (Errorf ''waiting for Bucket to be provisioned'' [])
                         else if bStatus_ReadyToUse (b_Status bucket) = Some True \<and> bStatus_Protocols (b_Status bucket) = []
                         then fail (NonRetryableError (Some (Errorf ''provisioned Bucket supports no protocols'' [])))
                         else
                           seq (upd_obj (claim_status (\<lambda>st. st\<lparr>bcStatus_ReadyToUse := bStatus_ReadyToUse (b_Status bucket),
                                   bcStatus_Protocols := bStatus_Protocols (b_Status bucket), bcStatus_Error := None\<rparr>)))
                           (write_obj (e_StatusClaim E) StatusClaim))))))))))"

text \<open>\<open>Reconcile\<close>: an error of \<open>reconcile\<close> is recorded in the status; it ends the retries only when it is
  non-retryable and the record was stored.\<close>

definition claim_Reconcile :: "'w env \<Rightarrow> NamespacedName \<Rightarrow> ('w, outcome) claim_prog" where
  "claim_Reconcile E req =
     handle (ask (e_GetClaim E req) (GetClaim req))
       (\<lambda>e. if IsNotFound e then ret Success else ret (Requeue e))
       (\<lambda>claim0.
          seq (upd_obj (\<lambda>_. claim0))
          (handle (claim_reconcile E)
            (\<lambda>err.
               seq (upd_obj claim_ready_default)
               (bind (observe (e_Now E)) (\<lambda>now.
                seq (upd_obj (claim_status (\<lambda>st. st\<lparr>bcStatus_Error := Some (NewTimestampedError now (Error err))\<rparr>)))
                (handle (write_obj (e_StatusClaim E) StatusClaim)
                  (\<lambda>updErr. ret (Requeue err))
                  (\<lambda>_. ret (if is_nonretryable err then Terminal err else Requeue err))))))
            (\<lambda>_.
               bind (gets obj) (\<lambda>claim.
                 if bcStatus_Error (bc_Status claim) \<noteq> None \<and> \<not> IsZero (DeletionTimestamp (bc_meta claim)) then
                   seq (upd_obj claim_ready_default)
                   (seq (upd_obj (claim_status (\<lambda>st. st\<lparr>bcStatus_Error := None\<rparr>)))
                   (handle (write_obj (e_StatusClaim E) StatusClaim)
                     (\<lambda>updErr. ret (Requeue updErr))
                     (\<lambda>_. ret Success)))
                 else ret Success))))"

text \<open>The Controller's Bucket reconciler logs and returns.\<close>

definition bucket_controller_Reconcile :: "NamespacedName \<Rightarrow> (('w, Bucket) st, outcome) prog" where
  "bucket_controller_Reconcile req = ret Success"

subsection \<open>What the reconciler may do\<close>

text \<open>
  The policy of the claim reconciler, as a condition on each call and the calls before it:
  \<^item> the finalizer of a claim is given up only when the Bucket does not exist, is not bound to the claim,
    or is retained and was marked;
  \<^item> a Bucket is changed only to mark it (when it is bound to the claim) or to bind it (when it is
    bound to nobody and names the claim);
  \<^item> a Bucket is created only for an unbound dynamic claim, when none exists, from the claim's class;
  \<^item> a Bucket is deleted only for a deleting claim bound to it, with the policy Delete, after marking;
  \<^item> the bound Bucket name in the status never changes once set, and the claim becomes ready only by a
    ready Bucket with an ID and protocols.
\<close>

definition claim_kept :: "call list \<Rightarrow> BucketClaim \<Rightarrow> BucketClaim \<Rightarrow> bool" where
  "claim_kept h old new \<longleftrightarrow>
     immutable_once_set (\<lambda>x. x \<noteq> '''') (bcStatus_BoundBucketName (bc_Status old)) (bcStatus_BoundBucketName (bc_Status new)) \<and>
     (bcStatus_ReadyToUse (bc_Status new) = Some True \<longrightarrow>
        bcStatus_ReadyToUse (bc_Status old) = Some True \<or>
        saw seen_bucket (\<lambda>b. bStatus_ReadyToUse (b_Status b) = Some True \<and> bStatus_BucketID (b_Status b) \<noteq> '''' \<and>
          bStatus_Protocols (b_Status b) \<noteq> [] \<and>
          bcStatus_Protocols (bc_Status new) = bStatus_Protocols (b_Status b)) h)"

definition claim_status_ok :: "call list \<Rightarrow> BucketClaim \<Rightarrow> bool" where
  "claim_status_ok h new = saw seen_claim (\<lambda>old. claim_kept h old new) h"

text \<open>The claim as it was read names its Bucket; \<open>its_bucket h P\<close> when the key of that Bucket has \<open>P\<close>.\<close>

definition its_bucket :: "call list \<Rightarrow> (BucketClaim \<Rightarrow> NamespacedName \<Rightarrow> bool) \<Rightarrow> bool" where
  "its_bucket h P = saw got_claim (\<lambda>orig.
     (case determineBucketName orig of Inl _ \<Rightarrow> False | Inr n \<Rightarrow> P orig (global n))) h"

definition claim_update_ok :: "call list \<Rightarrow> BucketClaim \<Rightarrow> bool" where
  "claim_update_ok h c \<longleftrightarrow>
     ContainsFinalizer (bc_meta c) ProtectionFinalizer \<or>
     its_bucket h (\<lambda>orig key. deleting (bc_meta orig) \<and>
       (saw (missed_bucket_at key) IsNotFound h \<or>
        saw (got_bucket_at key) (\<lambda>b. bucketIsBoundToClaim b c \<noteq> Inr True \<or>
          bSpec_DeletionPolicy (b_Spec b) = BucketDeletionPolicyRetain \<and>
          saw updated_bucket (\<lambda>(b1, b2). b1 = mark_claim_deleting b) h) h))"

definition claim_bucket_update_ok :: "call list \<Rightarrow> Bucket \<Rightarrow> bool" where
  "claim_bucket_update_ok h b' = its_bucket h (\<lambda>orig key. saw (got_bucket_at key) (\<lambda>b. saw seen_claim (\<lambda>c.
       deleting (bc_meta orig) \<and> bucketIsBoundToClaim b c = Inr True \<and> b' = mark_claim_deleting b \<or>
       \<not> deleting (bc_meta orig) \<and> bcSpec_ExistingBucketName (bc_Spec orig) \<noteq> '''' \<and>
         bucketIsBoundToClaim b c = Inr False \<and> b' = bind_bucket b (UID (bc_meta c))) h) h)"

definition claim_delete_ok :: "call list \<Rightarrow> Bucket \<Rightarrow> bool" where
  "claim_delete_ok h b' = its_bucket h (\<lambda>orig key. deleting (bc_meta orig) \<and>
     saw (got_bucket_at key) (\<lambda>b. bSpec_DeletionPolicy (b_Spec b) = BucketDeletionPolicyDelete \<and> \<not> deleting (b_meta b) \<and>
       saw updated_bucket (\<lambda>(b1, b2). b1 = mark_claim_deleting b \<and> b2 = b') h \<and>
       saw seen_claim (\<lambda>c. bucketIsBoundToClaim b c = Inr True) h) h)"

definition claim_create_ok :: "call list \<Rightarrow> Bucket \<Rightarrow> bool" where
  "claim_create_ok h b = its_bucket h (\<lambda>orig key. \<not> deleting (bc_meta orig) \<and> bcSpec_ExistingBucketName (bc_Spec orig) = '''' \<and>
     saw (missed_bucket_at key) IsNotFound h \<and>
     saw seen_claim (\<lambda>c. bcStatus_BoundBucketName (bc_Status c) = '''' \<and>
       saw (got_class_at (global (bcSpec_BucketClassName (bc_Spec c)))) (\<lambda>cls.
         b = generateIntermediateBucket c cls (nn_Name key)) h) h)"

definition claim_policy :: "call list \<Rightarrow> call \<Rightarrow> bool" where
  "claim_policy h c =
     (case c of
        GetClaim _ _ \<Rightarrow> True | GetBucket _ _ \<Rightarrow> True | GetClass _ _ \<Rightarrow> True
      | UpdateClaim c' _ \<Rightarrow> claim_update_ok h c'
      | StatusClaim c' _ \<Rightarrow> claim_status_ok h c'
      | UpdateBucket b _ \<Rightarrow> claim_bucket_update_ok h b
      | CreateBucket b _ \<Rightarrow> claim_create_ok h b
      | DeleteBucket b _ \<Rightarrow> claim_delete_ok h b
      | _ \<Rightarrow> False)"

definition claim_inv :: "call list \<Rightarrow> BucketClaim \<Rightarrow> bool" where
  "claim_inv h ob \<longleftrightarrow> allowed claim_policy h \<and> claim_status_ok h ob"

subsection \<open>Lemmas on the status\<close>

lemma claim_kept_refl [simp]: "claim_kept h c c"
  by (simp add: claim_kept_def immutable_once_set_def)

lemma claim_status_ok_later: "claim_status_ok h c \<Longrightarrow> claim_status_ok (x # h) c"
  unfolding claim_status_ok_def
  by (erule saw_mono) (auto simp: claim_kept_def intro: saw_later)

lemma claim_status_ok_fresh: "seen_claim x = Some c \<Longrightarrow> claim_status_ok (x # h) c"
  by (simp add: claim_status_ok_def)

lemma claim_status_ok_meta [simp]: "claim_status_ok h (c\<lparr>bc_meta := m\<rparr>) = claim_status_ok h c"
  by (simp add: claim_status_ok_def claim_kept_def)

lemma claim_status_ok_change:
  assumes "claim_status_ok h c"
    and "bcStatus_BoundBucketName (bc_Status c) \<noteq> '''' \<Longrightarrow>
      bcStatus_BoundBucketName (f (bc_Status c)) = bcStatus_BoundBucketName (bc_Status c)"
    and "bcStatus_ReadyToUse (f (bc_Status c)) = Some True \<Longrightarrow>
      bcStatus_ReadyToUse (bc_Status c) = Some True \<and> bcStatus_Protocols (f (bc_Status c)) = bcStatus_Protocols (bc_Status c) \<or>
      saw seen_bucket (\<lambda>b. bStatus_ReadyToUse (b_Status b) = Some True \<and> bStatus_BucketID (b_Status b) \<noteq> '''' \<and>
          bStatus_Protocols (b_Status b) \<noteq> [] \<and> bcStatus_Protocols (f (bc_Status c)) = bStatus_Protocols (b_Status b)) h"
  shows "claim_status_ok h (claim_status f c)"
  using assms unfolding claim_status_ok_def claim_status_def
  by (elim saw_mono) (auto simp: claim_kept_def immutable_once_set_def)

lemma claim_status_ok_ready_default [simp]: "claim_status_ok h c \<Longrightarrow> claim_status_ok h (claim_ready_default c)"
  unfolding claim_ready_default_def by (rule claim_status_ok_change) (auto split: option.splits)

lemma claim_status_ok_deletion [simp]:
  "claim_status_ok h c \<Longrightarrow>
     claim_status_ok h (claim_status (\<lambda>st. st\<lparr>bcStatus_ReadyToUse := Some False, bcStatus_Error := None\<rparr>) c)"
  by (rule claim_status_ok_change) auto

lemma claim_status_ok_error [simp]:
  "claim_status_ok h c \<Longrightarrow> claim_status_ok h (claim_status (bcStatus_Error_update g) c)"
  by (rule claim_status_ok_change) auto

lemma claim_status_ok_bind [simp]:
  "claim_status_ok h c \<Longrightarrow> bcStatus_BoundBucketName (bc_Status c) = '''' \<Longrightarrow>
     claim_status_ok h (claim_status (bcStatus_BoundBucketName_update g) c)"
  by (rule claim_status_ok_change) auto

lemma claim_status_ok_copy [simp]:
  "claim_status_ok h c \<Longrightarrow> saw seen_bucket ((=) b) h \<Longrightarrow> bStatus_BucketID (b_Status b) \<noteq> '''' \<Longrightarrow>
   (bStatus_ReadyToUse (b_Status b) = Some True \<longrightarrow> bStatus_Protocols (b_Status b) \<noteq> []) \<Longrightarrow>
     claim_status_ok h (claim_status (\<lambda>st. st\<lparr>bcStatus_ReadyToUse := bStatus_ReadyToUse (b_Status b),
        bcStatus_Protocols := bStatus_Protocols (b_Status b), bcStatus_Error := None\<rparr>) c)"
  by (rule claim_status_ok_change) (auto intro: know_saw)

lemma bound_ready_default [simp]:
  "bcStatus_BoundBucketName (bc_Status (claim_ready_default c)) = bcStatus_BoundBucketName (bc_Status c)"
  by (simp add: claim_ready_default_def claim_status_def split: option.splits)

lemma bound_RemoveFinalizer [simp]:
  "bucketIsBoundToClaim b (c\<lparr>bc_meta := RemoveFinalizer (bc_meta c) f\<rparr>) = bucketIsBoundToClaim b c"
  by (simp add: bucketIsBoundToClaim_def Let_def)

lemma determineBucketName_Inr:
  "determineBucketName c = Inr n \<Longrightarrow>
     n = (if bcSpec_ExistingBucketName (bc_Spec c) \<noteq> '''' then bcSpec_ExistingBucketName (bc_Spec c)
          else ''bc-'' @ UID (bc_meta c))"
  by (auto simp: determineBucketName_def Let_def split: if_splits)

subsection \<open>The steps keep to the policy\<close>

lemmas claim_inv_simps = claim_inv_def claim_policy_def claim_status_ok_later claim_status_ok_fresh selectors

lemma vc_removeClaimFinalizer:
  assumes "claim_inv h ob"
    and "claim_update_ok h (ob\<lparr>bc_meta := RemoveFinalizer (bc_meta ob) ProtectionFinalizer\<rparr>)"
  shows "vc (removeClaimFinalizer E) (\<lambda>_. claim_inv) (\<lambda>_. claim_inv) h ob"
  unfolding removeClaimFinalizer_def
  using assms by (intro vc_intros) (simp_all add: claim_inv_simps)

lemma vc_ensure_claim_finalizer:
  assumes "claim_inv h ob" and "saw seen_claim ((=) ob) h" and "saw got_claim ((=) orig) h"
  shows "vc (ensure_claim_finalizer E)
     (\<lambda>_ h' ob'. claim_inv h' ob' \<and> saw seen_claim ((=) ob') h' \<and> saw got_claim ((=) orig) h') (\<lambda>_. claim_inv) h ob"
  unfolding ensure_claim_finalizer_def Let_def
  using assms by (intro vc_intros)
    (auto simp: claim_inv_simps AddFinalizer_def claim_update_ok_def ContainsFinalizer_def split: if_splits)

lemma got_claim_seen: "saw got_claim ((=) c) h \<Longrightarrow> saw seen_claim ((=) c) h"
proof -
  have "got_claim x = Some c \<Longrightarrow> seen_claim x = Some c" for x
    by (cases x) (simp_all add: got_claim_def seen_claim_def)
  then show "saw got_claim ((=) c) h \<Longrightarrow> saw seen_claim ((=) c) h" by (auto simp: saw_iff)
qed

lemma its_bucketI:
  "saw got_claim ((=) orig) h \<Longrightarrow> determineBucketName orig = Inr n \<Longrightarrow> P orig (global n) \<Longrightarrow> its_bucket h P"
  unfolding its_bucket_def by (erule know_saw) simp

lemma its_bucket_mono: "its_bucket h P \<Longrightarrow> (\<And>c key. P c key \<Longrightarrow> P' c key) \<Longrightarrow> set h \<subseteq> set h' \<Longrightarrow> its_bucket h' P'"
  unfolding its_bucket_def by (erule saw_mono) (auto split: sum.splits)

lemma create_okI:
  assumes "saw got_claim ((=) orig) h" and "determineBucketName orig = Inr n" and "\<not> deleting (bc_meta orig)"
    and "bcSpec_ExistingBucketName (bc_Spec orig) = ''''" and "saw seen_claim ((=) c) h"
    and "bcStatus_BoundBucketName (bc_Status c) = ''''" and "IsNotFound e"
  shows "claim_create_ok (GetClass (global (bcSpec_BucketClassName (bc_Spec c))) (Inr cls) # GetBucket (global n) (Inl e) # h)
     (generateIntermediateBucket c cls n)"
proof -
  let ?h = "GetClass (global (bcSpec_BucketClassName (bc_Spec c))) (Inr cls) # GetBucket (global n) (Inl e) # h"
  have "saw seen_claim (\<lambda>c'. bcStatus_BoundBucketName (bc_Status c') = '''' \<and>
       saw (got_class_at (global (bcSpec_BucketClassName (bc_Spec c')))) (\<lambda>cls'.
         generateIntermediateBucket c cls n = generateIntermediateBucket c' cls' n) ?h) ?h"
    using assms(5,6) by - (rule know_saw [of _ c], simp_all add: got_class_at_def)
  then show ?thesis
    unfolding claim_create_ok_def using assms(1-4,7)
    by (intro its_bucketI [of orig _ n]) (simp_all add: missed_bucket_at_def global_def)
qed

lemma vc_claim_bucket:
  assumes "claim_inv h ob" and "saw seen_claim ((=) ob) h" and "saw got_claim ((=) orig) h"
    and "determineBucketName orig = Inr n" and "\<not> deleting (bc_meta orig)"
    and "static \<longleftrightarrow> bcSpec_ExistingBucketName (bc_Spec orig) \<noteq> ''''"
  shows "vc (claim_bucket E n static)
     (\<lambda>b h' ob'. claim_inv h' ob' \<and> ob' = ob \<and> saw seen_claim ((=) ob) h' \<and> saw got_claim ((=) orig) h' \<and> saw seen_bucket ((=) b) h' \<and>
        (static \<longrightarrow> saw (got_bucket_at (global n)) ((=) b) h')) (\<lambda>_. claim_inv) h ob"
  unfolding claim_bucket_def createIntermediateBucket_def Let_def
  using assms by (intro vc_intros) (auto simp: claim_inv_simps intro!: create_okI)

lemma vc_ensureStaticBucketBound:
  assumes "claim_inv h ob" and "saw seen_claim ((=) ob) h" and "saw (got_bucket_at (global n)) ((=) b) h"
    and "bucketIsBoundToClaim b ob = Inr False" and "saw seen_bucket ((=) b) h"
    and "saw got_claim ((=) orig) h" and "determineBucketName orig = Inr n" and "\<not> deleting (bc_meta orig)"
    and "bcSpec_ExistingBucketName (bc_Spec orig) \<noteq> ''''"
  shows "vc (ensureStaticBucketBound E b (UID (bc_meta ob)))
     (\<lambda>b h' ob'. claim_inv h' ob' \<and> ob' = ob \<and> saw seen_bucket ((=) b) h') (\<lambda>_. claim_inv) h ob"
proof -
  have "claim_bucket_update_ok h (bind_bucket b (UID (bc_meta ob)))"
    unfolding claim_bucket_update_ok_def
    by (rule its_bucketI [OF assms(6,7)], rule know_saw [OF assms(3)], rule know_saw [OF assms(2)]) (simp add: assms(4,8,9))
  then show ?thesis
    unfolding ensureStaticBucketBound_def Let_def
    using assms(1,2,5) by (intro vc_intros) (auto simp: claim_inv_simps)
qed

text \<open>The calls the deletion of a claim ends with, after its Bucket was read.\<close>

lemma release_missing:
  assumes "saw got_claim ((=) orig) h" and "determineBucketName orig = Inr n" and "deleting (bc_meta orig)" and "IsNotFound e"
  shows "claim_update_ok (GetBucket (global n) (Inl e) # h) c"
proof -
  have "saw got_claim ((=) orig) (GetBucket (global n) (Inl e) # h)" using assms(1) by simp
  from its_bucketI [OF this assms(2)] show ?thesis
    using assms(3,4) by (simp add: claim_update_ok_def missed_bucket_at_def)
qed

lemma release_unbound:
  assumes "saw got_claim ((=) orig) h" and "determineBucketName orig = Inr n" and "deleting (bc_meta orig)"
    and "bucketIsBoundToClaim b c \<noteq> Inr True"
  shows "claim_update_ok (GetBucket (global n) (Inr b) # h) c"
proof -
  have "saw got_claim ((=) orig) (GetBucket (global n) (Inr b) # h)" using assms(1) by simp
  from its_bucketI [OF this assms(2)] show ?thesis
    using assms(3,4) by (simp add: claim_update_ok_def got_bucket_at_def)
qed

lemma release_retained:
  assumes "saw got_claim ((=) orig) h" and "determineBucketName orig = Inr n" and "deleting (bc_meta orig)"
    and "bSpec_DeletionPolicy (b_Spec b) = BucketDeletionPolicyRetain"
  shows "claim_update_ok (UpdateBucket (mark_claim_deleting b) (Inr b') # GetBucket (global n) (Inr b) # h) c"
proof -
  have "saw got_claim ((=) orig) (UpdateBucket (mark_claim_deleting b) (Inr b') # GetBucket (global n) (Inr b) # h)"
    using assms(1) by simp
  from its_bucketI [OF this assms(2)] show ?thesis
    using assms(3,4) by (simp add: claim_update_ok_def got_bucket_at_def updated_bucket_def)
qed

lemma mark_ok:
  assumes "saw got_claim ((=) orig) h" and "determineBucketName orig = Inr n" and "deleting (bc_meta orig)"
    and "bucketIsBoundToClaim b c = Inr True"
  shows "claim_bucket_update_ok (GetBucket (global n) (Inr b) # StatusClaim c0 (Inr c) # h) (mark_claim_deleting b)"
proof -
  have "saw got_claim ((=) orig) (GetBucket (global n) (Inr b) # StatusClaim c0 (Inr c) # h)" using assms(1) by simp
  from its_bucketI [OF this assms(2)] show ?thesis
    using assms(3,4) by (simp add: claim_bucket_update_ok_def got_bucket_at_def seen_claim_def)
qed

lemma delete_ok:
  assumes "saw got_claim ((=) orig) h" and "determineBucketName orig = Inr n" and "deleting (bc_meta orig)"
    and "bucketIsBoundToClaim b c = Inr True" and "bSpec_DeletionPolicy (b_Spec b) = BucketDeletionPolicyDelete"
    and "\<not> deleting (b_meta b)"
  shows "claim_delete_ok (UpdateBucket (mark_claim_deleting b) (Inr b') # GetBucket (global n) (Inr b) #
     StatusClaim c0 (Inr c) # h) b'"
proof -
  have "saw got_claim ((=) orig) (UpdateBucket (mark_claim_deleting b) (Inr b') # GetBucket (global n) (Inr b) #
     StatusClaim c0 (Inr c) # h)" using assms(1) by simp
  from its_bucketI [OF this assms(2)] show ?thesis
    using assms(3-6) by (simp add: claim_delete_ok_def got_bucket_at_def seen_claim_def updated_bucket_def)
qed

lemma vc_claim_reconcileDelete:
  assumes "claim_inv h ob" and "saw got_claim ((=) orig) h" and "determineBucketName orig = Inr n" and "deleting (bc_meta orig)"
  shows "vc (claim_reconcileDelete E n static) (\<lambda>_. claim_inv) (\<lambda>_. claim_inv) h ob"
proof -
  have orig: "saw got_claim ((=) orig) (StatusClaim c r # h)" for c r using assms(2) by simp
  note release = release_missing [OF orig assms(3,4)] release_unbound [OF orig assms(3,4)]
    release_retained [OF orig assms(3,4)] mark_ok [OF assms(2-4)] delete_ok [OF assms(2-4)]
  show ?thesis
    unfolding claim_reconcileDelete_def applyBucketClaimIsDeletingAnnotation_def Let_def
    using assms(1) by (intro vc_intros vc_removeClaimFinalizer) (simp_all add: claim_inv_simps release deleting_def)
qed

lemma vc_claim_reconcile:
  assumes "claim_inv h ob" and "saw got_claim ((=) ob) h"
  shows "vc (claim_reconcile E) (\<lambda>_. claim_inv) (\<lambda>_. claim_inv) h ob"
proof -
  have seen: "saw seen_claim ((=) ob) h" using assms(2) by (rule got_claim_seen)
  show ?thesis
    unfolding claim_reconcile_def Let_def
    using assms seen
    by (intro vc_intros vc_claim_reconcileDelete vc_ensure_claim_finalizer [where orig = ob, THEN vc_mono]
        vc_claim_bucket [where orig = ob, THEN vc_mono] vc_ensureStaticBucketBound [where orig = ob, THEN vc_mono])
      (auto simp: claim_inv_simps deleting_def)
qed

lemma claim_Reconcile_allowed: "allowed claim_policy (trace (claim_Reconcile E req) (start ob w))"
  unfolding claim_Reconcile_def
  by (rule trace_allowedI, intro vc_intros vc_claim_reconcile [THEN vc_mono]) (auto simp: claim_inv_simps)

subsection \<open>The shell\<close>

text \<open>When a run has succeeded: the claim does not exist, or the last call stored a status without error or took the
  finalizer off; and no call failed but a read that found nothing.\<close>

definition claim_fine :: "call list \<Rightarrow> bool" where
  "claim_fine h \<longleftrightarrow>
     unfailed (\<lambda>c. case c of GetClaim _ _ \<Rightarrow> True | GetBucket _ _ \<Rightarrow> True | _ \<Rightarrow> False) h \<and>
     (case h of
        GetClaim _ (Inl _) # _ \<Rightarrow> True
      | StatusClaim c (Inr _) # _ \<Rightarrow> bcStatus_Error (bc_Status c) = None
      | UpdateClaim c (Inr _) # _ \<Rightarrow> \<not> ContainsFinalizer (bc_meta c) ProtectionFinalizer
      | _ \<Rightarrow> False)"

text \<open>The two ends of \<open>Reconcile\<close>.\<close>

definition claim_report :: "'w env \<Rightarrow> gerror \<Rightarrow> ('w, outcome) claim_prog" where
  "claim_report E err =
     seq (upd_obj claim_ready_default)
     (bind (observe (e_Now E)) (\<lambda>now.
      seq (upd_obj (claim_status (\<lambda>st. st\<lparr>bcStatus_Error := Some (NewTimestampedError now (Error err))\<rparr>)))
      (handle (write_obj (e_StatusClaim E) StatusClaim)
        (\<lambda>updErr. ret (Requeue err))
        (\<lambda>_. ret (if is_nonretryable err then Terminal err else Requeue err)))))"

definition claim_finish :: "'w env \<Rightarrow> ('w, outcome) claim_prog" where
  "claim_finish E =
     bind (gets obj) (\<lambda>claim.
       if bcStatus_Error (bc_Status claim) \<noteq> None \<and> \<not> IsZero (DeletionTimestamp (bc_meta claim)) then
         seq (upd_obj claim_ready_default)
         (seq (upd_obj (claim_status (\<lambda>st. st\<lparr>bcStatus_Error := None\<rparr>)))
         (handle (write_obj (e_StatusClaim E) StatusClaim)
           (\<lambda>updErr. ret (Requeue updErr))
           (\<lambda>_. ret Success)))
       else ret Success)"

abbreviation claim_unfailed :: "call list \<Rightarrow> bool" where
  "claim_unfailed \<equiv> unfailed (\<lambda>c. case c of GetClaim _ _ \<Rightarrow> True | GetBucket _ _ \<Rightarrow> True | _ \<Rightarrow> False)"

lemma claim_fine_unfailed: "claim_fine h \<Longrightarrow> claim_unfailed h"
  by (simp add: claim_fine_def)

lemma claim_removal_fine:
  "claim_unfailed h \<Longrightarrow> vc (removeClaimFinalizer E) (\<lambda>_ h ob. claim_fine h) (\<lambda>_ _ _. True) h ob"
  unfolding removeClaimFinalizer_def by (intro vc_intros) (simp_all add: claim_fine_def)

lemma claim_finalizer_unfailed:
  "claim_unfailed h \<Longrightarrow> vc (ensure_claim_finalizer E) (\<lambda>_ h ob. claim_unfailed h) (\<lambda>_ _ _. True) h ob"
  unfolding ensure_claim_finalizer_def Let_def by (intro vc_intros) simp_all

lemma claim_bucket_unfailed:
  "claim_unfailed h \<Longrightarrow> vc (claim_bucket E n static) (\<lambda>_ h ob. claim_unfailed h) (\<lambda>_ _ _. True) h ob"
  unfolding claim_bucket_def createIntermediateBucket_def Let_def by (intro vc_intros) simp_all

lemma claim_binding_unfailed:
  "claim_unfailed h \<Longrightarrow> vc (ensureStaticBucketBound E b u) (\<lambda>_ h ob. claim_unfailed h) (\<lambda>_ _ _. True) h ob"
  unfolding ensureStaticBucketBound_def Let_def by (intro vc_intros) simp_all

lemma claim_deletion_fine:
  "claim_unfailed h \<Longrightarrow> vc (claim_reconcileDelete E n static) (\<lambda>_ h ob. claim_fine h) (\<lambda>_ _ _. True) h ob"
  unfolding claim_reconcileDelete_def applyBucketClaimIsDeletingAnnotation_def Let_def
  by (intro vc_intros claim_removal_fine) simp_all

lemma claim_reconcile_fine:
  "claim_unfailed h \<Longrightarrow> vc (claim_reconcile E) (\<lambda>_ h ob. claim_fine h) (\<lambda>_ _ _. True) h ob"
  unfolding claim_reconcile_def Let_def
  by (intro vc_intros claim_deletion_fine claim_finalizer_unfailed [THEN vc_mono] claim_bucket_unfailed [THEN vc_mono]
      claim_binding_unfailed [THEN vc_mono])
    (simp_all add: claim_fine_def claim_status_def)

interpretation claim_rec: reconciler claim_Reconcile e_GetClaim GetClaim "\<lambda>_. True" claim_reconcile "\<lambda>e. e" claim_report claim_finish
  claim_fine
proof
  show "claim_Reconcile E req = handle (ask (e_GetClaim E req) (GetClaim req)) (\<lambda>e. if IsNotFound e then ret Success else ret (Requeue e))
      (\<lambda>x. if True then seq (upd_obj (\<lambda>_. x)) (handle (claim_reconcile E) (claim_report E) (\<lambda>_. claim_finish E)) else ret Success)"
    for E :: "'w env" and req
    by (simp add: claim_Reconcile_def claim_report_def [abs_def] claim_finish_def)
  show "vc (claim_report E e) (\<lambda>r h ob. r \<in> {Terminal e, Requeue e} \<and> outcome_ok claim_fine r h) (\<lambda>_ _ _. False) h0 ob0"
    for E :: "'w env" and e h0 ob0
    unfolding claim_report_def by (intro vc_intros) (simp_all add: claim_status_def)
  show "vc (claim_finish E) (\<lambda>r h ob. outcome_ok claim_fine r h) (\<lambda>_ _ _. False) h0 ob0" if "claim_fine h0" for E :: "'w env" and h0 ob0
    unfolding claim_finish_def using claim_fine_unfailed [OF that] that
    by (intro vc_intros) (simp_all add: claim_fine_def claim_status_def)
  show "vc (claim_reconcile E) (\<lambda>_ h ob. claim_fine h) (\<lambda>_ _ _. True) [GetClaim req (Inr x)] x" for E :: "'w env" and req x
    by (rule claim_reconcile_fine) simp
qed (simp_all add: claim_fine_def)

subsection \<open>Properties\<close>

lemma claim_Reconcile_keeps:
  "(\<And>h c. claim_policy h c \<Longrightarrow> R h c) \<Longrightarrow> allowed R (trace (claim_Reconcile E req) (start ob w))"
  by (rule allowed_mono [OF claim_Reconcile_allowed])

text \<open>C14. The Controller deletes a Bucket only for a deleting claim: the Bucket was read under the name the
  claim determines, is bound to the claim, has the deletion policy Delete and is not deleting yet, and it
  was stored with the mark that its claim is being deleted before; whatever the API server answers.\<close>

theorem claim_deletes_only_its_bucket:
  "allowed (\<lambda>h c. case c of DeleteBucket b _ \<Rightarrow> claim_delete_ok h b | _ \<Rightarrow> True) (trace (claim_Reconcile E req) (start ob w))"
  by (rule claim_Reconcile_keeps) (simp add: claim_policy_def split: call.splits)

text \<open>C16. A BucketClaim is stored without its finalizer only when it is deleting and the Bucket of the name it
  determines was found missing, was found not to be bound to the claim, or is to be retained and was
  stored with the deletion mark.\<close>

theorem claim_finalizer_kept:
  "allowed (\<lambda>h c. case c of UpdateClaim c' _ \<Rightarrow> claim_update_ok h c' | _ \<Rightarrow> True) (trace (claim_Reconcile E req) (start ob w))"
  by (rule claim_Reconcile_keeps) (simp add: claim_policy_def split: call.splits)

lemma unbound_no_UID: "bucketIsBoundToClaim b c = Inr False \<Longrightarrow> ref_UID (bSpec_BucketClaimRef (b_Spec b)) = ''''"
  by (auto simp: bucketIsBoundToClaim_def Let_def split: if_splits)

lemma claim_reference_rules:
  "BucketClaimReference_rules (bSpec_BucketClaimRef (b_Spec b)) (bSpec_BucketClaimRef (b_Spec (mark_claim_deleting b)))"
  "ref_UID (bSpec_BucketClaimRef (b_Spec b)) = '''' \<Longrightarrow>
     BucketClaimReference_rules (bSpec_BucketClaimRef (b_Spec b)) (bSpec_BucketClaimRef (b_Spec (bind_bucket b u)))"
  by (simp_all add: BucketClaimReference_rules_def immutable_once_set_def mark_claim_deleting_def bind_bucket_def)

lemma claim_bucket_update_rules:
  "claim_bucket_update_ok h b' \<Longrightarrow> its_bucket h (\<lambda>orig key. saw (got_bucket_at key) (\<lambda>b.
     BucketClaimReference_rules (bSpec_BucketClaimRef (b_Spec b)) (bSpec_BucketClaimRef (b_Spec b'))) h)"
  unfolding claim_bucket_update_ok_def
  by (erule its_bucket_mono, erule saw_mono) (auto simp: saw_iff claim_reference_rules dest!: unbound_no_UID)

text \<open>C15. The Controller never takes a Bucket from another claim. The only Bucket it changes is the one it read
  under the name the claim determines: to set the deletion mark when the claim is deleting and the Bucket
  bound to it, or for a static claim to bind one that names the claim and is bound to nobody (which keeps
  the immutability rules of the claim reference). It creates a Bucket only under that name, when none
  exists, for an unbound dynamic claim, from the class the claim names; and it touches no Secret, no
  BucketAccess and no driver.\<close>

theorem claim_bucket_writes:
  "allowed (\<lambda>h c. case c of
       GetClaim _ _ \<Rightarrow> True | GetBucket _ _ \<Rightarrow> True | GetClass _ _ \<Rightarrow> True
     | UpdateClaim _ _ \<Rightarrow> True | StatusClaim _ _ \<Rightarrow> True | DeleteBucket _ _ \<Rightarrow> True
     | UpdateBucket b _ \<Rightarrow> claim_bucket_update_ok h b \<and>
         its_bucket h (\<lambda>orig key. saw (got_bucket_at key) (\<lambda>b0.
           BucketClaimReference_rules (bSpec_BucketClaimRef (b_Spec b0)) (bSpec_BucketClaimRef (b_Spec b))) h)
     | CreateBucket b _ \<Rightarrow> claim_create_ok h b
     | _ \<Rightarrow> False) (trace (claim_Reconcile E req) (start ob w))"
  by (rule claim_Reconcile_keeps) (simp add: claim_policy_def claim_bucket_update_rules split: call.splits)

text \<open>C17. Every status the Controller writes to a BucketClaim keeps the bound Bucket's name once it is set,
  and makes the claim ready only from a Bucket that is ready, has an ID and supports protocols, with
  exactly these protocols.\<close>

theorem claim_status_kept:
  "allowed (\<lambda>h c. case c of StatusClaim c' _ \<Rightarrow> claim_status_ok h c' | _ \<Rightarrow> True) (trace (claim_Reconcile E req) (start ob w))"
  by (rule claim_Reconcile_keeps) (simp add: claim_policy_def split: call.splits)

text \<open>A Bucket is found bound to a claim exactly when its reference has the claim's namespace, name and
  UID (not empty), found unbound exactly when the namespace and the name match and the UID is not set,
  and rejected otherwise.\<close>

lemma bucketIsBoundToClaim_iff:
  "let r = bSpec_BucketClaimRef (b_Spec b);
       named = (ref_Namespace r = Namespace (bc_meta c) \<and> ref_Name r = Name (bc_meta c))
   in (bucketIsBoundToClaim b c = Inr True \<longleftrightarrow> named \<and> ref_UID r = UID (bc_meta c) \<and> ref_UID r \<noteq> '''') \<and>
      (bucketIsBoundToClaim b c = Inr False \<longleftrightarrow> named \<and> ref_UID r = '''')"
  by (auto simp: bucketIsBoundToClaim_def Let_def)

end
