(* ===== verification/Bucket_Sidecar.thy ===== *)
theory Bucket_Sidecar
  imports Work_Queue Translator Driver
begin

text \<open>
  \<open>sidecar/pkg/reconciler/bucket.go\<close>: the Sidecar's Bucket reconciler. It asks the driver to create
  the backend bucket of a Bucket (or to look up an existing one), checks what the driver answers and
  records it in the status.
\<close>

type_synonym ('w, 'a) bucket_prog = "(('w, Bucket) st, 'a) prog"

subsection \<open>Pure parts\<close>

text \<open>The loop's order over the protocol mapping does not influence a result, so one order serves all
  elements.\<close>

definition objectProtocolListFromApiList ::
  "(ObjectProtocol_Type \<Rightarrow> nat) \<Rightarrow> ObjectProtocol list \<Rightarrow> gerror + ObjectProtocolMsg list" where
  "objectProtocolListFromApiList rank apiList =
     (let results = map (ObjectProtocol_ApiToRpc rank) apiList;
          errs = concat (map (\<lambda>r. case r of Inl e \<Rightarrow> [e] | Inr _ \<Rightarrow> []) results);
          out = concat (map (\<lambda>r. case r of Inl _ \<Rightarrow> [] | Inr p \<Rightarrow> [\<lparr>op_Type = p\<rparr>]) results)
      in if errs \<noteq> [] then Inl (Wrapf ''failed to parse protocol list: %w'' [] (Join errs)) else Inr out)"

definition validateDriverSupportsProtocols :: "DriverInfo \<Rightarrow> ObjectProtocolMsg list \<Rightarrow> gerror option" where
  "validateDriverSupportsProtocols driver required =
     (let unsupportedProtos = map (\<lambda>p. ObjectProtocol_Type_String (op_Type p))
            (filter (\<lambda>p. \<not> SupportsProtocol driver (op_Type p)) required)
      in if unsupportedProtos \<noteq> []
         then Some (Errorf ''driver %q does not support protocols: %v'' [AStr (di_Name driver), AErrs unsupportedProtos])
         else None)"

definition validateBucketSupportsProtocols :: "ObjectProtocol list \<Rightarrow> ObjectProtocol list \<Rightarrow> gerror option" where
  "validateBucketSupportsProtocols supported required =
     (let unsupported = filter (\<lambda>r. r \<notin> set supported) required
      in if unsupported \<noteq> [] then Some (Errorf ''required protocols are not supported: %v'' [AErrs unsupported])
         else None)"

record provisionedBucketDetails =
  pb_bucketId :: string
  pb_supportedProtos :: "ObjectProtocol list"
  pb_allProtoBucketInfo :: "(string, string) gomap"

record dynamicProvisionParams =
  dp_bucketName :: string
  dp_requiredProtos :: "ObjectProtocolMsg list"
  dp_parameters :: "(string, string) gomap"
  dp_claimRef :: BucketClaimReference

record staticProvisionParams =
  sp_existingBucketID :: string
  sp_requiredProtos :: "ObjectProtocolMsg list"
  sp_parameters :: "(string, string) gomap"
  sp_claimRef :: BucketClaimReference

text \<open>\<open>%#v\<close> of a claim reference.\<close>

definition claim_ref_text :: "BucketClaimReference \<Rightarrow> string" where
  "claim_ref_text r =
     ''v1alpha2.BucketClaimReference{Name:'' @ go_quote (ref_Name r) @ '', Namespace:'' @ go_quote (ref_Namespace r) @
     '', UID:'' @ go_quote (ref_UID r) @ ''}''"

definition bucket_status :: "(BucketStatus \<Rightarrow> BucketStatus) \<Rightarrow> Bucket \<Rightarrow> Bucket" where
  "bucket_status f bucket = bucket\<lparr>b_Status := f (b_Status bucket)\<rparr>"

definition bucket_ready_default :: "Bucket \<Rightarrow> Bucket" where
  "bucket_ready_default = bucket_status (\<lambda>st.
     (case bStatus_ReadyToUse st of None \<Rightarrow> st\<lparr>bStatus_ReadyToUse := Some False\<rparr> | Some _ \<Rightarrow> st))"

subsection \<open>Provisioning\<close>

text \<open>The checks of the driver's answer, the same in both workflows but for the texts.\<close>

definition check_provisioned ::
  "'w env \<Rightarrow> string \<Rightarrow> string \<Rightarrow> string \<Rightarrow> ObjectProtocolAndBucketInfo option \<Rightarrow>
   ('w, provisionedBucketDetails) bucket_prog" where
  "check_provisioned E no_id no_protocols bucketId protoResp =
     (if bucketId = '''' then fail (NonRetryableError (Some (Errorf no_id [])))
      else if protoResp = None then fail (NonRetryableError (Some (Errorf no_protocols [])))
      else
        bind (observe (e_Order E)) (\<lambda>rank.
        (case BucketInfoToApi rank protoResp None of
           Inl e \<Rightarrow> fail (NonRetryableError (Some e))
         | Inr (supportedProtos, allBucketInfo) \<Rightarrow>
             ret \<lparr>pb_bucketId = bucketId, pb_supportedProtos = supportedProtos,
                  pb_allProtoBucketInfo = allBucketInfo\<rparr>)))"

definition dynamicProvision ::
  "'w env \<Rightarrow> dynamicProvisionParams \<Rightarrow> ('w, provisionedBucketDetails) bucket_prog" where
  "dynamicProvision E dynamic =
     (let cr = dp_claimRef dynamic
      in if ref_Name cr = '''' \<or> ref_Namespace cr = '''' \<or> ref_UID cr = ''''
         then fail (NonRetryableError (Some (Errorf
                ''all bucketClaimRef fields must be set for dynamic provisioning: %v'' [AText (claim_ref_text cr)])))
         else
           (let request = \<lparr>cbq_Name = dp_bucketName dynamic, cbq_Protocols = dp_requiredProtos dynamic,
                           cbq_Parameters = dp_parameters dynamic\<rparr>
            in handle (ask (e_DriverCreateBucket E request) (DriverCreateBucket request))
                 (\<lambda>err. if rpcErrorIsRetryable (status_Code err) then fail err
                        else fail (NonRetryableError (Some err)))
                 (\<lambda>resp. check_provisioned E ''created bucket ID missing'' ''created bucket protocol response missing''
                           (cbr_BucketId resp) (cbr_Protocols resp))))"

definition staticProvision ::
  "'w env \<Rightarrow> staticProvisionParams \<Rightarrow> ('w, provisionedBucketDetails) bucket_prog" where
  "staticProvision E static =
     (let ref = sp_claimRef static
      in if ref_Name ref = '''' \<or> ref_Namespace ref = ''''
         then fail (NonRetryableError (Some (Errorf
                ''bucketClaimRef namespace and name must be set for static provisioning: %v'' [AText (claim_ref_text ref)])))
         else
           (let request = \<lparr>geq_ExistingBucketId = sp_existingBucketID static, geq_Protocols = sp_requiredProtos static,
                           geq_Parameters = sp_parameters static\<rparr>
            in handle (ask (e_DriverGetExistingBucket E request) (DriverGetExistingBucket request))
                 (\<lambda>err. if status_Code err = codes_NotFound
                        then fail (Wrapf ''waiting for backend bucket to exist: %w'' [] err)
                        else if rpcErrorIsRetryable (status_Code err) then fail err
                        else fail (NonRetryableError (Some err)))
                 (\<lambda>resp. check_provisioned E ''existing bucket ID missing in response''
                           ''existing bucket protocol response missing'' (ger_BucketId resp) (ger_Protocols resp))))"

subsection \<open>Reconciliation\<close>

text \<open>\<open>didAdd := AddFinalizer(bucket, ...); if didAdd \{ r.Update(bucket) \}\<close>.\<close>

definition ensure_bucket_finalizer :: "'w env \<Rightarrow> ('w, unit) bucket_prog" where
  "ensure_bucket_finalizer E =
     bind (gets obj) (\<lambda>bucket.
       (let (didAdd, meta') = AddFinalizer (b_meta bucket) ProtectionFinalizer
        in seq (upd_obj (\<lambda>_. bucket\<lparr>b_meta := meta'\<rparr>))
           (when_cond didAdd
             (on_err (Wrapf ''failed to add protection finalizer: %w'' [])
               (write_obj (e_UpdateBucket E) UpdateBucket)))))"

text \<open>The branch for a Bucket with a deletion timestamp.\<close>

definition bucket_sidecar_delete :: "'w env \<Rightarrow> ('w, unit) bucket_prog" where
  "bucket_sidecar_delete E =
     seq (upd_obj (\<lambda>bucket. bucket\<lparr>b_meta := RemoveFinalizer (b_meta bucket) ProtectionFinalizer\<rparr>))
     (seq (on_err (Wrapf ''failed to remove finalizer: %w'' []) (write_obj (e_UpdateBucket E) UpdateBucket))
     (fail (NonRetryableError (Some (Errorf ''deletion is not yet implemented'' [])))))"

text \<open>The last part, for dynamic and static provisioning alike: final checks and the status.\<close>

definition record_provisioned :: "'w env \<Rightarrow> provisionedBucketDetails \<Rightarrow> ('w, unit) bucket_prog" where
  "record_provisioned E provisionedBucket =
     bind (gets obj) (\<lambda>bucket.
     if pb_supportedProtos provisionedBucket = []
     then fail (NonRetryableError (Some (Errorf ''created bucket supports no protocols'' [])))
     else
       (case validateBucketSupportsProtocols (pb_supportedProtos provisionedBucket) (bSpec_Protocols (b_Spec bucket)) of
          Some e \<Rightarrow> fail (NonRetryableError (Some (Wrapf ''bucket required protocols missing: %w'' [] e)))
        | None \<Rightarrow>
            seq (upd_obj (bucket_status (\<lambda>_.
                  \<lparr>bStatus_ReadyToUse = Some True, bStatus_BucketID = pb_bucketId provisionedBucket,
                   bStatus_Protocols = pb_supportedProtos provisionedBucket,
                   bStatus_BucketInfo = pb_allProtoBucketInfo provisionedBucket, bStatus_Error = None\<rparr>)))
            (on_err (Wrapf ''failed to update Bucket status after successful bucket creation: %w'' [])
              (write_obj (e_StatusBucket E) StatusBucket))))"

definition bucket_sidecar_reconcile :: "DriverInfo \<Rightarrow> 'w env \<Rightarrow> ('w, unit) bucket_prog" where
  "bucket_sidecar_reconcile driver E =
     bind (gets obj) (\<lambda>bucket0.
     if bSpec_DriverName (b_Spec bucket0) \<noteq> di_Name driver then ret ()
     else if \<not> IsZero (DeletionTimestamp (b_meta bucket0)) then bucket_sidecar_delete E
     else
       bind (observe (e_ProtoOrder E)) (\<lambda>rank.
       (case objectProtocolListFromApiList rank (bSpec_Protocols (b_Spec bucket0)) of
          Inl e \<Rightarrow> fail (NonRetryableError (Some e))
        | Inr requiredProtos \<Rightarrow>
            (case validateDriverSupportsProtocols driver requiredProtos of
               Some e \<Rightarrow> fail (NonRetryableError (Some e))
             | None \<Rightarrow>
                 (let isStaticProvisioning = bSpec_ExistingBucketID (b_Spec bucket0) \<noteq> ''''
                  in seq (ensure_bucket_finalizer E)
                     (bind (gets obj) (\<lambda>bucket.
                      bind (if isStaticProvisioning
                            then staticProvision E
                              \<lparr>sp_existingBucketID = bSpec_ExistingBucketID (b_Spec bucket), sp_requiredProtos = requiredProtos,
                               sp_parameters = bSpec_Parameters (b_Spec bucket), sp_claimRef = bSpec_BucketClaimRef (b_Spec bucket)\<rparr>
                            else dynamicProvision E
                              \<lparr>dp_bucketName = Name (b_meta bucket), dp_requiredProtos = requiredProtos,
                               dp_parameters = bSpec_Parameters (b_Spec bucket), dp_claimRef = bSpec_BucketClaimRef (b_Spec bucket)\<rparr>)
                      (record_provisioned E))))))))"

definition bucket_sidecar_Reconcile :: "DriverInfo \<Rightarrow> 'w env \<Rightarrow> NamespacedName \<Rightarrow> ('w, outcome) bucket_prog" where
  "bucket_sidecar_Reconcile driver E req =
     handle (ask (e_GetBucket E req) (GetBucket req))
       (\<lambda>e. if IsNotFound e then ret Success else ret (Requeue e))
       (\<lambda>bucket0.
          seq (upd_obj (\<lambda>_. bucket0))
          (handle (bucket_sidecar_reconcile driver E)
            (\<lambda>err.
               seq (upd_obj bucket_ready_default)
               (bind (observe (e_Now E)) (\<lambda>now.
                seq (upd_obj (bucket_status (\<lambda>st. st\<lparr>bStatus_Error := Some (NewTimestampedError now (Error err))\<rparr>)))
                (handle (write_obj (e_StatusBucket E) StatusBucket)
                  (\<lambda>updErr. ret (Requeue err))
                  (\<lambda>_. ret (if is_nonretryable err then Terminal err else Requeue err))))))
            (\<lambda>_.
               bind (gets obj) (\<lambda>bucket.
                 if bStatus_Error (b_Status bucket) \<noteq> None \<and> \<not> IsZero (DeletionTimestamp (b_meta bucket)) then
                   seq (upd_obj bucket_ready_default)
                   (seq (upd_obj (bucket_status (\<lambda>st. st\<lparr>bStatus_Error := None\<rparr>)))
                   (handle (write_obj (e_StatusBucket E) StatusBucket)
                     (\<lambda>updErr. ret (Requeue updErr))
                     (\<lambda>_. ret Success)))
                 else ret Success))))"

subsection \<open>What the reconciler may do\<close>

text \<open>
  The policy of the Bucket reconciler of a driver's Sidecar:
  \<^item> it changes the Bucket object only to add the finalizer, or to give it up when the Bucket is deleting,
    and only for a Bucket of its driver;
  \<^item> it asks the driver only for a Bucket of the driver that is not deleting, after the finalizer was
    stored, with protocols the driver supports, by creation when the Bucket names no existing
    backend bucket and by lookup when it does, with exactly the Bucket's name, parameters and
    protocols;
  \<^item> it makes a Bucket ready only by the driver's answer: with the ID, the protocols and the variables
    of that answer, and every protocol the spec requires among them.
\<close>

definition created_bucket :: "call \<Rightarrow> (DriverCreateBucketRequest \<times> DriverCreateBucketResponse) option" where
  "created_bucket c = (case c of DriverCreateBucket q r \<Rightarrow> map_option (Pair q) (good r) | _ \<Rightarrow> None)"

definition found_bucket :: "call \<Rightarrow> (DriverGetExistingBucketRequest \<times> DriverGetExistingBucketResponse) option" where
  "found_bucket c = (case c of DriverGetExistingBucket q r \<Rightarrow> map_option (Pair q) (good r) | _ \<Rightarrow> None)"

text \<open>The status holds what a driver's answer says.\<close>

definition reports :: "string \<Rightarrow> ObjectProtocolAndBucketInfo option \<Rightarrow> BucketStatus \<Rightarrow> bool" where
  "reports bucketId answer s \<longleftrightarrow>
     bStatus_BucketID s = bucketId \<and> bucketId \<noteq> '''' \<and>
     (\<exists>b. answer = Some b \<and>
        bStatus_Protocols s = present_protocols b \<and>
        map_of (bStatus_BucketInfo s) = vars_of S3BucketInfoTranslator (opbi_S3 b) ++
          vars_of AzureBucketInfoTranslator (opbi_Azure b) ++ vars_of GcsBucketInfoTranslator (opbi_Gcs b))"

definition provisioned :: "call list \<Rightarrow> Bucket \<Rightarrow> bool" where
  "provisioned h b \<longleftrightarrow>
     bStatus_Protocols (b_Status b) \<noteq> [] \<and> set (bSpec_Protocols (b_Spec b)) \<subseteq> set (bStatus_Protocols (b_Status b)) \<and>
     (saw created_bucket (\<lambda>(q, r). reports (cbr_BucketId r) (cbr_Protocols r) (b_Status b)) h \<or>
      saw found_bucket (\<lambda>(q, r). reports (ger_BucketId r) (ger_Protocols r) (b_Status b)) h)"

definition bucket_kept :: "Bucket \<Rightarrow> Bucket \<Rightarrow> bool" where
  "bucket_kept old new \<longleftrightarrow>
     bStatus_BucketID (b_Status new) = bStatus_BucketID (b_Status old) \<and>
     bStatus_Protocols (b_Status new) = bStatus_Protocols (b_Status old) \<and>
     bStatus_BucketInfo (b_Status new) = bStatus_BucketInfo (b_Status old) \<and>
     (bStatus_ReadyToUse (b_Status new) = Some True \<longrightarrow> bStatus_ReadyToUse (b_Status old) = Some True)"

definition bucket_status_ok :: "call list \<Rightarrow> Bucket \<Rightarrow> bool" where
  "bucket_status_ok h new \<longleftrightarrow> saw seen_bucket (\<lambda>old. bucket_kept old new) h \<or> provisioned h new"

definition bucket_update_ok :: "DriverInfo \<Rightarrow> call list \<Rightarrow> Bucket \<Rightarrow> bool" where
  "bucket_update_ok d h b' = saw got_bucket (\<lambda>b. bSpec_DriverName (b_Spec b) = di_Name d \<and>
     (if deleting (b_meta b) then b' = b\<lparr>b_meta := RemoveFinalizer (b_meta b) ProtectionFinalizer\<rparr>
      else b' = b\<lparr>b_meta := snd (AddFinalizer (b_meta b) ProtectionFinalizer)\<rparr>)) h"

text \<open>A Bucket that the driver may be asked about, with the protocols of the request, and the Bucket as
  it is after the finalizer was stored.\<close>

definition provisionable :: "DriverInfo \<Rightarrow> call list \<Rightarrow> ObjectProtocolMsg list \<Rightarrow> bool \<Rightarrow> (Bucket \<Rightarrow> bool) \<Rightarrow> bool" where
  "provisionable d h protos static P \<longleftrightarrow>
     saw got_bucket (\<lambda>b. bSpec_DriverName (b_Spec b) = di_Name d \<and> \<not> deleting (b_meta b) \<and>
       (bSpec_ExistingBucketID (b_Spec b) \<noteq> '''') = static \<and>
       map ObjectProtocol_RpcToApi (map op_Type protos) = map Inr (bSpec_Protocols (b_Spec b)) \<and>
       set (map op_Type protos) \<subseteq> set (di_SupportedProtocols d) \<and>
       (if ContainsFinalizer (b_meta b) ProtectionFinalizer then P b
        else saw updated_bucket (\<lambda>(b1, b2).
               b1 = b\<lparr>b_meta := snd (AddFinalizer (b_meta b) ProtectionFinalizer)\<rparr> \<and> P b2) h)) h"

definition bucket_policy :: "DriverInfo \<Rightarrow> call list \<Rightarrow> call \<Rightarrow> bool" where
  "bucket_policy d h c =
     (case c of
        GetBucket _ _ \<Rightarrow> True
      | UpdateBucket b _ \<Rightarrow> bucket_update_ok d h b
      | StatusBucket b _ \<Rightarrow> bucket_status_ok h b
      | DriverCreateBucket q _ \<Rightarrow> provisionable d h (cbq_Protocols q) False (\<lambda>b.
          cbq_Name q = Name (b_meta b) \<and> cbq_Parameters q = bSpec_Parameters (b_Spec b) \<and>
          ref_Name (bSpec_BucketClaimRef (b_Spec b)) \<noteq> '''' \<and> ref_Namespace (bSpec_BucketClaimRef (b_Spec b)) \<noteq> '''' \<and>
          ref_UID (bSpec_BucketClaimRef (b_Spec b)) \<noteq> '''')
      | DriverGetExistingBucket q _ \<Rightarrow> provisionable d h (geq_Protocols q) True (\<lambda>b.
          geq_ExistingBucketId q = bSpec_ExistingBucketID (b_Spec b) \<and> geq_Parameters q = bSpec_Parameters (b_Spec b) \<and>
          ref_Name (bSpec_BucketClaimRef (b_Spec b)) \<noteq> '''' \<and> ref_Namespace (bSpec_BucketClaimRef (b_Spec b)) \<noteq> '''')
      | _ \<Rightarrow> False)"

definition bucket_inv :: "DriverInfo \<Rightarrow> call list \<Rightarrow> Bucket \<Rightarrow> bool" where
  "bucket_inv d h ob \<longleftrightarrow> allowed (bucket_policy d) h \<and> bucket_status_ok h ob"

subsection \<open>Lemmas on the pure parts\<close>

lemma not_Inl_iff: "(\<forall>e. r \<noteq> Inl e) \<longleftrightarrow> (\<exists>x. r = Inr x)"
  by (cases r) auto

lemma objectProtocolListFromApiList_Inr:
  assumes "objectProtocolListFromApiList rank l = Inr out"
  shows "map ObjectProtocol_RpcToApi (map op_Type out) = map Inr l"
proof -
  have "\<forall>a \<in> set l. \<exists>t. ObjectProtocol_ApiToRpc rank a = Inr t"
    using assms by (auto simp: objectProtocolListFromApiList_def Let_def not_Inl_iff split: if_splits sum.splits)
  moreover have "out = concat (map (\<lambda>r. case r of Inl _ \<Rightarrow> [] | Inr p \<Rightarrow> [\<lparr>op_Type = p\<rparr>]) (map (ObjectProtocol_ApiToRpc rank) l))"
    using assms by (auto simp: objectProtocolListFromApiList_def Let_def split: if_splits)
  ultimately show ?thesis
    by (induction l arbitrary: out) (auto simp: ObjectProtocol_translations [of _ _ rank])
qed

lemma validateDriverSupportsProtocols_None:
  "validateDriverSupportsProtocols d ps = None \<longleftrightarrow> set (map op_Type ps) \<subseteq> set (di_SupportedProtocols d)"
  by (auto simp: validateDriverSupportsProtocols_def Let_def filter_empty_conv SupportsProtocol_iff)

lemma validateBucketSupportsProtocols_None:
  "validateBucketSupportsProtocols s r = None \<longleftrightarrow> set r \<subseteq> set s"
  by (auto simp: validateBucketSupportsProtocols_def Let_def filter_empty_conv)

lemma BucketInfoToApi_reports:
  assumes "BucketInfoToApi rank answer None = Inr (ps, m)" and "bucketId \<noteq> ''''"
  shows "reports bucketId answer \<lparr>bStatus_ReadyToUse = ready, bStatus_BucketID = bucketId, bStatus_Protocols = ps,
     bStatus_BucketInfo = m, bStatus_Error = err\<rparr>"
  using assms(2) by (rule_tac BucketInfoToApi_Inr [OF assms(1)]) (simp add: reports_def)

lemma bucket_kept_refl [simp]: "bucket_kept b b"
  by (simp add: bucket_kept_def)

lemma provisioned_later: "provisioned h b \<Longrightarrow> provisioned (c # h) b"
  by (auto simp: provisioned_def)

lemma bucket_status_ok_later: "bucket_status_ok h b \<Longrightarrow> bucket_status_ok (c # h) b"
  by (auto simp: bucket_status_ok_def provisioned_later)

lemma bucket_status_ok_fresh: "seen_bucket c = Some b \<Longrightarrow> bucket_status_ok (c # h) b"
  by (simp add: bucket_status_ok_def)

lemma bucket_status_ok_meta [simp]: "bucket_status_ok h (b\<lparr>b_meta := m\<rparr>) = bucket_status_ok h b"
  by (simp add: bucket_status_ok_def bucket_kept_def provisioned_def)

lemma bucket_status_ok_change:
  assumes "bucket_status_ok h b" and "bucket_kept b (bucket_status f b)"
  shows "bucket_status_ok h (bucket_status f b)"
  using assms(1) unfolding bucket_status_ok_def
proof
  assume "saw seen_bucket (\<lambda>old. bucket_kept old b) h"
  then show "saw seen_bucket (\<lambda>old. bucket_kept old (bucket_status f b)) h \<or> provisioned h (bucket_status f b)"
    using assms(2) by (intro disjI1, elim saw_mono) (auto simp: bucket_kept_def)
next
  assume "provisioned h b"
  then have "provisioned h (bucket_status f b)"
    using assms(2) by (simp add: provisioned_def bucket_kept_def reports_def bucket_status_def)
  then show "saw seen_bucket (\<lambda>old. bucket_kept old (bucket_status f b)) h \<or> provisioned h (bucket_status f b)" ..
qed

lemma bucket_status_ok_ready_default [simp]: "bucket_status_ok h b \<Longrightarrow> bucket_status_ok h (bucket_ready_default b)"
  unfolding bucket_ready_default_def
  by (erule bucket_status_ok_change) (simp add: bucket_kept_def bucket_status_def split: option.splits)

lemma bucket_status_ok_error [simp]: "bucket_status_ok h b \<Longrightarrow> bucket_status_ok h (bucket_status (bStatus_Error_update g) b)"
  by (erule bucket_status_ok_change) (simp add: bucket_kept_def bucket_status_def)

subsection \<open>The steps keep to the policy\<close>

lemmas bucket_inv_simps = bucket_inv_def bucket_policy_def bucket_status_ok_later bucket_status_ok_fresh selectors
  created_bucket_def found_bucket_def

text \<open>What provisioning leaves: the details come from a driver's answer.\<close>

definition answered :: "call list \<Rightarrow> provisionedBucketDetails \<Rightarrow> bool" where
  "answered h d \<longleftrightarrow> (\<forall>b. pb_supportedProtos d \<noteq> [] \<longrightarrow> set (bSpec_Protocols (b_Spec b)) \<subseteq> set (pb_supportedProtos d) \<longrightarrow>
     provisioned h (bucket_status (\<lambda>_. \<lparr>bStatus_ReadyToUse = Some True, bStatus_BucketID = pb_bucketId d,
       bStatus_Protocols = pb_supportedProtos d, bStatus_BucketInfo = pb_allProtoBucketInfo d, bStatus_Error = None\<rparr>) b))"

lemma vc_check_provisioned:
  assumes "bucket_inv d h ob"
    and "saw created_bucket (\<lambda>(q, r). cbr_BucketId r = i \<and> cbr_Protocols r = answer) h \<or>
         saw found_bucket (\<lambda>(q, r). ger_BucketId r = i \<and> ger_Protocols r = answer) h"
  shows "vc (check_provisioned E t1 t2 i answer) (\<lambda>p h' ob'. bucket_inv d h' ob' \<and> ob' = ob \<and> answered h' p) (\<lambda>_. bucket_inv d) h ob"
proof -
  have "answered h \<lparr>pb_bucketId = i, pb_supportedProtos = ps, pb_allProtoBucketInfo = m\<rparr>"
    if "i \<noteq> ''''" and "BucketInfoToApi rank answer None = Inr (ps, m)" for rank ps m
  proof -
    have r: "reports i answer \<lparr>bStatus_ReadyToUse = Some True, bStatus_BucketID = i, bStatus_Protocols = ps,
       bStatus_BucketInfo = m, bStatus_Error = None\<rparr>" (is "reports i answer ?s")
      using that by (intro BucketInfoToApi_reports)
    have "saw created_bucket (\<lambda>(q, r). reports (cbr_BucketId r) (cbr_Protocols r) ?s) h \<or>
      saw found_bucket (\<lambda>(q, r). reports (ger_BucketId r) (ger_Protocols r) ?s) h"
      using assms(2) by (rule disj_forward) (use r in \<open>auto elim!: saw_mono\<close>)
    then show ?thesis by (simp add: answered_def provisioned_def bucket_status_def)
  qed
  then show ?thesis unfolding check_provisioned_def using assms(1)
    by (intro vc_intros) (simp_all add: bucket_inv_simps)
qed

lemma vc_dynamicProvision:
  assumes "bucket_inv d h ob"
    and "ref_Name (dp_claimRef p) \<noteq> '''' \<Longrightarrow> ref_Namespace (dp_claimRef p) \<noteq> '''' \<Longrightarrow> ref_UID (dp_claimRef p) \<noteq> '''' \<Longrightarrow>
      bucket_policy d h (DriverCreateBucket \<lparr>cbq_Name = dp_bucketName p, cbq_Protocols = dp_requiredProtos p,
        cbq_Parameters = dp_parameters p\<rparr> r)"
  shows "vc (dynamicProvision E p) (\<lambda>p h' ob'. bucket_inv d h' ob' \<and> ob' = ob \<and> answered h' p) (\<lambda>_. bucket_inv d) h ob"
  unfolding dynamicProvision_def Let_def
  using assms by (intro vc_intros vc_check_provisioned) (simp_all add: bucket_inv_simps)

lemma vc_staticProvision:
  assumes "bucket_inv d h ob"
    and "ref_Name (sp_claimRef p) \<noteq> '''' \<Longrightarrow> ref_Namespace (sp_claimRef p) \<noteq> '''' \<Longrightarrow>
      bucket_policy d h (DriverGetExistingBucket \<lparr>geq_ExistingBucketId = sp_existingBucketID p,
        geq_Protocols = sp_requiredProtos p, geq_Parameters = sp_parameters p\<rparr> r)"
  shows "vc (staticProvision E p) (\<lambda>p h' ob'. bucket_inv d h' ob' \<and> ob' = ob \<and> answered h' p) (\<lambda>_. bucket_inv d) h ob"
  unfolding staticProvision_def Let_def
  using assms by (intro vc_intros vc_check_provisioned) (simp_all add: bucket_inv_simps)

lemma vc_record_provisioned:
  assumes "bucket_inv d h ob" and "answered h p"
  shows "vc (record_provisioned E p) (\<lambda>_. bucket_inv d) (\<lambda>_. bucket_inv d) h ob"
  unfolding record_provisioned_def
  using assms by (intro vc_intros)
    (simp_all add: bucket_inv_simps bucket_status_ok_def answered_def validateBucketSupportsProtocols_None provisioned_later)

text \<open>The Bucket after the finalizer was ensured: as it was read, or as it was stored.\<close>

definition finalizer_ensured :: "call list \<Rightarrow> Bucket \<Rightarrow> Bucket \<Rightarrow> bool" where
  "finalizer_ensured h b b' \<longleftrightarrow>
     (if ContainsFinalizer (b_meta b) ProtectionFinalizer then b' = b
      else saw updated_bucket (\<lambda>(b1, b2).
             b1 = b\<lparr>b_meta := snd (AddFinalizer (b_meta b) ProtectionFinalizer)\<rparr> \<and> b2 = b') h)"

lemma vc_ensure_bucket_finalizer:
  assumes "bucket_inv d h ob" and "saw got_bucket ((=) ob) h" and "bSpec_DriverName (b_Spec ob) = di_Name d"
    and "\<not> deleting (b_meta ob)"
  shows "vc (ensure_bucket_finalizer E)
     (\<lambda>_ h' ob'. bucket_inv d h' ob' \<and> saw got_bucket ((=) ob) h' \<and> finalizer_ensured h' ob ob') (\<lambda>_. bucket_inv d) h ob"
proof -
  have "bucket_update_ok d h (ob\<lparr>b_meta := snd (AddFinalizer (b_meta ob) ProtectionFinalizer)\<rparr>)"
    unfolding bucket_update_ok_def by (rule know_saw [OF assms(2)]) (simp add: assms(3,4))
  then show ?thesis
    unfolding ensure_bucket_finalizer_def Let_def
    using assms by (intro vc_intros)
      (auto simp: bucket_inv_simps finalizer_ensured_def AddFinalizer_def ContainsFinalizer_def split: if_splits)
qed

lemma provisionableI:
  assumes "saw got_bucket ((=) b) h" and "finalizer_ensured h b b'" and "P b'"
    and "bSpec_DriverName (b_Spec b) = di_Name d" and "\<not> deleting (b_meta b)"
    and "(bSpec_ExistingBucketID (b_Spec b) \<noteq> '''') = static"
    and "objectProtocolListFromApiList rank (bSpec_Protocols (b_Spec b)) = Inr protos"
    and "validateDriverSupportsProtocols d protos = None"
  shows "provisionable d h protos static P"
  unfolding provisionable_def
  by (rule know_saw [OF assms(1)])
    (use assms(2-) objectProtocolListFromApiList_Inr [OF assms(7)] in
      \<open>auto simp: validateDriverSupportsProtocols_None finalizer_ensured_def elim!: saw_mono split: if_splits\<close>)

lemma vc_bucket_sidecar_delete:
  assumes "bucket_inv d h ob" and "saw got_bucket ((=) ob) h" and "bSpec_DriverName (b_Spec ob) = di_Name d"
    and "deleting (b_meta ob)"
  shows "vc (bucket_sidecar_delete E) (\<lambda>_. bucket_inv d) (\<lambda>_. bucket_inv d) h ob"
proof -
  have "bucket_update_ok d h (ob\<lparr>b_meta := RemoveFinalizer (b_meta ob) ProtectionFinalizer\<rparr>)"
    unfolding bucket_update_ok_def by (rule know_saw [OF assms(2)]) (simp add: assms(3,4))
  then show ?thesis
    unfolding bucket_sidecar_delete_def using assms by (intro vc_intros) (auto simp: bucket_inv_simps)
qed

lemma vc_bucket_sidecar_reconcile:
  assumes "bucket_inv d h ob" and "saw got_bucket ((=) ob) h"
  shows "vc (bucket_sidecar_reconcile d E) (\<lambda>_. bucket_inv d) (\<lambda>_. bucket_inv d) h ob"
  unfolding bucket_sidecar_reconcile_def Let_def
  using assms
  by (intro vc_intros vc_bucket_sidecar_delete vc_ensure_bucket_finalizer [THEN vc_mono]
      vc_staticProvision [THEN vc_mono] vc_dynamicProvision [THEN vc_mono] vc_record_provisioned)
    (auto simp: deleting_def bucket_policy_def intro: provisionableI)

lemma bucket_sidecar_Reconcile_allowed:
  "allowed (bucket_policy d) (trace (bucket_sidecar_Reconcile d E req) (start ob w))"
  unfolding bucket_sidecar_Reconcile_def
  by (rule trace_allowedI, intro vc_intros vc_bucket_sidecar_reconcile [THEN vc_mono]) (auto simp: bucket_inv_simps)

subsection \<open>The shell\<close>

text \<open>When a run has succeeded: the Bucket does not exist, it is another driver's and was only read, or the last call stored
  a status without error; and no other call failed.\<close>

definition bucket_fine :: "DriverInfo \<Rightarrow> call list \<Rightarrow> bool" where
  "bucket_fine d h \<longleftrightarrow>
     unfailed (\<lambda>c. case c of GetBucket _ _ \<Rightarrow> True | _ \<Rightarrow> False) h \<and>
     (case h of
        GetBucket _ (Inl _) # _ \<Rightarrow> True
      | [GetBucket _ (Inr b)] \<Rightarrow> bSpec_DriverName (b_Spec b) \<noteq> di_Name d
      | StatusBucket b (Inr _) # _ \<Rightarrow> bStatus_Error (b_Status b) = None
      | _ \<Rightarrow> False)"

text \<open>The two ends of \<open>Reconcile\<close>.\<close>

definition bucket_report :: "'w env \<Rightarrow> gerror \<Rightarrow> ('w, outcome) bucket_prog" where
  "bucket_report E err =
     seq (upd_obj bucket_ready_default)
     (bind (observe (e_Now E)) (\<lambda>now.
      seq (upd_obj (bucket_status (\<lambda>st. st\<lparr>bStatus_Error := Some (NewTimestampedError now (Error err))\<rparr>)))
      (handle (write_obj (e_StatusBucket E) StatusBucket)
        (\<lambda>updErr. ret (Requeue err))
        (\<lambda>_. ret (if is_nonretryable err then Terminal err else Requeue err)))))"

definition bucket_finish :: "'w env \<Rightarrow> ('w, outcome) bucket_prog" where
  "bucket_finish E =
     bind (gets obj) (\<lambda>bucket.
       if bStatus_Error (b_Status bucket) \<noteq> None \<and> \<not> IsZero (DeletionTimestamp (b_meta bucket)) then
         seq (upd_obj bucket_ready_default)
         (seq (upd_obj (bucket_status (\<lambda>st. st\<lparr>bStatus_Error := None\<rparr>)))
         (handle (write_obj (e_StatusBucket E) StatusBucket)
           (\<lambda>updErr. ret (Requeue updErr))
           (\<lambda>_. ret Success)))
       else ret Success)"

abbreviation bucket_unfailed :: "call list \<Rightarrow> bool" where
  "bucket_unfailed \<equiv> unfailed (\<lambda>c. case c of GetBucket _ _ \<Rightarrow> True | _ \<Rightarrow> False)"

lemma bucket_fine_unfailed: "bucket_fine d h \<Longrightarrow> bucket_unfailed h"
  by (simp add: bucket_fine_def)

lemma bucket_finalizer_unfailed:
  "bucket_unfailed h \<Longrightarrow> vc (ensure_bucket_finalizer E) (\<lambda>_ h ob. bucket_unfailed h) (\<lambda>_ _ _. True) h ob"
  unfolding ensure_bucket_finalizer_def Let_def by (intro vc_intros) simp_all

lemma provision_unfailed:
  "bucket_unfailed h \<Longrightarrow> vc (staticProvision E sp) (\<lambda>_ h ob. bucket_unfailed h) (\<lambda>_ _ _. True) h ob"
  "bucket_unfailed h \<Longrightarrow> vc (dynamicProvision E dp) (\<lambda>_ h ob. bucket_unfailed h) (\<lambda>_ _ _. True) h ob"
  unfolding staticProvision_def dynamicProvision_def check_provisioned_def Let_def by (intro vc_intros; simp)+

lemma record_provisioned_fine:
  "bucket_unfailed h \<Longrightarrow> vc (record_provisioned E pb) (\<lambda>_ h ob. bucket_fine d h) (\<lambda>_ _ _. True) h ob"
  unfolding record_provisioned_def by (intro vc_intros) (simp_all add: bucket_fine_def bucket_status_def)

lemma bucket_sidecar_reconcile_fine:
  "vc (bucket_sidecar_reconcile d E) (\<lambda>_ h ob. bucket_fine d h) (\<lambda>_ _ _. True) [GetBucket req (Inr b)] b"
  unfolding bucket_sidecar_reconcile_def bucket_sidecar_delete_def Let_def
  by (intro vc_intros bucket_finalizer_unfailed [THEN vc_mono] provision_unfailed [THEN vc_mono] record_provisioned_fine)
    (simp_all add: bucket_fine_def)

interpretation bucket_sidecar_rec: reconciler "bucket_sidecar_Reconcile d" e_GetBucket GetBucket "\<lambda>_. True"
  "bucket_sidecar_reconcile d" "\<lambda>e. e" bucket_report bucket_finish "bucket_fine d" for d
proof
  show "bucket_sidecar_Reconcile d E req =
      handle (ask (e_GetBucket E req) (GetBucket req)) (\<lambda>e. if IsNotFound e then ret Success else ret (Requeue e))
        (\<lambda>x. if True then seq (upd_obj (\<lambda>_. x))
           (handle (bucket_sidecar_reconcile d E) (bucket_report E) (\<lambda>_. bucket_finish E)) else ret Success)" for E :: "'w env" and req
    by (simp add: bucket_sidecar_Reconcile_def bucket_report_def [abs_def] bucket_finish_def)
  show "vc (bucket_report E e) (\<lambda>r h ob. r \<in> {Terminal e, Requeue e} \<and> outcome_ok (bucket_fine d) r h) (\<lambda>_ _ _. False) h0 ob0"
    for E :: "'w env" and e h0 ob0
    unfolding bucket_report_def by (intro vc_intros) (simp_all add: bucket_status_def)
  show "vc (bucket_finish E) (\<lambda>r h ob. outcome_ok (bucket_fine d) r h) (\<lambda>_ _ _. False) h0 ob0" if "bucket_fine d h0"
    for E :: "'w env" and h0 ob0
    unfolding bucket_finish_def using bucket_fine_unfailed [OF that] that
    by (intro vc_intros) (simp_all add: bucket_fine_def bucket_status_def)
  show "vc (bucket_sidecar_reconcile d E) (\<lambda>_ h ob. bucket_fine d h) (\<lambda>_ _ _. True) [GetBucket req (Inr x)] x" for E :: "'w env" and req x
    by (rule bucket_sidecar_reconcile_fine)
qed (simp_all add: bucket_fine_def)

subsection \<open>Properties\<close>

lemma bucket_sidecar_Reconcile_keeps:
  "(\<And>h c. bucket_policy d h c \<Longrightarrow> R h c) \<Longrightarrow> allowed R (trace (bucket_sidecar_Reconcile d E req) (start ob w))"
  by (rule allowed_mono [OF bucket_sidecar_Reconcile_allowed])

text \<open>C18. A status the Sidecar writes to a Bucket keeps the ID, the protocols and the bucket info it had and does
  not make it ready, or is what the driver answered to a call of this run: the ID (not empty), the
  protocols and the variables of the answer, with every protocol the Bucket requires among them.\<close>

theorem bucket_ready_only_by_driver:
  "allowed (\<lambda>h c. case c of StatusBucket b _ \<Rightarrow> bucket_status_ok h b | _ \<Rightarrow> True)
     (trace (bucket_sidecar_Reconcile d E req) (start ob w))"
  by (rule bucket_sidecar_Reconcile_keeps) (simp add: bucket_policy_def split: call.splits)

text \<open>C19. The Sidecar asks its driver to create or look up a backend bucket only for a Bucket of this driver that
  is not deleting, whose protocols the driver supports and whose finalizer is stored, with exactly the
  Bucket's name (or existing ID), protocols and parameters; by creation when the Bucket names no
  existing backend bucket and is fully bound to a claim, by lookup when it names one.\<close>

theorem bucket_driver_calls:
  "allowed (\<lambda>h c. case c of
       DriverCreateBucket q _ \<Rightarrow> provisionable d h (cbq_Protocols q) False (\<lambda>b.
          cbq_Name q = Name (b_meta b) \<and> cbq_Parameters q = bSpec_Parameters (b_Spec b) \<and>
          '''' \<notin> {ref_Name (bSpec_BucketClaimRef (b_Spec b)), ref_Namespace (bSpec_BucketClaimRef (b_Spec b)),
                 ref_UID (bSpec_BucketClaimRef (b_Spec b))})
     | DriverGetExistingBucket q _ \<Rightarrow> provisionable d h (geq_Protocols q) True (\<lambda>b.
          geq_ExistingBucketId q = bSpec_ExistingBucketID (b_Spec b) \<and> geq_Parameters q = bSpec_Parameters (b_Spec b) \<and>
          '''' \<notin> {ref_Name (bSpec_BucketClaimRef (b_Spec b)), ref_Namespace (bSpec_BucketClaimRef (b_Spec b))})
     | _ \<Rightarrow> True) (trace (bucket_sidecar_Reconcile d E req) (start ob w))"
  by (rule bucket_sidecar_Reconcile_keeps) (simp add: bucket_policy_def eq_commute [of "[]"] split: call.splits)

text \<open>The Sidecar changes a Bucket object only to add the finalizer, or to remove it when the Bucket is
  deleting, and only for a Bucket of its driver; besides Buckets it writes nothing.\<close>

lemma bucket_updates:
  "allowed (\<lambda>h c. case c of
       GetBucket _ _ \<Rightarrow> True | StatusBucket _ _ \<Rightarrow> True | DriverCreateBucket _ _ \<Rightarrow> True | DriverGetExistingBucket _ _ \<Rightarrow> True
     | UpdateBucket b _ \<Rightarrow> bucket_update_ok d h b
     | _ \<Rightarrow> False) (trace (bucket_sidecar_Reconcile d E req) (start ob w))"
  by (rule bucket_sidecar_Reconcile_keeps) (simp add: bucket_policy_def split: call.splits)

lemma objectProtocolListFromApiList_known:
  assumes "\<forall>p \<in> set l. \<exists>t \<in> S. ObjectProtocol_RpcToApi t = Inr p"
  obtains out where "objectProtocolListFromApiList rank l = Inr out" and "set (map op_Type out) \<subseteq> S"
proof -
  define f where "f = (\<lambda>p. case ObjectProtocol_ApiToRpc rank p of Inl _ \<Rightarrow> undefined | Inr t \<Rightarrow> t)"
  have f: "ObjectProtocol_ApiToRpc rank p = Inr (f p) \<and> f p \<in> S" if "p \<in> set l" for p
    using assms that by (auto simp: f_def ObjectProtocol_translations [of _ _ rank])
  then have eq: "map (ObjectProtocol_ApiToRpc rank) l = map (\<lambda>p. Inr (f p)) l" by simp
  have "objectProtocolListFromApiList rank l = Inr (map (\<lambda>p. \<lparr>op_Type = f p\<rparr>) l)"
    unfolding objectProtocolListFromApiList_def Let_def eq by (simp add: comp_def concat_map_singleton)
  then show ?thesis using that f by force
qed

text \<open>The API server stores every write of a Bucket as it is given.\<close>

definition stores_buckets :: "'w env \<Rightarrow> bool" where
  "stores_buckets E \<longleftrightarrow> (\<forall>b w. fst (e_UpdateBucket E b w) = Inr b \<and> fst (e_StatusBucket E b w) = Inr b)"

text \<open>Dynamic provisioning completes: when a Bucket of the driver is bound to a claim and requires only
  protocols the driver supports, the API server stores what it is given, and the driver answers with an
  ID and with every required protocol, then one run succeeds, and its last call stores a status that is
  ready, with that ID and exactly the protocols of the answer.\<close>

lemma bucket_provisioning_completes:
  assumes "\<And>w. fst (e_GetBucket E req w) = Inr b" and "stores_buckets E"
    and "bSpec_DriverName (b_Spec b) = di_Name d" and "\<not> deleting (b_meta b)" and "bSpec_ExistingBucketID (b_Spec b) = ''''"
    and "'''' \<notin> {ref_Name (bSpec_BucketClaimRef (b_Spec b)), ref_Namespace (bSpec_BucketClaimRef (b_Spec b)),
      ref_UID (bSpec_BucketClaimRef (b_Spec b))}"
    and "\<forall>p \<in> set (bSpec_Protocols (b_Spec b)). \<exists>t \<in> set (di_SupportedProtocols d). ObjectProtocol_RpcToApi t = Inr p"
    and "\<And>q w. fst (e_DriverCreateBucket E q w) = Inr \<lparr>cbr_BucketId = i, cbr_Protocols = Some info\<rparr>" and "i \<noteq> ''''"
    and "present_protocols info \<noteq> []" and "set (bSpec_Protocols (b_Spec b)) \<subseteq> set (present_protocols info)"
  shows "outcome_of (bucket_sidecar_Reconcile d E req) (start ob w) = Inr Success \<and>
    (\<exists>b' h. trace (bucket_sidecar_Reconcile d E req) (start ob w) = StatusBucket b' (Inr b') # h \<and>
       bStatus_ReadyToUse (b_Status b') = Some True \<and> bStatus_BucketID (b_Status b') = i \<and>
       bStatus_Protocols (b_Status b') = present_protocols info)"
proof -
  let ?done = "\<lambda>r h. r = Success \<and> (\<exists>b' t. h = StatusBucket b' (Inr b') # t \<and>
       bStatus_ReadyToUse (b_Status b') = Some True \<and> bStatus_BucketID (b_Status b') = i \<and>
       bStatus_Protocols (b_Status b') = present_protocols info)"
  have upd: "fst (e_UpdateBucket E b w) = Inr b" and stat: "fst (e_StatusBucket E b w) = Inr b" for b w
    using assms(2) by (simp_all add: stores_buckets_def)
  have protos: "objectProtocolListFromApiList rank (bSpec_Protocols (b_Spec b)) \<noteq> Inl e" for rank e
    using assms(7) by (rule objectProtocolListFromApiList_known [of _ _ rank]) simp
  have supported: "validateDriverSupportsProtocols d out = None"
    if "objectProtocolListFromApiList rank (bSpec_Protocols (b_Spec b)) = Inr out" for rank out
    using assms(7) by (rule objectProtocolListFromApiList_known [of _ _ rank])
      (use that in \<open>simp add: validateDriverSupportsProtocols_None\<close>)
  have info: "BucketInfoToApi rank (Some info) None \<noteq> Inl e"
    "BucketInfoToApi rank (Some info) None = Inr (ps, m) \<Longrightarrow> ps = present_protocols info" for rank e ps m
    using BucketInfoToApi_exists [of rank info None ps] BucketInfoToApi_succeeds [of rank info None]
    by (auto simp: acceptable_def)
  have final: "validateBucketSupportsProtocols (present_protocols info) (bSpec_Protocols (b_Spec b)) = None"
    using assms(11) by (simp add: validateBucketSupportsProtocols_None)
  have "vc (bucket_sidecar_Reconcile d E req) (\<lambda>r h ob. ?done r h) (\<lambda>_ _ _. False) [] ob"
    unfolding bucket_sidecar_Reconcile_def bucket_sidecar_reconcile_def ensure_bucket_finalizer_def dynamicProvision_def
      check_provisioned_def record_provisioned_def Let_def
    using assms(3-6,9-11)
    by (intro vc_steps vc_ask_known [OF assms(1)] vc_ask_known [OF assms(8)] vc_write_obj_known [OF upd] vc_write_obj_known [OF stat])
      (auto simp: protos supported info final deleting_def AddFinalizer_def bucket_status_def split: if_splits dest: info(2))
  then show ?thesis
    using vc_total [of "bucket_sidecar_Reconcile d E req" "\<lambda>r h ob. ?done r h" "start ob w"] by auto
qed

text \<open>A Bucket ready to be provisioned, a driver, and an environment for it.\<close>

definition sample_meta :: "string \<Rightarrow> string \<Rightarrow> ObjectMeta" where
  "sample_meta ns name = \<lparr>Name = name, Namespace = ns, UID = ''uid-'' @ name, ResourceVersion = 1, Generation = 1,
     DeletionTimestamp = None, Finalizers = [], Annotations = [], OwnerReferences = []\<rparr>"

definition sample_bucket :: Bucket where
  "sample_bucket =
     \<lparr>b_meta = sample_meta '''' ''bc-1'',
      b_Spec = \<lparr>bSpec_DriverName = ''driver'', bSpec_DeletionPolicy = BucketDeletionPolicyDelete, bSpec_Parameters = [],
        bSpec_Protocols = [ObjectProtocolAzure],
        bSpec_BucketClaimRef = \<lparr>ref_Name = ''claim'', ref_Namespace = ''ns'', ref_UID = ''1''\<rparr>, bSpec_ExistingBucketID = ''''\<rparr>,
      b_Status = \<lparr>bStatus_ReadyToUse = None, bStatus_BucketID = '''', bStatus_Protocols = [], bStatus_BucketInfo = [],
        bStatus_Error = None\<rparr>\<rparr>"

definition sample_driver :: DriverInfo where
  "sample_driver = \<lparr>di_Name = ''driver'', di_SupportedProtocols = [ObjectProtocol_AZURE]\<rparr>"

definition sample_info :: ObjectProtocolAndBucketInfo where
  "sample_info = \<lparr>opbi_S3 = None, opbi_Azure = Some \<lparr>az_StorageAccount = ''store''\<rparr>, opbi_Gcs = None\<rparr>"

text \<open>An API server that knows one Bucket and stores what it is given, and a driver that creates.\<close>

definition sample_env :: "unit env" where
  "sample_env =
     \<lparr>e_GetClaim = (\<lambda>_ w. (Inl (StatusError ReasonNotFound ''not found''), w)),
      e_GetBucket = (\<lambda>_ w. (Inr sample_bucket, w)),
      e_GetClass = (\<lambda>_ w. (Inl (StatusError ReasonNotFound ''not found''), w)),
      e_GetAccess = (\<lambda>_ w. (Inl (StatusError ReasonNotFound ''not found''), w)),
      e_GetAccessClass = (\<lambda>_ w. (Inl (StatusError ReasonNotFound ''not found''), w)),
      e_GetSecret = (\<lambda>_ w. (Inl (StatusError ReasonNotFound ''not found''), w)),
      e_UpdateClaim = (\<lambda>x w. (Inr x, w)), e_UpdateBucket = (\<lambda>x w. (Inr x, w)), e_UpdateAccess = (\<lambda>x w. (Inr x, w)),
      e_UpdateSecret = (\<lambda>x w. (Inr x, w)), e_StatusClaim = (\<lambda>x w. (Inr x, w)), e_StatusBucket = (\<lambda>x w. (Inr x, w)),
      e_StatusAccess = (\<lambda>x w. (Inr x, w)), e_CreateBucket = (\<lambda>x w. (Inr x, w)), e_CreateSecret = (\<lambda>x w. (Inr x, w)),
      e_DeleteBucket = (\<lambda>_ w. (Inr (), w)), e_DeleteSecret = (\<lambda>_ w. (Inr (), w)), e_ListAccesses = (\<lambda>_ w. (Inr [], w)),
      e_DriverCreateBucket = (\<lambda>_ w. (Inr \<lparr>cbr_BucketId = ''backend'', cbr_Protocols = Some sample_info\<rparr>, w)),
      e_DriverGetExistingBucket = (\<lambda>_ w. (Inl (RpcError codes_NotFound ''''), w)),
      e_DriverGrantBucketAccess = (\<lambda>_ w. (Inl (RpcError codes_Unimplemented ''''), w)),
      e_DriverRevokeBucketAccess = (\<lambda>_ w. (Inr (), w)),
      e_Now = (\<lambda>w. (1, w)), e_Order = (\<lambda>w. (\<lambda>_. 0, w)), e_ProtoOrder = (\<lambda>w. (\<lambda>_. 0, w))\<rparr>"

lemma bucket_provisioning_completes_witness:
  "outcome_of (bucket_sidecar_Reconcile sample_driver sample_env \<lparr>nn_Namespace = '''', nn_Name = ''bc-1''\<rparr>) (start sample_bucket ()) = Inr Success"
  using bucket_provisioning_completes [of sample_env "\<lparr>nn_Namespace = '''', nn_Name = ''bc-1''\<rparr>" sample_bucket sample_driver "''backend''" sample_info sample_bucket "()"]
  by (simp add: sample_env_def sample_bucket_def sample_driver_def sample_info_def sample_meta_def stores_buckets_def deleting_def
      IsZero_def present_protocols_def ObjectProtocol_RpcToApi_def objectProtocolProtoApiMapping_def api_consts rpc_consts)

end
