(* ===== verification/Access_Controller.thy ===== *)
theory Access_Controller
  imports Work_Queue Handoff "HOL-Library.List_Lexorder" "HOL-Library.Char_ord"
begin

text \<open>
  \<open>controller/pkg/reconciler/bucketaccess.go\<close>: the Controller's BucketAccess reconciler. It marks the
  claims a BucketAccess references, waits until all are provisioned, copies what the driver's Sidecar
  needs into the status (which hands the BucketAccess over), and after the Sidecar's cleanup removes the
  marks nobody else needs and the finalizer.
\<close>

type_synonym ('w, 'a) access_prog = "(('w, BucketAccess) st, 'a) prog"
type_synonym claims_by_name = "(string, BucketClaim option) gomap"
type_synonym buckets_by_claim = "(string, Bucket option) gomap"

subsection \<open>Pure parts\<close>

text \<open>\<open>%v\<close> of a map from strings to ints: the keys in order.\<close>

definition counts_text :: "(string, nat) gomap \<Rightarrow> string" where
  "counts_text m =
     ''map['' @ join_with '' '' (map (\<lambda>k. k @ '':'' @ nat_str (case map_of m k of None \<Rightarrow> 0 | Some n \<Rightarrow> n)) (sort (gkeys m))) @ '']''"

fun count_refs :: "BucketClaimAccess list \<Rightarrow> (string, nat) gomap \<Rightarrow> bool \<Rightarrow> (string, nat) gomap \<times> bool" where
  "count_refs [] claimCounts doErr = (claimCounts, doErr)"
| "count_refs (ref # refs) claimCounts doErr =
     (case map_of claimCounts (bca_BucketClaimName ref) of
        None \<Rightarrow> count_refs refs (gput (bca_BucketClaimName ref) 1 claimCounts) doErr
      | Some n \<Rightarrow> count_refs refs (gput (bca_BucketClaimName ref) (n + 1) claimCounts) True)"

definition validateAllBucketClaimReferencesUnique :: "BucketClaimAccess list \<Rightarrow> gerror option" where
  "validateAllBucketClaimReferencesUnique claimAccesses =
     (let (claimCounts, doErr) = count_refs claimAccesses [] False
      in if doErr
         then Some (NonRetryableError (Some (Errorf
                ''one or more BucketClaims are referenced multiple times, with reference counts: %v''
                [AText (counts_text claimCounts)])))
         else None)"

definition hasBucketAccessReferences :: "string \<Rightarrow> BucketAccess list \<Rightarrow> string \<Rightarrow> bool" where
  "hasBucketAccessReferences claimName accesses ignoreReferenceFromAccessName =
     list_ex (\<lambda>access.
        (if Name (ba_meta access) = ignoreReferenceFromAccessName then False
         else list_ex (\<lambda>ref. bca_BucketClaimName ref = claimName) (baSpec_BucketClaims (ba_Spec access)))) accesses"

definition ValidateAccessAgainstClass :: "BucketAccessClassSpec \<Rightarrow> BucketAccessSpec \<Rightarrow> gerror option" where
  "ValidateAccessAgainstClass cls access =
     (let needServiceAccount = (baclSpec_AuthenticationType cls = BucketAccessAuthenticationTypeServiceAccount);
          errs =
            (if needServiceAccount \<and> baSpec_ServiceAccountName access = ''''
             then [Errorf ''serviceAccountName must be specified'' []] else []) @
            (if \<not> SupportsMultiBucketAccess cls \<and> length (baSpec_BucketClaims access) > 1
             then [Errorf ''multi-bucket access is disallowed'' []] else []) @
            concat (map (\<lambda>claimRef.
              if bca_AccessMode claimRef \<in> set (baclSpec_DisallowedBucketAccessModes cls)
              then [Errorf ''accessMode %q requested for BucketClaim %q is disallowed''
                      [AStr (bca_AccessMode claimRef), AStr (bca_BucketClaimName claimRef)]] else [])
              (baSpec_BucketClaims access))
      in if errs \<noteq> [] then Some (Wrapf ''one or more features are disallowed by the BucketAccessClass: %w'' [] (Join errs))
         else None)"

definition cannotAccessBucketClaims :: "(string \<Rightarrow> nat) \<Rightarrow> claims_by_name \<Rightarrow> BucketAccessSpec \<Rightarrow> string list" where
  "cannotAccessBucketClaims rank claimsByName spec =
     concat (map (\<lambda>(name, claim).
       (case claim of
          None \<Rightarrow> []
        | Some c \<Rightarrow>
            (if \<not> IsZero (DeletionTimestamp (bc_meta c))
             then [sprintf ''stuck: data integrity for deleting BucketClaim %q is not guaranteed'' [AStr name]] else []) @
            (if bcStatus_Protocols (bc_Status c) \<noteq> [] \<and> baSpec_Protocol spec \<notin> set (bcStatus_Protocols (bc_Status c))
             then [sprintf ''BucketClaim %q does not support protocol %q'' [AStr name, AStr (baSpec_Protocol spec)]] else [])))
       (range_map rank claimsByName))"

text \<open>The message for one claim of the loop, if there is something to wait for.\<close>

definition claim_wait_msgs :: "buckets_by_claim \<Rightarrow> string \<Rightarrow> BucketClaim option \<Rightarrow> string list" where
  "claim_wait_msgs bucketsByClaimName claimName claim =
     (case claim of
        None \<Rightarrow> [sprintf ''waiting for BucketClaim %q to exist'' [AStr claimName]]
      | Some c \<Rightarrow>
          if bcStatus_BoundBucketName (bc_Status c) = ''''
          then [sprintf ''waiting for BucketClaim %q to be bound to a Bucket'' [AStr claimName]]
          else
            (case map_of bucketsByClaimName claimName of
               None \<Rightarrow> [sprintf ''internal error: missing Bucket %q for BucketClaim %q''
                          [AStr (bcStatus_BoundBucketName (bc_Status c)), AStr claimName]]
             | Some None \<Rightarrow> [sprintf ''waiting for Bucket %q for BucketClaim %q to exist''
                          [AStr (bcStatus_BoundBucketName (bc_Status c)), AStr claimName]]
             | Some (Some bucket) \<Rightarrow>
                 if bStatus_BucketID (b_Status bucket) = ''''
                 then [sprintf ''waiting for Bucket %q for BucketClaim %q to finish provisioning''
                         [AStr (bcStatus_BoundBucketName (bc_Status c)), AStr claimName]]
                 else if bcStatus_ReadyToUse (bc_Status c) \<noteq> Some True
                 then [sprintf ''waiting for BucketClaim %q to finish provisioning Bucket %q''
                         [AStr claimName, AStr (bcStatus_BoundBucketName (bc_Status c))]]
                 else []))"

definition waitingOnBucketClaims :: "(string \<Rightarrow> nat) \<Rightarrow> claims_by_name \<Rightarrow> buckets_by_claim \<Rightarrow> string list" where
  "waitingOnBucketClaims rank claimsByName bucketsByClaimName =
     concat (map (\<lambda>(claimName, claim). claim_wait_msgs bucketsByClaimName claimName claim) (range_map rank claimsByName))"

fun compile_loop ::
  "buckets_by_claim \<Rightarrow> BucketClaimAccess list \<Rightarrow> AccessedBucket list \<Rightarrow> string list \<Rightarrow>
   gerror + AccessedBucket list \<times> string list" where
  "compile_loop bucketsByClaimName [] accessedBuckets missingIds = Inr (accessedBuckets, missingIds)"
| "compile_loop bucketsByClaimName (ref # refs) accessedBuckets missingIds =
     (case map_of bucketsByClaimName (bca_BucketClaimName ref) of
        Some (Some bucket) \<Rightarrow>
          if bStatus_BucketID (b_Status bucket) = '''' then
            compile_loop bucketsByClaimName refs
              (accessedBuckets @ [\<lparr>ab_BucketName = '''', ab_BucketID = '''', ab_BucketClaimName = ''''\<rparr>])
              (missingIds @ [bca_BucketClaimName ref])
          else
            compile_loop bucketsByClaimName refs
              (accessedBuckets @ [\<lparr>ab_BucketName = Name (b_meta bucket), ab_BucketID = bStatus_BucketID (b_Status bucket),
                                   ab_BucketClaimName = bca_BucketClaimName ref\<rparr>]) missingIds
      | _ \<Rightarrow> Inl (Errorf ''internal error: missing Bucket for BucketClaim %q'' [AStr (bca_BucketClaimName ref)]))"

definition compileAccessedBuckets ::
  "BucketClaimAccess list \<Rightarrow> buckets_by_claim \<Rightarrow> gerror + AccessedBucket list" where
  "compileAccessedBuckets claimAccesses bucketsByClaimName =
     (case compile_loop bucketsByClaimName claimAccesses [] [] of
        Inl e \<Rightarrow> Inl e
      | Inr (accessedBuckets, missingIds) \<Rightarrow>
          if missingIds \<noteq> [] then Inl (Errorf ''one or more Buckets are missing IDs: %v'' [AErrs missingIds])
          else Inr accessedBuckets)"

subsection \<open>Steps with effects\<close>

definition getAllBucketClaims :: "'w env \<Rightarrow> string \<Rightarrow> BucketClaimAccess list \<Rightarrow> ('w, claims_by_name) access_prog" where
  "getAllBucketClaims E namespace claimAccesses =
     bind (foldM (\<lambda>ref (claims, errs).
        (let nsName = \<lparr>nn_Namespace = namespace, nn_Name = bca_BucketClaimName ref\<rparr>
         in handle (ask (e_GetClaim E nsName) (GetClaim nsName))
              (\<lambda>e. if IsNotFound e then ret (gput (bca_BucketClaimName ref) None claims, errs)
                   else ret (claims, errs @ [e]))
              (\<lambda>c. ret (gput (bca_BucketClaimName ref) (Some c) claims, errs)))) claimAccesses ([], []))
     (\<lambda>(claims, errs).
        if errs \<noteq> [] then fail (Wrapf ''could not get one or more BucketClaims: %w'' [] (Join errs)) else ret claims)"

definition mark_accessed :: "BucketClaim \<Rightarrow> BucketClaim" where
  "mark_accessed c = c\<lparr>bc_meta := (bc_meta c)\<lparr>Annotations :=
     gput HasBucketAccessReferencesAnnotation '''' (Annotations (bc_meta c))\<rparr>\<rparr>"

definition unmark_accessed :: "BucketClaim \<Rightarrow> BucketClaim" where
  "unmark_accessed c = c\<lparr>bc_meta := (bc_meta c)\<lparr>Annotations :=
     gdel HasBucketAccessReferencesAnnotation (Annotations (bc_meta c))\<rparr>\<rparr>"

text \<open>The claims are shared by pointer with the caller, so the updated map is the result.\<close>

definition markAllBucketClaimsAsAccessed :: "'w env \<Rightarrow> claims_by_name \<Rightarrow> ('w, claims_by_name) access_prog" where
  "markAllBucketClaimsAsAccessed E claimsByName =
     bind (observe (e_Order E)) (\<lambda>rank.
     bind (foldM (\<lambda>(name, claim) (claims, errs).
        (case claim of
           None \<Rightarrow> ret (claims, errs)
         | Some c \<Rightarrow>
             if ghas (Annotations (bc_meta c)) HasBucketAccessReferencesAnnotation then ret (claims, errs)
             else
               (let marked = mark_accessed c
                in handle (ask (e_UpdateClaim E marked) (UpdateClaim marked))
                     (\<lambda>e. ret (gput name (Some marked) claims, errs @ [e]))
                     (\<lambda>stored. ret (gput name (Some stored) claims, errs)))))
        (range_map rank claimsByName) (claimsByName, []))
     (\<lambda>(claims, errs).
        if errs \<noteq> []
        then fail (Wrapf ''failed to mark one or more BucketClaims as having a BucketAccess reference: %w'' [] (Join errs))
        else ret claims))"

definition unmarkUnaccessedBucketClaims ::
  "'w env \<Rightarrow> claims_by_name \<Rightarrow> BucketAccess list \<Rightarrow> string \<Rightarrow> ('w, string list) access_prog" where
  "unmarkUnaccessedBucketClaims E claimsByName accesses ignoreReferenceFromAccessName =
     bind (observe (e_Order E)) (\<lambda>rank.
     bind (foldM (\<lambda>(name, claim) (unmarked, errs).
        (case claim of
           None \<Rightarrow> ret (unmarked, errs)
         | Some c \<Rightarrow>
             if \<not> ghas (Annotations (bc_meta c)) HasBucketAccessReferencesAnnotation then ret (unmarked, errs)
             else if hasBucketAccessReferences (Name (bc_meta c)) accesses ignoreReferenceFromAccessName
             then ret (unmarked, errs)
             else
               (let cleared = unmark_accessed c
                in handle (ask (e_UpdateClaim E cleared) (UpdateClaim cleared))
                     (\<lambda>e. ret (unmarked @ [Name (bc_meta c)], errs @ [e]))
                     (\<lambda>stored. ret (unmarked @ [Name (bc_meta c)], errs)))))
        (range_map rank claimsByName) ([], []))
     (\<lambda>(unmarked, errs).
        if errs \<noteq> []
        then fail (Wrapf ''failed to unmark one or more BucketClaims without referencing BucketAccesses: %w'' [] (Join errs))
        else ret unmarked))"

definition getBucketsForClaims :: "'w env \<Rightarrow> claims_by_name \<Rightarrow> ('w, buckets_by_claim) access_prog" where
  "getBucketsForClaims E claimsByName =
     bind (observe (e_Order E)) (\<lambda>rank.
     bind (foldM (\<lambda>(claimName, claim) (buckets, errs).
        (case claim of
           None \<Rightarrow> ret (gput claimName None buckets, errs)
         | Some c \<Rightarrow>
             if bcStatus_BoundBucketName (bc_Status c) = '''' then ret (gput claimName None buckets, errs)
             else
               (let nsName = \<lparr>nn_Namespace = '''', nn_Name = bcStatus_BoundBucketName (bc_Status c)\<rparr>
                in handle (ask (e_GetBucket E nsName) (GetBucket nsName))
                     (\<lambda>e. if IsNotFound e
                          then ret (buckets, errs @ [NonRetryableError (Some (Wrapf
                                 ''unrecoverable degradation: Bucket %q for BucketClaim %q has gone missing: %w''
                                 [AStr (bcStatus_BoundBucketName (bc_Status c)), AStr claimName] e))])
                          else ret (buckets, errs @ [e]))
                     (\<lambda>b. ret (gput claimName (Some b) buckets, errs)))))
        (range_map rank claimsByName) ([], []))
     (\<lambda>(buckets, errs).
        if errs \<noteq> [] then fail (Wrapf ''could not get one or more Buckets: %w'' [] (Join errs))
        else if length buckets \<noteq> length claimsByName
        then fail (Errorf ''did not get one or more Buckets, but no errors observed'' [])
        else ret buckets))"

definition access_status :: "(BucketAccessStatus \<Rightarrow> BucketAccessStatus) \<Rightarrow> BucketAccess \<Rightarrow> BucketAccess" where
  "access_status f access = access\<lparr>ba_Status := f (ba_Status access)\<rparr>"

definition access_ready_default :: "BucketAccess \<Rightarrow> BucketAccess" where
  "access_ready_default = access_status (\<lambda>st.
     (case baStatus_ReadyToUse st of None \<Rightarrow> st\<lparr>baStatus_ReadyToUse := Some False\<rparr> | Some _ \<Rightarrow> st))"

text \<open>\<open>didAdd := AddFinalizer(access, ...); if didAdd \{ r.Update(access) \}\<close>, in both reconcilers of
  BucketAccess.\<close>

definition ensure_access_finalizer :: "'w env \<Rightarrow> ('w, unit) access_prog" where
  "ensure_access_finalizer E =
     bind (gets obj) (\<lambda>access.
       (let (didAdd, meta') = AddFinalizer (ba_meta access) ProtectionFinalizer
        in seq (upd_obj (\<lambda>_. access\<lparr>ba_meta := meta'\<rparr>))
           (when_cond didAdd
             (on_err (Wrapf ''failed to add protection finalizer: %w'' [])
               (write_obj (e_UpdateAccess E) UpdateAccess)))))"

subsection \<open>Deletion\<close>

definition access_controller_reconcileDelete :: "'w env \<Rightarrow> ('w, unit) access_prog" where
  "access_controller_reconcileDelete E =
     bind (gets obj) (\<lambda>access.
     bind (getAllBucketClaims E (Namespace (ba_meta access)) (baSpec_BucketClaims (ba_Spec access))) (\<lambda>claimsByName.
     bind (ask (e_ListAccesses E (Namespace (ba_meta access))) (ListAccesses (Namespace (ba_meta access)))) (\<lambda>accessList.
     bind (unmarkUnaccessedBucketClaims E claimsByName accessList (Name (ba_meta access))) (\<lambda>unmarked.
     seq (upd_obj (\<lambda>a. a\<lparr>ba_meta := RemoveFinalizer (ba_meta a) ProtectionFinalizer\<rparr>))
     (on_err (Wrapf ''failed to remove finalizer: %w'' []) (write_obj (e_UpdateAccess E) UpdateAccess))))))"

subsection \<open>Reconciliation\<close>

text \<open>The part after the claims are marked: check against the class and the claims, then hand over.\<close>

definition access_initialize :: "'w env \<Rightarrow> claims_by_name \<Rightarrow> ('w, unit) access_prog" where
  "access_initialize E claimsByName =
     bind (gets obj) (\<lambda>access.
     (let classNsName = \<lparr>nn_Namespace = '''', nn_Name = baSpec_BucketAccessClassName (ba_Spec access)\<rparr>
      in bind (ask (e_GetAccessClass E classNsName) (GetAccessClass classNsName)) (\<lambda>cls.
         (case ValidateAccessAgainstClass (bacl_Spec cls) (ba_Spec access) of
            Some e \<Rightarrow> fail (NonRetryableError (Some e))
          | None \<Rightarrow>
              bind (getBucketsForClaims E claimsByName) (\<lambda>bucketsByClaimName.
              bind (observe (e_Order E)) (\<lambda>rank1.
              (let blockers = cannotAccessBucketClaims rank1 claimsByName (ba_Spec access)
               in if blockers \<noteq> []
                  then fail (NonRetryableError (Some (Errorf
                         ''access cannot be provisioned for one or more BucketClaims: %v'' [AErrs blockers])))
                  else
                    bind (observe (e_Order E)) (\<lambda>rank2.
                    (let waitlist = waitingOnBucketClaims rank2 claimsByName bucketsByClaimName
                     in if waitlist \<noteq> []
                        then fail (Errorf ''waiting for prerequisites before provisioning access: %v'' [AErrs waitlist])
                        else
                          (case compileAccessedBuckets (baSpec_BucketClaims (ba_Spec access)) bucketsByClaimName of
                             Inl e \<Rightarrow> fail (Wrapf ''waiting for BucketClaims to finish provisioning: %w'' [] e)
                           | Inr accessedBuckets \<Rightarrow>
                               seq (upd_obj access_ready_default)
                               (seq (upd_obj (access_status (\<lambda>st. st\<lparr>
                                       baStatus_AccessedBuckets := accessedBuckets,
                                       baStatus_DriverName := baclSpec_DriverName (bacl_Spec cls),
                                       baStatus_AuthenticationType := baclSpec_AuthenticationType (bacl_Spec cls),
                                       baStatus_Parameters := baclSpec_Parameters (bacl_Spec cls),
                                       baStatus_Error := None\<rparr>)))
                               (write_obj (e_StatusAccess E) StatusAccess))))))))))))"

definition access_controller_reconcile :: "'w env \<Rightarrow> ('w, unit) access_prog" where
  "access_controller_reconcile E =
     bind (gets obj) (\<lambda>access0.
     if \<not> IsZero (DeletionTimestamp (ba_meta access0)) then access_controller_reconcileDelete E
     else
       (case SidecarRequirementsPresent (ba_Status access0) of
          Inl e \<Rightarrow> fail (NonRetryableError (Some (Wrapf ''processed a degraded BucketAccess: %w'' [] e)))
        | Inr initialized \<Rightarrow>
            if initialized
            then fail (NonRetryableError (Some (Errorf ''processed a BucketAccess that should be managed by COSI Sidecar'' [])))
            else
              seq (ensure_access_finalizer E)
              (bind (gets obj) (\<lambda>access.
               (case validateAllBucketClaimReferencesUnique (baSpec_BucketClaims (ba_Spec access)) of
                  Some e \<Rightarrow> fail e
                | None \<Rightarrow>
                    bind (getAllBucketClaims E (Namespace (ba_meta access)) (baSpec_BucketClaims (ba_Spec access))) (\<lambda>claims0.
                    bind (markAllBucketClaimsAsAccessed E claims0) (\<lambda>claimsByName.
                    if baStatus_AccessedBuckets (ba_Status access) \<noteq> [] then ret ()
                    else access_initialize E claimsByName)))))))"

definition access_controller_Reconcile :: "'w env \<Rightarrow> NamespacedName \<Rightarrow> ('w, outcome) access_prog" where
  "access_controller_Reconcile E req =
     handle (ask (e_GetAccess E req) (GetAccess req))
       (\<lambda>e. if IsNotFound e then ret Success else ret (Requeue e))
       (\<lambda>access0.
          if ManagedBySidecar access0 then ret Success
          else
            seq (upd_obj (\<lambda>_. access0))
            (handle (access_controller_reconcile E)
              (\<lambda>err0.
                 (let err = Wrapf ''COSI Controller error: %w'' [] err0
                  in seq (upd_obj access_ready_default)
                     (bind (observe (e_Now E)) (\<lambda>now.
                      seq (upd_obj (access_status (\<lambda>st. st\<lparr>baStatus_Error := Some (NewTimestampedError now (Error err))\<rparr>)))
                      (handle (write_obj (e_StatusAccess E) StatusAccess)
                        (\<lambda>updErr. ret (Requeue err))
                        (\<lambda>_. ret (if is_nonretryable err then Terminal err else Requeue err)))))))
              (\<lambda>_. ret Success)))"

subsection \<open>What the reconciler may do\<close>

text \<open>
  The policy of the access reconciler:
  \<^item> a claim is changed only to add the mark (a claim not marked yet) or, for a deleting access, to
    remove the mark of a claim that no other listed access references;
  \<^item> the finalizer of an access is given up only when it is deleting and the marks of all claims that
    nobody else references were removed;
  \<^item> a status write changes what the Sidecar needs only as a whole and once: from the class, which the
    access satisfies, and with every claim ready, not deleting, of the right protocol, and bound to a
    Bucket with the recorded name and ID, in the order of the spec;
  \<^item> a status write never makes an access ready and never touches the account ID.
\<close>

text \<open>A name in a namespace.\<close>

abbreviation in_ns :: "string \<Rightarrow> string \<Rightarrow> NamespacedName" where
  "in_ns ns name \<equiv> \<lparr>nn_Namespace = ns, nn_Name = name\<rparr>"

text \<open>The claim of a key as the reconciler knows it: as it was read, or as it was stored when it was
  marked.\<close>

definition claim_known :: "call list \<Rightarrow> NamespacedName \<Rightarrow> (BucketClaim \<Rightarrow> bool) \<Rightarrow> bool" where
  "claim_known h key P = saw (got_claim_at key) (\<lambda>c1. P c1 \<or>
     saw updated_claim (\<lambda>(x, c2). x = mark_accessed c1 \<and> P c2) h) h"

abbreviation accessed_marked :: "BucketClaim \<Rightarrow> bool" where
  "accessed_marked c \<equiv> ghas (Annotations (bc_meta c)) HasBucketAccessReferencesAnnotation"

definition access_claim_update_ok :: "call list \<Rightarrow> BucketClaim \<Rightarrow> bool" where
  "access_claim_update_ok h c' = saw seen_access (\<lambda>a. list_ex (\<lambda>ref.
     saw (got_claim_at (in_ns (Namespace (ba_meta a)) (bca_BucketClaimName ref))) (\<lambda>c.
       \<not> accessed_marked c \<and> c' = mark_accessed c \<or>
       accessed_marked c \<and> c' = unmark_accessed c \<and> deleting (ba_meta a) \<and>
         saw (listed_in (Namespace (ba_meta a))) (\<lambda>l.
           \<not> hasBucketAccessReferences (Name (bc_meta c)) l (Name (ba_meta a))) h) h)
     (baSpec_BucketClaims (ba_Spec a))) h"

text \<open>Every claim that was read, carried the mark and is referenced by no other listed access was
  stored without it.\<close>

definition all_unmarked :: "call list \<Rightarrow> BucketAccess list \<Rightarrow> string \<Rightarrow> NamespacedName \<Rightarrow> bool" where
  "all_unmarked h l self key = (\<exists>c. saw (got_claim_at key) ((=) c) h \<and>
     (accessed_marked c \<and> \<not> hasBucketAccessReferences (Name (bc_meta c)) l self \<longrightarrow>
        saw updated_claim (\<lambda>(x, c2). x = unmark_accessed c) h))"

text \<open>Nothing is left to do for the claim of a key: it does not exist or has lost its mark.\<close>

definition claim_settled :: "call list \<Rightarrow> BucketAccess list \<Rightarrow> string \<Rightarrow> NamespacedName \<Rightarrow> bool" where
  "claim_settled h l self key \<longleftrightarrow> saw (missed_claim_at key) IsNotFound h \<or> all_unmarked h l self key"

definition access_update_ok :: "call list \<Rightarrow> BucketAccess \<Rightarrow> bool" where
  "access_update_ok h a' \<longleftrightarrow> ContainsFinalizer (ba_meta a') ProtectionFinalizer \<or>
     saw seen_access (\<lambda>a. deleting (ba_meta a) \<and>
       saw (listed_in (Namespace (ba_meta a))) (\<lambda>l. list_all (\<lambda>ref.
          claim_settled h l (Name (ba_meta a)) (in_ns (Namespace (ba_meta a)) (bca_BucketClaimName ref)))
         (baSpec_BucketClaims (ba_Spec a))) h) h"

definition same_handoff :: "BucketAccessStatus \<Rightarrow> BucketAccessStatus \<Rightarrow> bool" where
  "same_handoff old new \<longleftrightarrow>
     baStatus_AccessedBuckets new = baStatus_AccessedBuckets old \<and> baStatus_DriverName new = baStatus_DriverName old \<and>
     baStatus_AuthenticationType new = baStatus_AuthenticationType old \<and>
     baStatus_Parameters new = baStatus_Parameters old"

definition accessible :: "call list \<Rightarrow> string \<Rightarrow> ObjectProtocol \<Rightarrow> AccessedBucket \<Rightarrow> bool" where
  "accessible h ns protocol ab = claim_known h (in_ns ns (ab_BucketClaimName ab)) (\<lambda>c.
     bcStatus_ReadyToUse (bc_Status c) = Some True \<and> \<not> deleting (bc_meta c) \<and>
     (bcStatus_Protocols (bc_Status c) = [] \<or> protocol \<in> set (bcStatus_Protocols (bc_Status c))) \<and>
     saw (got_bucket_at (global (bcStatus_BoundBucketName (bc_Status c)))) (\<lambda>b.
       ab_BucketName ab = Name (b_meta b) \<and> ab_BucketID ab = bStatus_BucketID (b_Status b) \<and> ab_BucketID ab \<noteq> '''') h)"

definition handoff_ok :: "call list \<Rightarrow> BucketAccess \<Rightarrow> BucketAccess \<Rightarrow> bool" where
  "handoff_ok h old new \<longleftrightarrow>
     baStatus_AccessedBuckets (ba_Status old) = [] \<and>
     map ab_BucketClaimName (baStatus_AccessedBuckets (ba_Status new)) =
       map bca_BucketClaimName (baSpec_BucketClaims (ba_Spec new)) \<and>
     list_all (accessible h (Namespace (ba_meta old)) (baSpec_Protocol (ba_Spec new))) (baStatus_AccessedBuckets (ba_Status new)) \<and>
     saw (got_access_class_at (global (baSpec_BucketAccessClassName (ba_Spec new)))) (\<lambda>cls.
       ValidateAccessAgainstClass (bacl_Spec cls) (ba_Spec new) = None \<and>
       baStatus_DriverName (ba_Status new) = baclSpec_DriverName (bacl_Spec cls) \<and>
       baStatus_AuthenticationType (ba_Status new) = baclSpec_AuthenticationType (bacl_Spec cls) \<and>
       baStatus_Parameters (ba_Status new) = baclSpec_Parameters (bacl_Spec cls)) h"

definition access_kept :: "call list \<Rightarrow> BucketAccess \<Rightarrow> BucketAccess \<Rightarrow> bool" where
  "access_kept h old new \<longleftrightarrow>
     (same_handoff (ba_Status old) (ba_Status new) \<or> handoff_ok h old new) \<and>
     baStatus_AccountID (ba_Status new) = baStatus_AccountID (ba_Status old) \<and>
     (baStatus_ReadyToUse (ba_Status new) = Some True \<longrightarrow> baStatus_ReadyToUse (ba_Status old) = Some True)"

definition access_status_ok :: "call list \<Rightarrow> BucketAccess \<Rightarrow> bool" where
  "access_status_ok h new = saw seen_access (\<lambda>old. access_kept h old new) h"

definition access_policy :: "call list \<Rightarrow> call \<Rightarrow> bool" where
  "access_policy h c =
     (case c of
        GetAccess _ _ \<Rightarrow> True | GetClaim _ _ \<Rightarrow> True | GetBucket _ _ \<Rightarrow> True | GetAccessClass _ _ \<Rightarrow> True
      | ListAccesses _ _ \<Rightarrow> True
      | UpdateClaim c' _ \<Rightarrow> access_claim_update_ok h c'
      | UpdateAccess a _ \<Rightarrow> access_update_ok h a
      | StatusAccess a _ \<Rightarrow> access_status_ok h a
      | _ \<Rightarrow> False)"

definition access_inv :: "call list \<Rightarrow> BucketAccess \<Rightarrow> bool" where
  "access_inv h ob \<longleftrightarrow> allowed access_policy h \<and> access_status_ok h ob"

subsection \<open>Lemmas on what is known\<close>

lemma claim_known_mono:
  "claim_known h n P \<Longrightarrow> (\<And>c. P c \<Longrightarrow> P' c) \<Longrightarrow> set h \<subseteq> set h' \<Longrightarrow> claim_known h' n P'"
  unfolding claim_known_def by (erule saw_mono) (auto simp: saw_iff)

lemma claim_known_later: "claim_known h n P \<Longrightarrow> claim_known (x # h) n P"
  by (erule claim_known_mono) auto

lemma accessible_mono: "accessible h ns p ab \<Longrightarrow> set h \<subseteq> set h' \<Longrightarrow> accessible h' ns p ab"
  unfolding accessible_def by (erule claim_known_mono) (auto elim: saw_superset)

lemma handoff_ok_mono: "handoff_ok h old new \<Longrightarrow> set h \<subseteq> set h' \<Longrightarrow> handoff_ok h' old new"
  by (auto simp: handoff_ok_def list_all_iff intro: accessible_mono elim: saw_superset)

lemma access_status_ok_later: "access_status_ok h a \<Longrightarrow> access_status_ok (x # h) a"
  unfolding access_status_ok_def
  by (erule saw_mono) (auto simp: access_kept_def intro: handoff_ok_mono)

lemma access_status_ok_fresh: "seen_access x = Some a \<Longrightarrow> access_status_ok (x # h) a"
  by (simp add: access_status_ok_def access_kept_def same_handoff_def)

lemma access_status_ok_meta [simp]: "access_status_ok h (a\<lparr>ba_meta := m\<rparr>) = access_status_ok h a"
  by (simp add: access_status_ok_def access_kept_def handoff_ok_def)

lemma access_status_ok_ready_default [simp]: "access_status_ok h a \<Longrightarrow> access_status_ok h (access_ready_default a)"
  unfolding access_status_ok_def
  by (erule saw_mono)
    (auto simp: access_kept_def same_handoff_def handoff_ok_def access_ready_default_def access_status_def split: option.splits)

lemma access_status_ok_error [simp]: "access_status_ok h a \<Longrightarrow> access_status_ok h (access_status (baStatus_Error_update g) a)"
  unfolding access_status_ok_def
  by (erule saw_mono) (auto simp: access_kept_def same_handoff_def handoff_ok_def access_status_def)

lemmas access_inv_simps = access_inv_def access_policy_def access_status_ok_later access_status_ok_fresh
  selectors

subsection \<open>The steps keep to the policy\<close>

definition claims_read :: "call list \<Rightarrow> string \<Rightarrow> claims_by_name \<Rightarrow> bool" where
  "claims_read h ns m \<longleftrightarrow> (\<forall>n c. (n, Some c) \<in> set m \<longrightarrow> saw (got_claim_at (in_ns ns n)) ((=) c) h) \<and>
     (\<forall>n. (n, None) \<in> set m \<longrightarrow> saw (missed_claim_at (in_ns ns n)) IsNotFound h)"

definition claims_known :: "call list \<Rightarrow> string \<Rightarrow> claims_by_name \<Rightarrow> bool" where
  "claims_known h ns m \<longleftrightarrow> (\<forall>n c. (n, Some c) \<in> set m \<longrightarrow> claim_known h (in_ns ns n) ((=) c))"

lemma claims_read_later: "claims_read h ns m \<Longrightarrow> claims_read (x # h) ns m"
  by (auto simp: claims_read_def)

lemma claims_read_gput:
  "claims_read h ns m \<Longrightarrow> (case v of None \<Rightarrow> saw (missed_claim_at (in_ns ns n)) IsNotFound h
       | Some c \<Rightarrow> saw (got_claim_at (in_ns ns n)) ((=) c) h) \<Longrightarrow>
     claims_read h ns (gput n v m)"
  by (auto simp: claims_read_def dest!: in_set_gput split: option.splits)

abbreviation claim_names :: "BucketClaimAccess list \<Rightarrow> string set" where
  "claim_names refs \<equiv> bca_BucketClaimName ` set refs"

lemma vc_getAllBucketClaims:
  assumes "access_inv h ob"
  shows "vc (getAllBucketClaims E ns refs)
     (\<lambda>m h' ob'. access_inv h' ob' \<and> ob' = ob \<and> set h \<subseteq> set h' \<and> claims_read h' ns m \<and> claim_names refs = set (gkeys m))
     (\<lambda>_. access_inv) h ob"
  unfolding getAllBucketClaims_def Let_def
  apply (rule vc_bind, rule vc_foldM_prefix [where I = "\<lambda>pre (m, errs) h' ob'. access_inv h' ob' \<and> ob' = ob \<and>
      set h \<subseteq> set h' \<and> claims_read h' ns m \<and> (errs = [] \<longrightarrow> claim_names pre = set (gkeys m))"])
  subgoal by (intro vc_intros) (auto simp: access_inv_simps claims_read_gput claims_read_later gkeys_put simp del: set_map)
  subgoal using assms by (simp add: claims_read_def)
  subgoal by (intro vc_intros) auto
  done

lemma claims_known_gput:
  "claims_known h ns m \<Longrightarrow> claim_known h (in_ns ns n) ((=) c) \<Longrightarrow> claims_known h ns (gput n (Some c) m)"
  by (auto simp: claims_known_def dest!: in_set_gput)

lemma claims_known_later: "claims_known h ns m \<Longrightarrow> claims_known (x # h) ns m"
  by (auto simp: claims_known_def intro: claim_known_later)

lemma claims_read_known: "claims_read h ns m \<Longrightarrow> claims_known h ns m"
  unfolding claims_read_def claims_known_def claim_known_def by (auto elim!: know_saw)

lemma claim_known_stored:
  "saw (got_claim_at key) ((=) c) h \<Longrightarrow> claim_known (UpdateClaim (mark_accessed c) (Inr stored) # h) key ((=) stored)"
  unfolding claim_known_def by (rule saw_later, erule know_saw) (simp add: updated_claim_def)

lemma claims_readD:
  "claims_read h ns m \<Longrightarrow> (n, Some c) \<in> set m \<Longrightarrow> saw (got_claim_at (in_ns ns n)) ((=) c) h"
  by (auto simp: claims_read_def)

text \<open>A change of a claim is judged for one of the references of the access.\<close>

lemma access_claim_update_okI:
  assumes "saw seen_access ((=) a) h" and "claim_names (baSpec_BucketClaims (ba_Spec a)) = set (gkeys m)"
    and "claims_read h (Namespace (ba_meta a)) m" and "(n, Some c) \<in> set m"
    and "\<not> accessed_marked c \<and> c' = mark_accessed c \<or>
       accessed_marked c \<and> c' = unmark_accessed c \<and> deleting (ba_meta a) \<and>
         saw (listed_in (Namespace (ba_meta a))) (\<lambda>l. \<not> hasBucketAccessReferences (Name (bc_meta c)) l (Name (ba_meta a))) h"
  shows "access_claim_update_ok h c'"
proof -
  have "n \<in> set (gkeys m)" using assms(4) by force
  then obtain ref where ref: "ref \<in> set (baSpec_BucketClaims (ba_Spec a))" "n = bca_BucketClaimName ref"
    using assms(2) by blast
  show ?thesis
    unfolding access_claim_update_ok_def list_ex_iff
    by (rule know_saw [OF assms(1)], rule bexI [OF _ ref(1)],
        rule know_saw [OF claims_readD [OF assms(3,4), unfolded ref(2)]], rule assms(5))
qed

lemma vc_markAll:
  assumes "access_inv h ob" and "saw seen_access ((=) a) h" and "claims_read h (Namespace (ba_meta a)) m"
    and "claim_names (baSpec_BucketClaims (ba_Spec a)) = set (gkeys m)"
  shows "vc (markAllBucketClaimsAsAccessed E m)
     (\<lambda>m' h' ob'. access_inv h' ob' \<and> ob' = ob \<and> set h \<subseteq> set h' \<and> claims_known h' (Namespace (ba_meta a)) m')
     (\<lambda>_. access_inv) h ob"
  unfolding markAllBucketClaimsAsAccessed_def Let_def
  apply (intro vc_bind vc_observe, rule vc_foldM [where I = "\<lambda>(m', errs) h' ob'. access_inv h' ob' \<and> ob' = ob \<and>
      set h \<subseteq> set h' \<and> saw seen_access ((=) a) h' \<and> claims_read h' (Namespace (ba_meta a)) m \<and>
      (errs = [] \<longrightarrow> claims_known h' (Namespace (ba_meta a)) m')"])
  subgoal by (intro vc_intros)
    (auto simp: access_inv_simps claims_known_gput claims_known_later claims_read_later claim_known_stored
      dest: claims_readD intro: access_claim_update_okI [OF _ assms(4)])
  subgoal using assms by (simp add: claims_read_known)
  subgoal by (intro vc_intros) auto
  done

definition buckets_read :: "call list \<Rightarrow> claims_by_name \<Rightarrow> buckets_by_claim \<Rightarrow> bool" where
  "buckets_read h m bs \<longleftrightarrow> (\<forall>n b. (n, Some b) \<in> set bs \<longrightarrow>
     (\<exists>c. (n, Some c) \<in> set m \<and> saw (got_bucket_at (global (bcStatus_BoundBucketName (bc_Status c)))) ((=) b) h))"

lemma buckets_read_later: "buckets_read h m bs \<Longrightarrow> buckets_read (x # h) m bs"
  by (simp add: buckets_read_def) blast

lemma buckets_read_gput:
  "buckets_read h m bs \<Longrightarrow> (\<And>b. v = Some b \<Longrightarrow>
     (\<exists>c. (n, Some c) \<in> set m \<and> saw (got_bucket_at (global (bcStatus_BoundBucketName (bc_Status c)))) ((=) b) h)) \<Longrightarrow>
   buckets_read h m (gput n v bs)"
  by (auto simp: buckets_read_def dest!: in_set_gput)

lemma vc_getBuckets:
  assumes "access_inv h ob" and "claims_known h ns m"
  shows "vc (getBucketsForClaims E m)
     (\<lambda>bs h' ob'. access_inv h' ob' \<and> ob' = ob \<and> claims_known h' ns m \<and> set h \<subseteq> set h' \<and> buckets_read h' m bs) (\<lambda>_. access_inv) h ob"
  unfolding getBucketsForClaims_def Let_def
  apply (intro vc_bind vc_observe, rule vc_foldM [where I = "\<lambda>(bs, errs) h' ob'. access_inv h' ob' \<and> ob' = ob \<and>
      set h \<subseteq> set h' \<and> claims_known h' ns m \<and> buckets_read h' m bs"])
  subgoal by (intro vc_intros)
    (auto simp: access_inv_simps claims_known_later buckets_read_later global_def intro!: buckets_read_gput)
  subgoal using assms by (simp add: buckets_read_def)
  subgoal by (intro vc_intros) auto
  done

lemma compile_loop_Inr:
  assumes "compile_loop bs refs out missing = Inr (out', [])"
  shows "missing = [] \<and> (\<exists>acc_bs. out' = out @ acc_bs \<and> map ab_BucketClaimName acc_bs = map bca_BucketClaimName refs \<and>
     (\<forall>ab \<in> set acc_bs. \<exists>b. (ab_BucketClaimName ab, Some b) \<in> set bs \<and> map_of bs (ab_BucketClaimName ab) = Some (Some b) \<and>
        ab_BucketName ab = Name (b_meta b) \<and> ab_BucketID ab = bStatus_BucketID (b_Status b) \<and> ab_BucketID ab \<noteq> ''''))"
  using assms
proof (induction bs refs out missing rule: compile_loop.induct)
  case (2 bs ref refs out missing)
  obtain b where b: "map_of bs (bca_BucketClaimName ref) = Some (Some b)" "bStatus_BucketID (b_Status b) \<noteq> ''''"
    using 2 by (auto split: option.splits if_splits)
  then have "(bca_BucketClaimName ref, Some b) \<in> set bs" by (auto dest: map_of_SomeD)
  then show ?case using 2 b by fastforce
qed simp

lemma compileAccessedBuckets_Inr:
  assumes "compileAccessedBuckets refs bs = Inr acc_bs"
  shows "map ab_BucketClaimName acc_bs = map bca_BucketClaimName refs \<and>
     (\<forall>ab \<in> set acc_bs. \<exists>b. (ab_BucketClaimName ab, Some b) \<in> set bs \<and> map_of bs (ab_BucketClaimName ab) = Some (Some b) \<and>
        ab_BucketName ab = Name (b_meta b) \<and> ab_BucketID ab = bStatus_BucketID (b_Status b) \<and> ab_BucketID ab \<noteq> '''')"
  using assms compile_loop_Inr [of bs refs "[]" "[]"]
  by (auto simp: compileAccessedBuckets_def split: sum.splits if_splits)

lemma waiting_Nil:
  "waitingOnBucketClaims rank m bs = [] \<longleftrightarrow> (\<forall>n c. (n, c) \<in> set m \<longrightarrow> claim_wait_msgs bs n c = [])"
  by (auto simp: waitingOnBucketClaims_def)

lemma claim_wait_msgs_Nil:
  "claim_wait_msgs bs n (Some c) = [] \<longleftrightarrow> bcStatus_BoundBucketName (bc_Status c) \<noteq> '''' \<and>
     bcStatus_ReadyToUse (bc_Status c) = Some True \<and>
     (\<exists>b. map_of bs n = Some (Some b) \<and> bStatus_BucketID (b_Status b) \<noteq> '''')"
  by (auto simp: claim_wait_msgs_def split: option.splits)

lemma cannotAccess_Nil:
  "cannotAccessBucketClaims rank m spec = [] \<longleftrightarrow> (\<forall>n c. (n, Some c) \<in> set m \<longrightarrow> \<not> deleting (bc_meta c) \<and>
     (bcStatus_Protocols (bc_Status c) = [] \<or> baSpec_Protocol spec \<in> set (bcStatus_Protocols (bc_Status c))))"
  (is "?msgs = [] \<longleftrightarrow> (\<forall>n c. (n, Some c) \<in> set m \<longrightarrow> ?ok c)")
proof -
  have "?msgs = [] \<longleftrightarrow> (\<forall>p \<in> set m. case snd p of None \<Rightarrow> True | Some c \<Rightarrow> ?ok c)"
    unfolding cannotAccessBucketClaims_def deleting_def
    by (simp add: case_prod_beta split: option.splits) blast
  then show ?thesis by (fastforce split: option.splits)
qed

lemma all_accessible:
  assumes "claims_known h ns m" and "buckets_read h m bs" and "cannotAccessBucketClaims rank1 m spec = []"
    and "waitingOnBucketClaims rank2 m bs = []" and "compileAccessedBuckets refs bs = Inr acc_bs"
  shows "list_all (accessible h ns (baSpec_Protocol spec)) acc_bs"
  unfolding list_all_iff
proof
  fix ab assume "ab \<in> set acc_bs"
  then obtain b where b: "(ab_BucketClaimName ab, Some b) \<in> set bs"
      "ab_BucketName ab = Name (b_meta b)" "ab_BucketID ab = bStatus_BucketID (b_Status b)" "ab_BucketID ab \<noteq> ''''"
    using compileAccessedBuckets_Inr [OF assms(5)] by blast
  then obtain c where c: "(ab_BucketClaimName ab, Some c) \<in> set m"
      "saw (got_bucket_at (global (bcStatus_BoundBucketName (bc_Status c)))) ((=) b) h"
    using assms(2) by (auto simp: buckets_read_def)
  have "claim_wait_msgs bs (ab_BucketClaimName ab) (Some c) = []" using assms(4) c(1) by (simp add: waiting_Nil)
  then have r: "bcStatus_ReadyToUse (bc_Status c) = Some True" by (simp add: claim_wait_msgs_Nil)
  have d: "\<not> deleting (bc_meta c)" "bcStatus_Protocols (bc_Status c) = [] \<or> baSpec_Protocol spec \<in> set (bcStatus_Protocols (bc_Status c))"
    using assms(3) c(1) unfolding cannotAccess_Nil by blast+
  have s: "saw (got_bucket_at (global (bcStatus_BoundBucketName (bc_Status c)))) (\<lambda>b.
       ab_BucketName ab = Name (b_meta b) \<and> ab_BucketID ab = bStatus_BucketID (b_Status b) \<and> ab_BucketID ab \<noteq> '''') h"
    by (rule know_saw [OF c(2)]) (use b in auto)
  have "claim_known h (in_ns ns (ab_BucketClaimName ab)) ((=) c)" using assms(1) c(1) by (auto simp: claims_known_def)
  then show "accessible h ns (baSpec_Protocol spec) ab"
    unfolding accessible_def by (rule claim_known_mono) (use r d s in auto)
qed

lemma handoff_status_ok:
  assumes "saw seen_access ((=) a) h" and "baStatus_AccessedBuckets (ba_Status a) = []"
    and "claims_known h (Namespace (ba_meta a)) m" and "buckets_read h m bs" and "cannotAccessBucketClaims rank1 m (ba_Spec a) = []"
    and "waitingOnBucketClaims rank2 m bs = []" and "compileAccessedBuckets (baSpec_BucketClaims (ba_Spec a)) bs = Inr acc_bs"
    and "saw (got_access_class_at (global (baSpec_BucketAccessClassName (ba_Spec a)))) ((=) cls) h" and "ValidateAccessAgainstClass (bacl_Spec cls) (ba_Spec a) = None"
  shows "access_status_ok h (access_status (\<lambda>st. st\<lparr>baStatus_AccessedBuckets := acc_bs,
       baStatus_DriverName := baclSpec_DriverName (bacl_Spec cls),
       baStatus_AuthenticationType := baclSpec_AuthenticationType (bacl_Spec cls),
       baStatus_Parameters := baclSpec_Parameters (bacl_Spec cls), baStatus_Error := None\<rparr>) (access_ready_default a))"
    (is "access_status_ok h ?new")
proof -
  have "handoff_ok h a ?new"
    using assms(2, 9) all_accessible [OF assms(3-7)] compileAccessedBuckets_Inr [OF assms(7)]
    by (auto simp: handoff_ok_def access_status_def access_ready_default_def intro!: know_saw [OF assms(8)])
  then have "access_kept h a ?new"
    by (auto simp: access_kept_def access_status_def access_ready_default_def split: option.splits)
  then show ?thesis unfolding access_status_ok_def by (rule know_saw [OF assms(1)])
qed

lemma got_access_class_in: "GetAccessClass key (Inr x) \<in> set h \<Longrightarrow> saw (got_access_class_at key) ((=) x) h"
  by (force simp: saw_iff got_access_class_at_def)

lemma vc_access_initialize:
  assumes "access_inv h ob" and "claims_known h (Namespace (ba_meta ob)) m" and "saw seen_access ((=) ob) h"
    and "baStatus_AccessedBuckets (ba_Status ob) = []"
  shows "vc (access_initialize E m) (\<lambda>_. access_inv) (\<lambda>_. access_inv) h ob"
  unfolding access_initialize_def Let_def
  using assms by (intro vc_intros vc_getBuckets [where ns = "Namespace (ba_meta ob)", THEN vc_mono])
   (auto simp: access_inv_simps claims_known_later buckets_read_later got_access_class_in global_def
      intro!: handoff_status_ok elim: saw_superset)

lemma vc_ensure_access_finalizer:
  assumes "access_inv h ob" and "saw seen_access ((=) ob) h"
  shows "vc (ensure_access_finalizer E)
     (\<lambda>_ h' ob'. access_inv h' ob' \<and> saw seen_access ((=) ob') h' \<and> set h \<subseteq> set h') (\<lambda>_. access_inv) h ob"
  unfolding ensure_access_finalizer_def Let_def
  using assms by (intro vc_intros)
    (auto simp: access_inv_simps AddFinalizer_def access_update_ok_def ContainsFinalizer_def split: if_splits)

text \<open>Progress of the loop that removes the marks: what was settled for the claims handled so far.\<close>

definition unmarked_upto :: "call list \<Rightarrow> BucketAccess list \<Rightarrow> string \<Rightarrow> (string \<times> BucketClaim option) list \<Rightarrow> bool" where
  "unmarked_upto h l self done_claims \<longleftrightarrow> (\<forall>n c. (n, Some c) \<in> set done_claims \<longrightarrow>
     accessed_marked c \<and> \<not> hasBucketAccessReferences (Name (bc_meta c)) l self \<longrightarrow>
       saw updated_claim (\<lambda>(x, c2). x = unmark_accessed c) h)"

lemma unmarked_upto_later: "unmarked_upto h l self d \<Longrightarrow> unmarked_upto (x # h) l self d"
  by (auto simp: unmarked_upto_def)

lemma unmarked_upto_Nil [simp]: "unmarked_upto h l self []"
  by (simp add: unmarked_upto_def)

lemma unmarked_upto_snoc:
  "unmarked_upto h l self (d @ [(n, v)]) \<longleftrightarrow> unmarked_upto h l self d \<and>
     (case v of None \<Rightarrow> True | Some c \<Rightarrow>
        accessed_marked c \<and> \<not> hasBucketAccessReferences (Name (bc_meta c)) l self \<longrightarrow>
          saw updated_claim (\<lambda>(x, c2). x = unmark_accessed c) h)"
  by (auto simp: unmarked_upto_def split: option.splits)

lemma in_range_map: "range_map rank m = pre @ (n, v) # post \<Longrightarrow> (n, v) \<in> set m"
  by (metis in_set_conv_decomp range_map_set)

lemma vc_unmark:
  assumes "access_inv h ob" and "saw seen_access ((=) a) h" and "claims_read h (Namespace (ba_meta a)) m"
    and "claim_names (baSpec_BucketClaims (ba_Spec a)) = set (gkeys m)"
    and "deleting (ba_meta a)" and "saw (listed_in (Namespace (ba_meta a))) ((=) l) h"
  shows "vc (unmarkUnaccessedBucketClaims E m l (Name (ba_meta a)))
     (\<lambda>_ h' ob'. access_inv h' ob' \<and> ob' = ob \<and> set h \<subseteq> set h' \<and> claims_read h' (Namespace (ba_meta a)) m \<and>
        saw seen_access ((=) a) h' \<and> saw (listed_in (Namespace (ba_meta a))) ((=) l) h' \<and>
        unmarked_upto h' l (Name (ba_meta a)) m) (\<lambda>_. access_inv) h ob"
  unfolding unmarkUnaccessedBucketClaims_def Let_def
  apply (intro vc_bind vc_observe, rule vc_foldM_prefix [where I = "\<lambda>pre (_, errs) h' ob'. access_inv h' ob' \<and> ob' = ob \<and>
      set h \<subseteq> set h' \<and> claims_read h' (Namespace (ba_meta a)) m \<and> saw seen_access ((=) a) h' \<and>
      saw (listed_in (Namespace (ba_meta a))) ((=) l) h' \<and>
      (errs = [] \<longrightarrow> unmarked_upto h' l (Name (ba_meta a)) pre)"])
  subgoal using assms(5) by (intro vc_intros)
    (auto simp: access_inv_simps claims_read_later unmarked_upto_later unmarked_upto_snoc dest: in_range_map
      intro: access_claim_update_okI [OF _ assms(4)] know_saw)
  subgoal using assms by simp
  subgoal by (intro vc_intros) (auto simp: unmarked_upto_def)
  done

lemma claims_settled:
  assumes "claims_read h ns m" and "unmarked_upto h l self m" and "n \<in> set (gkeys m)"
  shows "claim_settled h l self (in_ns ns n)"
proof -
  obtain v where v: "(n, v) \<in> set m" using assms(3) by auto
  show ?thesis
  proof (cases v)
    case None
    then show ?thesis using assms(1) v by (simp add: claims_read_def claim_settled_def)
  next
    case (Some c)
    then have "all_unmarked h l self (in_ns ns n)"
      using claims_readD [OF assms(1)] v assms(2) unfolding all_unmarked_def unmarked_upto_def by blast
    then show ?thesis by (simp add: claim_settled_def)
  qed
qed

lemma release_ok:
  assumes "claims_read h (Namespace (ba_meta a)) m" and "unmarked_upto h l (Name (ba_meta a)) m"
    and "saw seen_access ((=) a) h" and "deleting (ba_meta a)"
    and "saw (listed_in (Namespace (ba_meta a))) ((=) l) h" and "claim_names (baSpec_BucketClaims (ba_Spec a)) = set (gkeys m)"
  shows "access_update_ok h a'"
proof -
  have "list_all (\<lambda>ref. claim_settled h l (Name (ba_meta a)) (in_ns (Namespace (ba_meta a)) (bca_BucketClaimName ref)))
      (baSpec_BucketClaims (ba_Spec a))"
    unfolding list_all_iff by (intro ballI claims_settled [OF assms(1,2)]) (use assms(6) in blast)
  then have "saw (listed_in (Namespace (ba_meta a))) (\<lambda>l. list_all (\<lambda>ref.
      claim_settled h l (Name (ba_meta a)) (in_ns (Namespace (ba_meta a)) (bca_BucketClaimName ref)))
      (baSpec_BucketClaims (ba_Spec a))) h"
    by (rule know_saw [OF assms(5)])
  then show ?thesis unfolding access_update_ok_def
    using assms(4) by (intro disjI2 know_saw [OF assms(3)]) simp
qed

lemma vc_access_controller_reconcileDelete:
  assumes "access_inv h ob" and "saw seen_access ((=) ob) h" and "deleting (ba_meta ob)"
  shows "vc (access_controller_reconcileDelete E) (\<lambda>_. access_inv) (\<lambda>_. access_inv) h ob"
  unfolding access_controller_reconcileDelete_def
  using assms by (intro vc_intros vc_getAllBucketClaims [THEN vc_mono] vc_unmark [where a = ob, THEN vc_mono])
    (auto simp: access_inv_simps claims_read_later simp del: set_map elim: saw_superset intro: release_ok)

lemma vc_access_controller_reconcile:
  assumes "access_inv h ob" and "saw seen_access ((=) ob) h"
  shows "vc (access_controller_reconcile E) (\<lambda>_. access_inv) (\<lambda>_. access_inv) h ob"
  unfolding access_controller_reconcile_def
  using assms by (intro vc_intros vc_access_controller_reconcileDelete vc_ensure_access_finalizer [THEN vc_mono]
      vc_getAllBucketClaims [THEN vc_mono] vc_markAll [THEN vc_mono] vc_access_initialize)
    (auto simp: access_inv_def deleting_def elim!: saw_superset)

lemma access_controller_Reconcile_allowed:
  "allowed access_policy (trace (access_controller_Reconcile E req) (start ob w))"
  unfolding access_controller_Reconcile_def Let_def
  by (rule trace_allowedI, intro vc_intros vc_access_controller_reconcile [THEN vc_mono]) (auto simp: access_inv_simps)

subsection \<open>The shell\<close>

text \<open>When a run has succeeded: the BucketAccess does not exist, it is the Sidecar's and was only read, the last call
  stored the handoff without error or took the finalizer off, or the BucketAccess turned out to be handed over when its finalizer was
  stored; and no call failed but a read that found nothing.\<close>

definition access_controller_fine :: "call list \<Rightarrow> bool" where
  "access_controller_fine h \<longleftrightarrow>
     unfailed (\<lambda>c. case c of GetAccess _ _ \<Rightarrow> True | GetClaim _ _ \<Rightarrow> True | _ \<Rightarrow> False) h \<and>
     ((case h of
         GetAccess _ (Inl _) # _ \<Rightarrow> True
       | [GetAccess _ (Inr a)] \<Rightarrow> ManagedBySidecar a
       | StatusAccess a (Inr _) # _ \<Rightarrow> baStatus_Error (ba_Status a) = None
       | UpdateAccess a (Inr _) # _ \<Rightarrow> \<not> ContainsFinalizer (ba_meta a) ProtectionFinalizer
       | _ \<Rightarrow> False) \<or>
      saw stored_access (\<lambda>a. baStatus_AccessedBuckets (ba_Status a) \<noteq> []) h)"

text \<open>The report of an error, in both reconcilers of BucketAccess.\<close>

definition access_report :: "'w env \<Rightarrow> gerror \<Rightarrow> ('w, outcome) access_prog" where
  "access_report E err =
     seq (upd_obj access_ready_default)
     (bind (observe (e_Now E)) (\<lambda>now.
      seq (upd_obj (access_status (\<lambda>st. st\<lparr>baStatus_Error := Some (NewTimestampedError now (Error err))\<rparr>)))
      (handle (write_obj (e_StatusAccess E) StatusAccess)
        (\<lambda>updErr. ret (Requeue err))
        (\<lambda>_. ret (if is_nonretryable err then Terminal err else Requeue err)))))"

lemma vc_access_report:
  "vc (access_report E e) (\<lambda>r h ob. r \<in> {Terminal e, Requeue e} \<and> outcome_ok fine r h) (\<lambda>_ _ _. False) h ob"
  unfolding access_report_def by (intro vc_intros) (simp_all add: access_status_def)

abbreviation controller_unfailed :: "call list \<Rightarrow> bool" where
  "controller_unfailed \<equiv> unfailed (\<lambda>c. case c of GetAccess _ _ \<Rightarrow> True | GetClaim _ _ \<Rightarrow> True | _ \<Rightarrow> False)"

text \<open>The loops collect their errors: without an error no call failed.\<close>

lemma getAllBucketClaims_unfailed:
  assumes "controller_unfailed h"
  shows "vc (getAllBucketClaims E ns refs) (\<lambda>_ h' ob'. controller_unfailed h' \<and> ob' = ob \<and> set h \<subseteq> set h') (\<lambda>_ _ _. True) h ob"
  unfolding getAllBucketClaims_def Let_def
  using assms
  by (intro vc_intros vc_foldM [where I = "\<lambda>(_, errs) h' ob'. (errs = [] \<longrightarrow> controller_unfailed h') \<and> ob' = ob \<and> set h \<subseteq> set h'"])
    auto

lemma markAll_unfailed:
  assumes "controller_unfailed h"
  shows "vc (markAllBucketClaimsAsAccessed E m) (\<lambda>_ h' ob'. controller_unfailed h' \<and> ob' = ob \<and> set h \<subseteq> set h') (\<lambda>_ _ _. True) h ob"
  unfolding markAllBucketClaimsAsAccessed_def Let_def
  using assms
  by (intro vc_intros vc_foldM [where I = "\<lambda>(_, errs) h' ob'. (errs = [] \<longrightarrow> controller_unfailed h') \<and> ob' = ob \<and> set h \<subseteq> set h'"])
    auto

lemma unmark_unfailed:
  assumes "controller_unfailed h"
  shows "vc (unmarkUnaccessedBucketClaims E m l self) (\<lambda>_ h' ob'. controller_unfailed h') (\<lambda>_ _ _. True) h ob"
  unfolding unmarkUnaccessedBucketClaims_def Let_def
  using assms by (intro vc_intros vc_foldM [where I = "\<lambda>(_, errs) h' ob'. errs = [] \<longrightarrow> controller_unfailed h'"]) auto

lemma getBuckets_unfailed:
  assumes "controller_unfailed h"
  shows "vc (getBucketsForClaims E m) (\<lambda>_ h' ob'. controller_unfailed h') (\<lambda>_ _ _. True) h ob"
  unfolding getBucketsForClaims_def Let_def
  using assms by (intro vc_intros vc_foldM [where I = "\<lambda>(_, errs) h' ob'. errs = [] \<longrightarrow> controller_unfailed h'"]) auto

lemma access_initialize_fine:
  assumes "controller_unfailed h"
  shows "vc (access_initialize E m) (\<lambda>_ h' ob'. access_controller_fine h') (\<lambda>_ _ _. True) h ob"
  unfolding access_initialize_def Let_def
  using assms by (intro vc_intros getBuckets_unfailed [THEN vc_mono]) (auto simp: access_controller_fine_def access_status_def)

lemma access_controller_delete_fine:
  assumes "controller_unfailed h"
  shows "vc (access_controller_reconcileDelete E) (\<lambda>_ h' ob'. access_controller_fine h') (\<lambda>_ _ _. True) h ob"
  unfolding access_controller_reconcileDelete_def
  using assms by (intro vc_intros getAllBucketClaims_unfailed [THEN vc_mono] unmark_unfailed [THEN vc_mono])
    (auto simp: access_controller_fine_def)

lemma ensure_access_finalizer_unfailed:
  assumes "unfailed may_miss h"
  shows "vc (ensure_access_finalizer E) (\<lambda>_ h' ob'. unfailed may_miss h' \<and> (ob' = ob \<and> h' = h \<or> saw stored_access ((=) ob') h'))
     (\<lambda>_ _ _. True) h ob"
  unfolding ensure_access_finalizer_def Let_def
  using assms by (intro vc_intros) (auto simp: AddFinalizer_def stored_access_def split: if_splits)

lemma found_handed_over:
  "saw stored_access ((=) a) h \<Longrightarrow> baStatus_AccessedBuckets (ba_Status a) \<noteq> [] \<Longrightarrow> set h \<subseteq> set h1 \<Longrightarrow> set h1 \<subseteq> set h2 \<Longrightarrow>
     saw stored_access (\<lambda>a. baStatus_AccessedBuckets (ba_Status a) \<noteq> []) h2"
  by (auto simp: saw_iff)

lemma if_swap: "(if \<not> b then x else y) = (if b then y else x)"
  by simp

lemma access_controller_reconcile_fine:
  "vc (access_controller_reconcile E) (\<lambda>_ h' ob'. access_controller_fine h') (\<lambda>_ _ _. True) [GetAccess req (Inr a)] a"
  unfolding access_controller_reconcile_def
  by (intro vc_intros access_controller_delete_fine ensure_access_finalizer_unfailed [THEN vc_mono]
      getAllBucketClaims_unfailed [THEN vc_mono] markAll_unfailed [THEN vc_mono] access_initialize_fine)
    (auto simp: access_controller_fine_def SidecarRequirementsPresent_False dest: found_handed_over)

interpretation access_controller_rec: reconciler access_controller_Reconcile e_GetAccess GetAccess "\<lambda>a. \<not> ManagedBySidecar a"
  access_controller_reconcile "Wrapf ''COSI Controller error: %w'' []" access_report "\<lambda>_. ret Success" access_controller_fine
proof
  show "access_controller_Reconcile E req =
      handle (ask (e_GetAccess E req) (GetAccess req)) (\<lambda>e. if IsNotFound e then ret Success else ret (Requeue e))
        (\<lambda>x. if \<not> ManagedBySidecar x then seq (upd_obj (\<lambda>_. x))
           (handle (access_controller_reconcile E) (\<lambda>e. access_report E (Wrapf ''COSI Controller error: %w'' [] e)) (\<lambda>_. ret Success))
         else ret Success)" for E :: "'w env" and req
    unfolding access_controller_Reconcile_def access_report_def Let_def if_swap by (rule refl)
  show "vc (access_controller_reconcile E) (\<lambda>_ h ob. access_controller_fine h) (\<lambda>_ _ _. True) [GetAccess req (Inr x)] x"
    for E :: "'w env" and req x
    by (rule access_controller_reconcile_fine)
  show "vc (access_report E e) (\<lambda>r h ob. r \<in> {Terminal e, Requeue e} \<and> outcome_ok access_controller_fine r h) (\<lambda>_ _ _. False) h0 ob0"
    for E :: "'w env" and e h0 ob0
    by (rule vc_access_report)
qed (simp_all add: access_controller_fine_def vc_ret)

subsection \<open>Properties\<close>

lemma access_controller_Reconcile_keeps:
  "(\<And>h c. access_policy h c \<Longrightarrow> R h c) \<Longrightarrow> allowed R (trace (access_controller_Reconcile E req) (start ob w))"
  by (rule allowed_mono [OF access_controller_Reconcile_allowed])

text \<open>C7. The Controller hands a BucketAccess over only as a whole and only when it can be served: a status it
  writes either leaves the accessed Buckets, driver, authentication type and parameters as they were,
  or sets all of them for the first time, from the class the access names and satisfies, with the claims
  in the order of the spec, each read in the namespace of the access as ready, not deleting and of the
  right protocol, and bound to the Bucket whose name and (not empty) ID is recorded. It never changes the account ID and never makes the
  access ready.\<close>

theorem access_handoff_complete:
  "allowed (\<lambda>h c. case c of StatusAccess a _ \<Rightarrow> access_status_ok h a | _ \<Rightarrow> True)
     (trace (access_controller_Reconcile E req) (start ob w))"
  by (rule access_controller_Reconcile_keeps) (simp add: access_policy_def split: call.splits)

text \<open>C25. The marks on claims and the finalizer of a BucketAccess: the Controller changes only
  claims that the access references in its namespace, to mark them or, for a deleting access, to remove
  the mark when no other access listed there references the claim; it
  stores an access without the finalizer only when it is deleting and each claim of its spec is absent
  or has lost the mark if nobody else needs it; it writes nothing else and calls no driver.\<close>

theorem access_marks_and_finalizer:
  "allowed (\<lambda>h c. case c of
       GetAccess _ _ \<Rightarrow> True | GetClaim _ _ \<Rightarrow> True | GetBucket _ _ \<Rightarrow> True | GetAccessClass _ _ \<Rightarrow> True
     | ListAccesses _ _ \<Rightarrow> True | StatusAccess _ _ \<Rightarrow> True
     | UpdateClaim c' _ \<Rightarrow> access_claim_update_ok h c'
     | UpdateAccess a _ \<Rightarrow> access_update_ok h a
     | _ \<Rightarrow> False) (trace (access_controller_Reconcile E req) (start ob w))"
  by (rule access_controller_Reconcile_keeps) (simp add: access_policy_def split: call.splits)

text \<open>An access satisfies its class exactly when it names a service account if the class authenticates by
  service account, references one claim at most unless the class allows several, and requests no
  disallowed access mode.\<close>

lemma ValidateAccessAgainstClass_iff:
  "ValidateAccessAgainstClass cls access = None \<longleftrightarrow>
     \<not> (baclSpec_AuthenticationType cls = BucketAccessAuthenticationTypeServiceAccount \<and> baSpec_ServiceAccountName access = '''') \<and>
     (SupportsMultiBucketAccess cls \<or> length (baSpec_BucketClaims access) \<le> 1) \<and>
     set (map bca_AccessMode (baSpec_BucketClaims access)) \<inter> set (baclSpec_DisallowedBucketAccessModes cls) = {}"
  by (auto simp: ValidateAccessAgainstClass_def Let_def split: if_splits)

lemma count_refs_dup:
  "snd (count_refs refs counts dup) \<longleftrightarrow>
     dup \<or> \<not> distinct (map bca_BucketClaimName refs) \<or> set (map bca_BucketClaimName refs) \<inter> set (gkeys counts) \<noteq> {}"
proof (induction refs counts dup rule: count_refs.induct)
  case (2 ref refs counts dup)
  show ?case
  proof (cases "map_of counts (bca_BucketClaimName ref)")
    case None
    then have "bca_BucketClaimName ref \<notin> set (gkeys counts)" by (simp add: map_of_eq_None_iff)
    then show ?thesis using None 2(1) [OF None] by (auto simp: gkeys_put simp del: set_map)
  next
    case (Some n)
    then have "bca_BucketClaimName ref \<in> set (gkeys counts)" by (force dest: map_of_SomeD)
    then show ?thesis using Some 2(2) [OF Some] by auto
  qed
qed simp

text \<open>C38. The references of a BucketAccess are accepted exactly when no claim is referenced twice.\<close>

theorem validateAllBucketClaimReferencesUnique_iff:
  "validateAllBucketClaimReferencesUnique refs = None \<longleftrightarrow> distinct (map bca_BucketClaimName refs)"
  using count_refs_dup [of refs "[]" False]
  by (auto simp: validateAllBucketClaimReferencesUnique_def Let_def split: prod.splits)

end
