(* ===== verification/Access_Sidecar.thy ===== *)
theory Access_Sidecar
  imports Access_Controller Translator Driver
begin

text \<open>
  \<open>sidecar/pkg/reconciler/bucketaccess.go\<close>: the Sidecar's BucketAccess reconciler. It reserves the
  Secrets the user named, asks the driver for access, checks the answer against the request, writes
  credentials and bucket info into the Secrets and makes the BucketAccess ready; on deletion it deletes
  the Secrets, asks the driver to revoke the access and hands the BucketAccess back to the
  Controller.
\<close>

subsection \<open>Configurations\<close>

text \<open>A struct embedded in another is a record extension.\<close>

record internalAccessConfig =
  iac_Protocol :: ObjectProtocol_Type
  iac_AuthenticationType :: AuthenticationType_Type
  iac_ServiceAccountName :: string
  iac_Parameters :: "(string, string) gomap"

record bucketGrantAccessConfig =
  bgc_AccessMode :: AccessMode_Mode
  bgc_AccessSecretName :: string

record internalGrantAccessConfig = internalAccessConfig +
  igc_AccountName :: string
  igc_AccessConfigsByBucketId :: "(string, bucketGrantAccessConfig) gomap"
  igc_SecretsByName :: "(string, Secret) gomap"

record internalRevokeAccessConfig = internalAccessConfig +
  irc_AccountID :: string
  irc_RevokeBucketList :: "RevokeAccessedBucket list"

definition newInternalAccessConfig ::
  "(ObjectProtocol_Type \<Rightarrow> nat) \<Rightarrow> BucketAccess \<Rightarrow> gerror + internalAccessConfig" where
  "newInternalAccessConfig rank access =
     (case ObjectProtocol_ApiToRpc rank (baSpec_Protocol (ba_Spec access)) of
        Inl e \<Rightarrow> Inl (NonRetryableError (Some e))
      | Inr proto \<Rightarrow>
          (case AuthenticationTypeToRpc (baStatus_AuthenticationType (ba_Status access)) of
             Inl e \<Rightarrow> Inl (NonRetryableError (Some e))
           | Inr authType \<Rightarrow>
               (let svcAcct = (if authType = AuthenticationType_SERVICE_ACCOUNT
                               then baSpec_ServiceAccountName (ba_Spec access) else '''')
                in Inr \<lparr>iac_Protocol = proto, iac_AuthenticationType = authType, iac_ServiceAccountName = svcAcct,
                        iac_Parameters = baStatus_Parameters (ba_Status access)\<rparr>)))"

text \<open>The loop over the claims, with the configurations and the errors so far.\<close>

fun access_config_loop ::
  "(string, string) gomap \<Rightarrow> BucketClaimAccess list \<Rightarrow> (string, bucketGrantAccessConfig) gomap \<Rightarrow> gerror list \<Rightarrow>
   (string, bucketGrantAccessConfig) gomap \<times> gerror list" where
  "access_config_loop bucketIdsByClaimName [] configs errs = (configs, errs)"
| "access_config_loop bucketIdsByClaimName (claimRef # refs) configs errs =
     (case map_of bucketIdsByClaimName (bca_BucketClaimName claimRef) of
        None \<Rightarrow> access_config_loop bucketIdsByClaimName refs configs
          (errs @ [Errorf ''could not map BucketClaim %q to any accessed Bucket'' [AStr (bca_BucketClaimName claimRef)]])
      | Some bucketID \<Rightarrow>
          (case AccessModeToRpc (bca_AccessMode claimRef) of
             Inl _ \<Rightarrow> access_config_loop bucketIdsByClaimName refs configs
               (errs @ [Errorf ''failed to parse access mode for BucketClaim %q'' [AStr (bca_BucketClaimName claimRef)]])
           | Inr rpcMode \<Rightarrow> access_config_loop bucketIdsByClaimName refs
               (gput bucketID \<lparr>bgc_AccessMode = rpcMode, bgc_AccessSecretName = bca_AccessSecretName claimRef\<rparr> configs) errs))"

definition generateInternalAccessedBucketConfigs ::
  "BucketAccess \<Rightarrow> gerror + (string, bucketGrantAccessConfig) gomap" where
  "generateInternalAccessedBucketConfigs access =
     (let bucketIdsByClaimName = fold (\<lambda>ab. gput (ab_BucketClaimName ab) (ab_BucketID ab))
            (baStatus_AccessedBuckets (ba_Status access)) [];
          (configs, errs) = access_config_loop bucketIdsByClaimName (baSpec_BucketClaims (ba_Spec access)) [] []
      in if errs \<noteq> []
         then Inl (NonRetryableError (Some (Wrapf ''failed to generate internal access configuration: %w'' [] (Join errs))))
         else Inr configs)"

definition newInternalGrantAccessConfig ::
  "(ObjectProtocol_Type \<Rightarrow> nat) \<Rightarrow> BucketAccess \<Rightarrow> (string, Secret) gomap \<Rightarrow> gerror + internalGrantAccessConfig" where
  "newInternalGrantAccessConfig rank access secretsByName =
     (case newInternalAccessConfig rank access of
        Inl e \<Rightarrow> Inl e
      | Inr sharedCfg \<Rightarrow>
          (case generateInternalAccessedBucketConfigs access of
             Inl e \<Rightarrow> Inl e
           | Inr accessConfigsByBucketId \<Rightarrow>
               Inr (internalAccessConfig.extend sharedCfg
                 \<lparr>igc_AccountName = ''ba-'' @ UID (ba_meta access),
                  igc_AccessConfigsByBucketId = accessConfigsByBucketId,
                  igc_SecretsByName = secretsByName\<rparr>)))"

text \<open>The order of the list is that of the map iteration.\<close>

definition RpcGrantBucketsList :: "(string \<Rightarrow> nat) \<Rightarrow> internalGrantAccessConfig \<Rightarrow> GrantAccessedBucket list" where
  "RpcGrantBucketsList rank d =
     map (\<lambda>(i, cfg). \<lparr>gab_BucketId = i, gab_AccessMode = \<lparr>am_Mode = bgc_AccessMode cfg\<rparr>\<rparr>)
       (range_map rank (igc_AccessConfigsByBucketId d))"

fun revoke_list :: "AccessedBucket list \<Rightarrow> gerror + RevokeAccessedBucket list" where
  "revoke_list [] = Inr []"
| "revoke_list (ab # accessed) =
     (if ab_BucketID ab = ''''
      then Inl (NonRetryableError (Some (Errorf
             ''unrecoverable degradation: accessedBucket for BucketClaim %q is missing bucket ID''
             [AStr (ab_BucketClaimName ab)])))
      else (case revoke_list accessed of Inl e \<Rightarrow> Inl e | Inr rest \<Rightarrow> Inr (\<lparr>rab_BucketId = ab_BucketID ab\<rparr> # rest)))"

definition newInternalRevokeAccessConfig ::
  "(ObjectProtocol_Type \<Rightarrow> nat) \<Rightarrow> BucketAccess \<Rightarrow> gerror + internalRevokeAccessConfig" where
  "newInternalRevokeAccessConfig rank access =
     (case newInternalAccessConfig rank access of
        Inl e \<Rightarrow> Inl e
      | Inr sharedCfg \<Rightarrow>
          if baStatus_AccountID (ba_Status access) = ''''
          then Inl (NonRetryableError (Some (Errorf ''cannot revoke access for BucketAccess with no account ID'' [])))
          else
            (case revoke_list (baStatus_AccessedBuckets (ba_Status access)) of
               Inl e \<Rightarrow> Inl e
             | Inr revokeList \<Rightarrow>
                 Inr (internalAccessConfig.extend sharedCfg
                   \<lparr>irc_AccountID = baStatus_AccountID (ba_Status access), irc_RevokeBucketList = revokeList\<rparr>)))"

subsection \<open>The driver's answer\<close>

record grantedAccessApiDetails =
  gd_AccountId :: string
  gd_SharedCredentialInfo :: "(string, string) gomap"
  gd_BucketInfoByBucketId :: "(string, (string, string) gomap) gomap"

fun granted_bucket_loop ::
  "(string \<Rightarrow> nat) \<Rightarrow> ValidationConfig \<Rightarrow> nat \<Rightarrow> GrantBucketInfo list \<Rightarrow> (string, (string, string) gomap) gomap \<Rightarrow>
   gerror list \<Rightarrow> (string, (string, string) gomap) gomap \<times> gerror list" where
  "granted_bucket_loop rank validation i [] infos errs = (infos, errs)"
| "granted_bucket_loop rank validation i (b # bs) infos errs =
     (if gbi_BucketId b = '''' then
        granted_bucket_loop rank validation (Suc i) bs infos (errs @ [Errorf ''missing bucket ID at index %d'' [ANat i]])
      else
        (case BucketInfoToApi rank (gbi_BucketInfo b) (Some validation) of
           Inl e \<Rightarrow> granted_bucket_loop rank validation (Suc i) bs infos
                     (errs @ [Wrapf ''invalid bucket info at index %d: %w'' [ANat i] e])
         | Inr (_, info) \<Rightarrow> granted_bucket_loop rank validation (Suc i) bs (gput (gbi_BucketId b) info infos) errs))"

definition translateDriverGrantBucketAccessResponseToApi ::
  "(string \<Rightarrow> nat) \<Rightarrow> DriverGrantBucketAccessResponse \<Rightarrow> ValidationConfig \<Rightarrow> gerror + grantedAccessApiDetails" where
  "translateDriverGrantBucketAccessResponseToApi rank resp validation =
     (let creds = CredentialsToApi rank (gar_Credentials resp) validation;
          errs0 =
            (if gar_AccountId resp = '''' then [Errorf ''missing account ID'' []] else []) @
            (case creds of Inl e \<Rightarrow> [Wrapf ''shared credentials are invalid: %w'' [] e] | Inr _ \<Rightarrow> []);
          (bucketInfoByBucketId, errs) = granted_bucket_loop rank validation 0 (gar_Buckets resp) [] errs0
      in if errs \<noteq> [] then Inl (Wrapf ''granted access response is invalid: %w'' [] (Join errs))
         else Inr \<lparr>gd_AccountId = gar_AccountId resp,
                   gd_SharedCredentialInfo = (case creds of Inl _ \<Rightarrow> [] | Inr m \<Rightarrow> m),
                   gd_BucketInfoByBucketId = bucketInfoByBucketId\<rparr>)"

definition validateGrantedAccess ::
  "(string \<Rightarrow> nat) \<Rightarrow> (string \<Rightarrow> nat) \<Rightarrow> internalGrantAccessConfig \<Rightarrow> grantedAccessApiDetails \<Rightarrow> gerror option" where
  "validateGrantedAccess rank1 rank2 grantCfg granted =
     (let errs =
            concat (map (\<lambda>(i, _).
              if \<not> ghas (gd_BucketInfoByBucketId granted) i
              then [Errorf ''granted access missing for bucket ID %q'' [AStr i]] else [])
              (range_map rank1 (igc_AccessConfigsByBucketId grantCfg))) @
            concat (map (\<lambda>(i, _).
              if \<not> ghas (igc_AccessConfigsByBucketId grantCfg) i
              then [Errorf ''granted access to unknown bucket with ID %q'' [AStr i]] else [])
              (range_map rank2 (gd_BucketInfoByBucketId granted)))
      in if errs \<noteq> [] then Some (Wrapf ''granted access is invalid: %w'' [] (Join errs)) else None)"

definition validateBucketIsReadyForAccess :: "Bucket \<Rightarrow> string \<Rightarrow> gerror option" where
  "validateBucketIsReadyForAccess b expectedBucketID =
     (let errs =
            (if ghas (Annotations (b_meta b)) BucketClaimBeingDeletedAnnotation
             then [Errorf ''BucketClaim for Bucket %q is deleting'' [AStr (Name (b_meta b))]] else []) @
            (if \<not> IsZero (DeletionTimestamp (b_meta b))
             then [Errorf ''Bucket %q is deleting'' [AStr (Name (b_meta b))]] else []) @
            (if bStatus_BucketID (b_Status b) = ''''
             then [Errorf ''Bucket %q has no bucketID'' [AStr (Name (b_meta b))]] else []) @
            (if bStatus_BucketID (b_Status b) \<noteq> expectedBucketID
             then [Errorf ''Bucket %q ID %q does not match expected ID %q''
                     [AStr (Name (b_meta b)), AStr (bStatus_BucketID (b_Status b)), AStr expectedBucketID]] else [])
      in if errs \<noteq> [] then Some (Wrapf ''cannot generate access for one or more Buckets: %w'' [] (Join errs)) else None)"

subsection \<open>Secrets\<close>

definition SecretTypeOpaque :: string where [api_consts]: "SecretTypeOpaque = ''Opaque''"

definition setAccessSecretRequiredMetadata :: "Secret \<Rightarrow> Secret" where
  "setAccessSecretRequiredMetadata secret =
     secret\<lparr>sec_meta := snd (AddFinalizer (sec_meta secret) ProtectionFinalizer), sec_Type := SecretTypeOpaque\<rparr>"

definition new_secret :: "string \<Rightarrow> string \<Rightarrow> Secret" where
  "new_secret ns name =
     \<lparr>sec_meta = \<lparr>Name = name, Namespace = ns, UID = '''', ResourceVersion = 0, Generation = 0, DeletionTimestamp = None,
                  Finalizers = [], Annotations = [], OwnerReferences = []\<rparr>,
      sec_Type = '''', sec_Data = [], sec_StringData = []\<rparr>"

text \<open>The group and version of the API and the kind of the owner, which the scheme gives.\<close>

definition own_secret :: "BucketAccess \<Rightarrow> Secret \<Rightarrow> gerror + Secret" where
  "own_secret owningAccess s =
     (case SetControllerReference ''objectstorage.k8s.io/v1alpha2'' ''BucketAccess'' (ba_meta owningAccess) (sec_meta s) of
        Inl e \<Rightarrow> Inl e | Inr m \<Rightarrow> Inr (s\<lparr>sec_meta := m\<rparr>))"

definition createNewOwnedAccessSecret :: "'w env \<Rightarrow> string \<Rightarrow> BucketAccess \<Rightarrow> ('w, Secret) access_prog" where
  "createNewOwnedAccessSecret E secretName owningAccess =
     bind (lift_sum (own_secret owningAccess (new_secret (Namespace (ba_meta owningAccess)) secretName))) (\<lambda>s0.
     (let s = setAccessSecretRequiredMetadata s0
      in ask (e_CreateSecret E s) (CreateSecret s)))"

text \<open>The Secret as stored is the result, since the Go code goes on with the same pointer.\<close>

definition updateExistingAccessSecretMetadata :: "'w env \<Rightarrow> Secret \<Rightarrow> BucketAccess \<Rightarrow> ('w, Secret) access_prog" where
  "updateExistingAccessSecretMetadata E secret owningAccess =
     (if \<not> IsControlledBy (sec_meta secret) (ba_meta owningAccess)
      then fail (NonRetryableError (Some (Errorf ''existing access Secret %q does not belong to BucketAccess''
             [AStr (Name (sec_meta secret))])))
      else
        (let updated = setAccessSecretRequiredMetadata secret
         in ask (e_UpdateSecret E updated) (UpdateSecret updated)))"

definition reserveAccessSecrets :: "'w env \<Rightarrow> ('w, (string, Secret) gomap) access_prog" where
  "reserveAccessSecrets E =
     bind (gets obj) (\<lambda>access.
     bind (foldM (\<lambda>claimRef (secretsByName, errs).
        (let secretName = bca_AccessSecretName claimRef
         in if ghas secretsByName secretName
            then ret (secretsByName, errs @ [NonRetryableError (Some (Errorf
                   ''multiple referenced BucketClaims use the same accessSecretName %q'' [AStr secretName]))])
            else
              (let nsName = \<lparr>nn_Namespace = Namespace (ba_meta access), nn_Name = secretName\<rparr>
               in handle (ask (e_GetSecret E nsName) (GetSecret nsName))
                    (\<lambda>err. if \<not> IsNotFound err then ret (secretsByName, errs @ [err])
                           else
                             handle (createNewOwnedAccessSecret E secretName access)
                               (\<lambda>err2. ret (secretsByName, errs @ [err2]))
                               (\<lambda>newSecret. ret (gput secretName newSecret secretsByName, errs)))
                    (\<lambda>existingSecret.
                         handle (updateExistingAccessSecretMetadata E existingSecret access)
                           (\<lambda>err2. ret (secretsByName, errs @ [err2]))
                           (\<lambda>stored. ret (gput secretName stored secretsByName, errs))))))
        (baSpec_BucketClaims (ba_Spec access)) ([], []))
     (\<lambda>(secretsByName, errs).
        if errs \<noteq> [] then fail (Wrapf ''failed to reserve one or more Secrets for access info: %w'' [] (Join errs))
        else if length secretsByName \<noteq> length (baSpec_BucketClaims (ba_Spec access))
        then fail (Errorf ''did not reserve one or more access Secrets, but no errors observed'' [])
        else ret secretsByName))"

text \<open>The body of the loop over the granted buckets. The Secrets are shared by pointer; a Secret that
  failed to be stored keeps its new data in memory.\<close>

definition fill_secret ::
  "'w env \<Rightarrow> (string \<Rightarrow> nat) \<Rightarrow> internalGrantAccessConfig \<Rightarrow> grantedAccessApiDetails \<Rightarrow> string \<times> (string, string) gomap \<Rightarrow>
   (string, Secret) gomap \<times> gerror list \<Rightarrow> ('w, (string, Secret) gomap \<times> gerror list) access_prog" where
  "fill_secret E varRank grantCfg granted = (\<lambda>(bucketId, bucketInfo) (secretsByName, errs).
     (case map_of (igc_AccessConfigsByBucketId grantCfg) bucketId of
        None \<Rightarrow> ret (secretsByName, errs @ [NonRetryableError (Some (Errorf ''unknown bucket ID %q'' [AStr bucketId]))])
      | Some cfg \<Rightarrow>
          (case map_of secretsByName (bgc_AccessSecretName cfg) of
             None \<Rightarrow> ret (secretsByName, errs @ [NonRetryableError (Some (Errorf
                       ''failed internal lookup for Secret with name %q'' [AStr (bgc_AccessSecretName cfg)]))])
           | Some sec \<Rightarrow>
               (let filled = sec\<lparr>sec_StringData :=
                      MergeApiInfoIntoStringMap varRank (Some bucketInfo)
                        (MergeApiInfoIntoStringMap varRank (Some (gd_SharedCredentialInfo granted)) [])\<rparr>
                in handle (ask (e_UpdateSecret E filled) (UpdateSecret filled))
                     (\<lambda>err. ret (gput (bgc_AccessSecretName cfg) filled secretsByName, errs @ [Errorf
                        ''failed to update BucketAccess Secret %q with bucket and credential info''
                        [AStr (Name (sec_meta filled))]]))
                     (\<lambda>stored. ret (gput (bgc_AccessSecretName cfg) stored secretsByName, errs))))))"

definition updateSecretsWithGrantedInfo ::
  "'w env \<Rightarrow> internalGrantAccessConfig \<Rightarrow> grantedAccessApiDetails \<Rightarrow> ('w, unit) access_prog" where
  "updateSecretsWithGrantedInfo E grantCfg granted =
     bind (observe (e_Order E)) (\<lambda>bucketRank.
     bind (observe (e_Order E)) (\<lambda>varRank.
     bind (foldM (fill_secret E varRank grantCfg granted)
        (range_map bucketRank (gd_BucketInfoByBucketId granted)) (igc_SecretsByName grantCfg, []))
     (\<lambda>(_, errs).
        if errs \<noteq> [] then fail (Wrapf ''failed to update one or more BucketAccess Secrets: %w'' [] (Join errs))
        else ret ())))"

definition getAndValidateAllAccessedBuckets :: "'w env \<Rightarrow> ('w, unit) access_prog" where
  "getAndValidateAllAccessedBuckets E =
     bind (gets obj) (\<lambda>access.
     bind (foldM (\<lambda>ab errs.
        (let nsName = \<lparr>nn_Namespace = '''', nn_Name = ab_BucketName ab\<rparr>
         in handle (ask (e_GetBucket E nsName) (GetBucket nsName))
              (\<lambda>err. if IsNotFound err then ret (errs @ [NonRetryableError (Some err)]) else ret (errs @ [err]))
              (\<lambda>bkt.
                 (case validateBucketIsReadyForAccess bkt (ab_BucketID ab) of
                    Some e \<Rightarrow> ret (errs @ [NonRetryableError (Some e)])
                  | None \<Rightarrow> ret errs))))
        (baStatus_AccessedBuckets (ba_Status access)) [])
     (\<lambda>errs.
        if errs \<noteq> [] then fail (Wrapf ''failed to get accessed Buckets: %w'' [] (Join errs)) else ret ()))"

definition release_secret :: "Secret \<Rightarrow> Secret" where
  "release_secret secret = secret\<lparr>sec_meta := RemoveFinalizer (sec_meta secret) ProtectionFinalizer\<rparr>"

definition deleteOwnedAccessSecrets :: "'w env \<Rightarrow> ('w, unit) access_prog" where
  "deleteOwnedAccessSecrets E =
     bind (gets obj) (\<lambda>access.
     bind (foldM (\<lambda>claimRef errs.
        (let nsName = \<lparr>nn_Namespace = Namespace (ba_meta access), nn_Name = bca_AccessSecretName claimRef\<rparr>
         in handle (ask (e_GetSecret E nsName) (GetSecret nsName))
              (\<lambda>err. if IsNotFound err then ret errs else ret (errs @ [err]))
              (\<lambda>secret.
                 if \<not> IsControlledBy (sec_meta secret) (ba_meta access) then ret errs
                 else
                   (let released = release_secret secret
                    in handle (ask (e_UpdateSecret E released) (UpdateSecret released))
                         (\<lambda>err. ret (errs @ [Wrapf ''failed to remove protection finalizer from access Secret: %w'' [] err]))
                         (\<lambda>stored.
                            handle (ask (e_DeleteSecret E stored) (DeleteSecret stored))
                              (\<lambda>err. ret (errs @ [err]))
                              (\<lambda>_. ret errs))))))
        (baSpec_BucketClaims (ba_Spec access)) [])
     (\<lambda>errs.
        if errs \<noteq> []
        then fail (Wrapf ''failed to ensure deletion of one or more access Secrets: %w'' [] (Join errs))
        else ret ()))"

subsection \<open>Deletion\<close>



definition driverRevokeAccess :: "'w env \<Rightarrow> ('w, unit) access_prog" where
  "driverRevokeAccess E =
     bind (gets obj) (\<lambda>access.
     bind (observe (e_ProtoOrder E)) (\<lambda>rank.
     (case newInternalRevokeAccessConfig rank access of
        Inl e \<Rightarrow> fail (Wrapf ''failed to build internal representation of revoke-access configuration: %w'' [] e)
      | Inr revokeCfg \<Rightarrow>
          (let request = \<lparr>raq_AccountId = baStatus_AccountID (ba_Status access),
                          raq_Protocol = \<lparr>op_Type = iac_Protocol revokeCfg\<rparr>,
                          raq_AuthenticationType = \<lparr>at_Type = iac_AuthenticationType revokeCfg\<rparr>,
                          raq_ServiceAccountName = iac_ServiceAccountName revokeCfg,
                          raq_Parameters = iac_Parameters revokeCfg,
                          raq_Buckets = irc_RevokeBucketList revokeCfg\<rparr>
           in handle (ask (e_DriverRevokeBucketAccess E request) (DriverRevokeBucketAccess request))
                (\<lambda>err. if rpcErrorIsRetryable (status_Code err) then fail err
                       else fail (NonRetryableError (Some err)))
                ret))))"

definition mark_cleanup_finished :: "BucketAccess \<Rightarrow> BucketAccess" where
  "mark_cleanup_finished access =
     access\<lparr>ba_meta := (ba_meta access)\<lparr>Annotations :=
       gput SidecarCleanupFinishedAnnotation '''' (Annotations (ba_meta access))\<rparr>\<rparr>"

definition access_sidecar_reconcileDelete :: "'w env \<Rightarrow> ('w, unit) access_prog" where
  "access_sidecar_reconcileDelete E =
     seq (upd_obj (access_status (\<lambda>st. st\<lparr>baStatus_ReadyToUse := Some False, baStatus_Error := None\<rparr>)))
     (seq (on_err (Wrapf ''failed to update BucketAccess status before deletion: %w'' [])
             (write_obj (e_StatusAccess E) StatusAccess))
     (seq (deleteOwnedAccessSecrets E)
     (bind (gets obj) (\<lambda>access.
     seq (when_cond (baStatus_AccountID (ba_Status access) \<noteq> '''') (driverRevokeAccess E))
     (seq (upd_obj mark_cleanup_finished)
     (on_err (Wrapf ''failed to update BucketAccess after successful access revocation: %w'' [])
        (write_obj (e_UpdateAccess E) UpdateAccess)))))))"

subsection \<open>Reconciliation\<close>

text \<open>The RPC and everything after it.\<close>

definition grant_access :: "'w env \<Rightarrow> internalGrantAccessConfig \<Rightarrow> ('w, unit) access_prog" where
  "grant_access E grantCfg =
     bind (observe (e_Order E)) (\<lambda>listRank.
     (let request = \<lparr>gaq_AccountName = igc_AccountName grantCfg,
                     gaq_Protocol = \<lparr>op_Type = iac_Protocol grantCfg\<rparr>,
                     gaq_AuthenticationType = \<lparr>at_Type = iac_AuthenticationType grantCfg\<rparr>,
                     gaq_ServiceAccountName = iac_ServiceAccountName grantCfg,
                     gaq_Parameters = iac_Parameters grantCfg,
                     gaq_Buckets = RpcGrantBucketsList listRank grantCfg\<rparr>
      in handle (ask (e_DriverGrantBucketAccess E request) (DriverGrantBucketAccess request))
           (\<lambda>err. if status_Code err = codes_OutOfRange
                  then fail (NonRetryableError (Some (Wrapf ''driver does not support multi-bucket access: %w'' [] err)))
                  else if rpcErrorIsRetryable (status_Code err) then fail err
                  else fail (NonRetryableError (Some err)))
           (\<lambda>resp.
              bind (gets obj) (\<lambda>access.
              bind (observe (e_Order E)) (\<lambda>varRank.
              (let validation = \<lparr>ExpectedProtocol = baSpec_Protocol (ba_Spec access),
                                 AuthenticationType = baStatus_AuthenticationType (ba_Status access)\<rparr>
               in case translateDriverGrantBucketAccessResponseToApi varRank resp validation of
                    Inl e \<Rightarrow> fail (NonRetryableError (Some e))
                  | Inr grantDetails \<Rightarrow>
                      bind (observe (e_Order E)) (\<lambda>rank1.
                      bind (observe (e_Order E)) (\<lambda>rank2.
                      (case validateGrantedAccess rank1 rank2 grantCfg grantDetails of
                         Some e \<Rightarrow> fail (NonRetryableError (Some e))
                       | None \<Rightarrow>
                           seq (updateSecretsWithGrantedInfo E grantCfg grantDetails)
                           (seq (upd_obj (access_status (\<lambda>st. st\<lparr>baStatus_AccountID := gd_AccountId grantDetails,
                                   baStatus_ReadyToUse := Some True, baStatus_Error := None\<rparr>)))
                           (on_err (Wrapf ''failed to update BucketAccess status after successful access grant: %w'' [])
                             (write_obj (e_StatusAccess E) StatusAccess))))))))))))"

definition access_sidecar_reconcile :: "DriverInfo \<Rightarrow> 'w env \<Rightarrow> ('w, unit) access_prog" where
  "access_sidecar_reconcile driver E =
     bind (gets obj) (\<lambda>access0.
     if baStatus_DriverName (ba_Status access0) \<noteq> di_Name driver then ret ()
     else if \<not> IsZero (DeletionTimestamp (ba_meta access0)) then access_sidecar_reconcileDelete E
     else
       (case SidecarRequirementsPresent (ba_Status access0) of
          Inl e \<Rightarrow> fail (NonRetryableError (Some (Wrapf ''processed a degraded BucketAccess: %w'' [] e)))
        | Inr initialized \<Rightarrow>
            if \<not> initialized
            then fail (NonRetryableError (Some (Errorf ''processed a BucketAccess that should be managed by COSI Controller'' [])))
            else
              seq (ensure_access_finalizer E)
              (seq (getAndValidateAllAccessedBuckets E)
              (bind (reserveAccessSecrets E) (\<lambda>secretsByName.
               bind (gets obj) (\<lambda>access.
               bind (observe (e_ProtoOrder E)) (\<lambda>rank.
               (case newInternalGrantAccessConfig rank access secretsByName of
                  Inl e \<Rightarrow> fail (Wrapf ''failed to build internal representation of grant-access configuration: %w'' [] e)
                | Inr grantCfg \<Rightarrow> grant_access E grantCfg))))))))"

definition access_sidecar_Reconcile :: "DriverInfo \<Rightarrow> 'w env \<Rightarrow> NamespacedName \<Rightarrow> ('w, outcome) access_prog" where
  "access_sidecar_Reconcile driver E req =
     handle (ask (e_GetAccess E req) (GetAccess req))
       (\<lambda>e. if IsNotFound e then ret Success else ret (Requeue e))
       (\<lambda>access0.
          if \<not> ManagedBySidecar access0 then ret Success
          else
            seq (upd_obj (\<lambda>_. access0))
            (handle (access_sidecar_reconcile driver E)
              (\<lambda>err0.
                 (let err = Wrapf ''COSI Sidecar error: %w'' [] err0
                  in seq (upd_obj access_ready_default)
                     (bind (observe (e_Now E)) (\<lambda>now.
                      seq (upd_obj (access_status (\<lambda>st. st\<lparr>baStatus_Error := Some (NewTimestampedError now (Error err))\<rparr>)))
                      (handle (write_obj (e_StatusAccess E) StatusAccess)
                        (\<lambda>updErr. ret (Requeue err))
                        (\<lambda>_. ret (if is_nonretryable err then Terminal err else Requeue err)))))))
              (\<lambda>_. ret Success)))"

subsection \<open>Lemmas on the pure parts\<close>

lemma missing_keys_Nil:
  "concat (map (\<lambda>(i, _). if \<not> ghas m i then [f i] else []) (range_map rank m')) = [] \<longleftrightarrow>
     set (gkeys m') \<subseteq> set (gkeys m)"
  by (force simp: ghas_iff_keys split: if_splits)

lemma validateGrantedAccess_None:
  "validateGrantedAccess rank1 rank2 cfg granted = None \<longleftrightarrow>
     set (gkeys (igc_AccessConfigsByBucketId cfg)) = set (gkeys (gd_BucketInfoByBucketId granted))"
  unfolding validateGrantedAccess_def Let_def set_eq_subset missing_keys_Nil append_is_Nil_conv
  by (simp del: set_map)

lemma validateBucketIsReadyForAccess_None:
  "validateBucketIsReadyForAccess b i = None \<longleftrightarrow>
     \<not> ghas (Annotations (b_meta b)) BucketClaimBeingDeletedAnnotation \<and> \<not> deleting (b_meta b) \<and>
     bStatus_BucketID (b_Status b) = i \<and> i \<noteq> ''''"
  by (auto simp: validateBucketIsReadyForAccess_def deleting_def Let_def)

text \<open>The configuration of a claim, from the bucket IDs and the claim.\<close>

definition claim_config :: "BucketClaimAccess \<Rightarrow> bucketGrantAccessConfig \<Rightarrow> bool" where
  "claim_config ref cfg \<longleftrightarrow> AccessModeToRpc (bca_AccessMode ref) = Inr (bgc_AccessMode cfg) \<and>
     bgc_AccessSecretName cfg = bca_AccessSecretName ref"

lemma access_config_loop_ok:
  assumes "access_config_loop ids refs configs errs = (configs', [])"
  shows "errs = [] \<and>
     (\<forall>ref \<in> set refs. \<exists>i. map_of ids (bca_BucketClaimName ref) = Some i \<and> i \<in> set (gkeys configs')) \<and>
     set (gkeys configs) \<subseteq> set (gkeys configs') \<and>
     (\<forall>i cfg. map_of configs' i = Some cfg \<longrightarrow> map_of configs i = Some cfg \<or>
        (\<exists>ref \<in> set refs. map_of ids (bca_BucketClaimName ref) = Some i \<and> claim_config ref cfg))"
  using assms
proof (induction ids refs configs errs rule: access_config_loop.induct)
  case (2 ids ref refs configs errs)
  obtain i where i: "map_of ids (bca_BucketClaimName ref) = Some i"
    using 2 by (auto split: option.splits)
  obtain m where m: "AccessModeToRpc (bca_AccessMode ref) = Inr m"
    using 2 i by (auto split: sum.splits)
  have loop: "access_config_loop ids refs
      (gput i \<lparr>bgc_AccessMode = m, bgc_AccessSecretName = bca_AccessSecretName ref\<rparr> configs) errs = (configs', [])"
    using 2(4) i m by simp
  have c: "claim_config ref \<lparr>bgc_AccessMode = m, bgc_AccessSecretName = bca_AccessSecretName ref\<rparr>"
    using m by (simp add: claim_config_def)
  note IH = 2(3) [OF i m loop]
  show ?case using IH i c by (auto simp: gkeys_put update_conv' split: if_splits simp del: set_map)
qed simp

lemma gkeys_fold_put: "map_of (fold (\<lambda>x. gput (f x) (g x)) xs m) k = Some v \<Longrightarrow>
    map_of m k = Some v \<or> (\<exists>x \<in> set xs. f x = k \<and> g x = v)"
proof (induction xs arbitrary: m)
  case (Cons x xs)
  then have "map_of (gput (f x) (g x) m) k = Some v \<or> (\<exists>x \<in> set xs. f x = k \<and> g x = v)" by simp
  then show ?case by (auto simp: update_conv' split: if_splits)
qed simp

text \<open>Every claim of the spec has an accessed bucket whose ID has a configuration, and every configuration
  is that of a claim of the spec.\<close>

lemma generateInternalAccessedBucketConfigs_Inr:
  assumes "generateInternalAccessedBucketConfigs a = Inr configs"
  shows "\<forall>ref \<in> set (baSpec_BucketClaims (ba_Spec a)). \<exists>ab \<in> set (baStatus_AccessedBuckets (ba_Status a)).
      ab_BucketClaimName ab = bca_BucketClaimName ref \<and> ab_BucketID ab \<in> set (gkeys configs)"
    and "map_of configs i = Some cfg \<Longrightarrow> \<exists>ref \<in> set (baSpec_BucketClaims (ba_Spec a)). claim_config ref cfg \<and>
      (\<exists>ab \<in> set (baStatus_AccessedBuckets (ba_Status a)). ab_BucketClaimName ab = bca_BucketClaimName ref \<and> ab_BucketID ab = i)"
proof -
  let ?ids = "fold (\<lambda>ab. gput (ab_BucketClaimName ab) (ab_BucketID ab)) (baStatus_AccessedBuckets (ba_Status a)) []"
  have loop: "access_config_loop ?ids (baSpec_BucketClaims (ba_Spec a)) [] [] = (configs, [])"
    using assms by (auto simp: generateInternalAccessedBucketConfigs_def Let_def split: prod.splits if_splits)
  have ids: "\<exists>ab \<in> set (baStatus_AccessedBuckets (ba_Status a)). ab_BucketClaimName ab = n \<and> ab_BucketID ab = i"
    if "map_of ?ids n = Some i" for n i
    using gkeys_fold_put [OF that] by auto
  show "\<forall>ref \<in> set (baSpec_BucketClaims (ba_Spec a)). \<exists>ab \<in> set (baStatus_AccessedBuckets (ba_Status a)).
      ab_BucketClaimName ab = bca_BucketClaimName ref \<and> ab_BucketID ab \<in> set (gkeys configs)"
    using access_config_loop_ok [OF loop] ids by blast
  show "map_of configs i = Some cfg \<Longrightarrow> \<exists>ref \<in> set (baSpec_BucketClaims (ba_Spec a)). claim_config ref cfg \<and>
      (\<exists>ab \<in> set (baStatus_AccessedBuckets (ba_Status a)). ab_BucketClaimName ab = bca_BucketClaimName ref \<and> ab_BucketID ab = i)"
    using access_config_loop_ok [OF loop] ids by fastforce
qed

text \<open>The bucket ID of a claim of a BucketAccess, and the claims that are served: of claims with the same bucket ID the
  configuration keeps the last one only. When no two claims have the same bucket ID, all are served.\<close>

definition bucket_id_of :: "BucketAccess \<Rightarrow> BucketClaimAccess \<Rightarrow> string option" where
  "bucket_id_of a ref = map_of (rev (map (\<lambda>ab. (ab_BucketClaimName ab, ab_BucketID ab)) (baStatus_AccessedBuckets (ba_Status a))))
     (bca_BucketClaimName ref)"

fun last_by :: "('a \<Rightarrow> 'b) \<Rightarrow> 'a list \<Rightarrow> 'a list" where
  "last_by f [] = []"
| "last_by f (x # xs) = (if f x \<in> f ` set xs then last_by f xs else x # last_by f xs)"

definition served_claims :: "BucketAccess \<Rightarrow> BucketClaimAccess list" where
  "served_claims a = last_by (bucket_id_of a) (baSpec_BucketClaims (ba_Spec a))"

lemma last_by_subset: "set (last_by f xs) \<subseteq> set xs"
  by (induction xs) auto

lemma last_by_distinct: "distinct (map f xs) \<Longrightarrow> last_by f xs = xs"
  by (induction xs) auto

lemma last_by_image: "f ` set (last_by f xs) = f ` set xs"
  by (induction xs) auto

lemma served_all: "distinct (map (bucket_id_of a) (baSpec_BucketClaims (ba_Spec a))) \<Longrightarrow> served_claims a = baSpec_BucketClaims (ba_Spec a)"
  by (simp add: served_claims_def last_by_distinct)

lemma access_config_loop_modes:
  "access_config_loop ids refs configs errs = (configs', []) \<Longrightarrow> ref \<in> set refs \<Longrightarrow> \<exists>m. AccessModeToRpc (bca_AccessMode ref) = Inr m"
proof (induction ids refs configs errs rule: access_config_loop.induct)
  case (2 ids ref' refs configs errs)
  show ?case
  proof (cases "map_of ids (bca_BucketClaimName ref')")
    case None
    then show ?thesis using access_config_loop_ok [OF 2(4)] by auto
  next
    case (Some j)
    show ?thesis
    proof (cases "AccessModeToRpc (bca_AccessMode ref')")
      case (Inl e)
      have "access_config_loop ids refs configs
          (errs @ [Errorf ''failed to parse access mode for BucketClaim %q'' [AStr (bca_BucketClaimName ref')]]) = (configs', [])"
        using 2(4) Some Inl by simp
      from access_config_loop_ok [OF this] show ?thesis by simp
    next
      case (Inr m)
      then show ?thesis using 2(3) [OF Some Inr] 2(4,5) Some by auto
    qed
  qed
qed simp

lemma access_config_loop_lookup:
  assumes "access_config_loop ids refs configs errs = (configs', [])"
  shows "map_of configs' i = Some cfg \<longleftrightarrow>
    (\<exists>ref \<in> set (last_by (\<lambda>r. map_of ids (bca_BucketClaimName r)) refs). map_of ids (bca_BucketClaimName ref) = Some i \<and> claim_config ref cfg) \<or>
    Some i \<notin> (\<lambda>r. map_of ids (bca_BucketClaimName r)) ` set refs \<and> map_of configs i = Some cfg"
  using assms
proof (induction ids refs configs errs rule: access_config_loop.induct)
  case (2 ids ref refs configs errs)
  obtain j where j: "map_of ids (bca_BucketClaimName ref) = Some j" using access_config_loop_ok [OF 2(4)] by auto
  obtain m where m: "AccessModeToRpc (bca_AccessMode ref) = Inr m" using access_config_loop_modes [OF 2(4), of ref] by auto
  let ?cfg = "\<lparr>bgc_AccessMode = m, bgc_AccessSecretName = bca_AccessSecretName ref\<rparr>"
  let ?f = "\<lambda>r. map_of ids (bca_BucketClaimName r)"
  have c: "claim_config ref cfg \<longleftrightarrow> cfg = ?cfg"
    using m by (cases cfg) (auto simp: claim_config_def)
  note IH = 2(3) [OF j m]
  have "map_of configs' i = Some cfg \<longleftrightarrow> (\<exists>r \<in> set (last_by ?f refs). ?f r = Some i \<and> claim_config r cfg) \<or>
      Some i \<notin> ?f ` set refs \<and> map_of (gput j ?cfg configs) i = Some cfg"
    using IH 2(4) j m by simp
  also have "\<dots> \<longleftrightarrow> (\<exists>r \<in> set (last_by ?f (ref # refs)). ?f r = Some i \<and> claim_config r cfg) \<or>
      Some i \<notin> ?f ` set (ref # refs) \<and> map_of configs i = Some cfg"
    using j c by (auto simp: update_conv')
  finally show ?case .
qed simp

lemma map_of_fold_put: "map_of (fold (\<lambda>x. gput (f x) (g x)) xs m) = map_of m ++ map_of (rev (map (\<lambda>x. (f x, g x)) xs))"
  by (induction xs arbitrary: m) (simp_all add: update_conv')

text \<open>The configurations are those of the served claims, each under its bucket ID.\<close>

lemma generate_lookup:
  assumes "generateInternalAccessedBucketConfigs a = Inr configs"
  shows "map_of configs i = Some cfg \<longleftrightarrow> (\<exists>ref \<in> set (served_claims a). bucket_id_of a ref = Some i \<and> claim_config ref cfg)"
    and "ref \<in> set (baSpec_BucketClaims (ba_Spec a)) \<Longrightarrow>
      (\<exists>i. bucket_id_of a ref = Some i \<and> i \<in> set (gkeys configs)) \<and> (\<exists>m. AccessModeToRpc (bca_AccessMode ref) = Inr m)"
proof -
  let ?ids = "fold (\<lambda>ab. gput (ab_BucketClaimName ab) (ab_BucketID ab)) (baStatus_AccessedBuckets (ba_Status a)) []"
  have loop: "access_config_loop ?ids (baSpec_BucketClaims (ba_Spec a)) [] [] = (configs, [])"
    using assms by (auto simp: generateInternalAccessedBucketConfigs_def Let_def split: prod.splits if_splits)
  have ids: "(\<lambda>r. map_of ?ids (bca_BucketClaimName r)) = bucket_id_of a"
    by (simp add: bucket_id_of_def [abs_def] map_of_fold_put)
  show "map_of configs i = Some cfg \<longleftrightarrow> (\<exists>ref \<in> set (served_claims a). bucket_id_of a ref = Some i \<and> claim_config ref cfg)"
    using access_config_loop_lookup [OF loop] unfolding ids served_claims_def by (simp add: ids [THEN fun_cong])
  show "ref \<in> set (baSpec_BucketClaims (ba_Spec a)) \<Longrightarrow>
      (\<exists>i. bucket_id_of a ref = Some i \<and> i \<in> set (gkeys configs)) \<and> (\<exists>m. AccessModeToRpc (bca_AccessMode ref) = Inr m)"
    using access_config_loop_ok [OF loop] access_config_loop_modes [OF loop] ids [THEN fun_cong] by auto
qed

lemma generate_keys:
  assumes "generateInternalAccessedBucketConfigs a = Inr configs"
  shows "set (gkeys configs) = {i. \<exists>ref \<in> set (baSpec_BucketClaims (ba_Spec a)). bucket_id_of a ref = Some i}"
proof -
  have "i \<in> set (gkeys configs) \<longleftrightarrow> (\<exists>cfg. map_of configs i = Some cfg)" for i
    by (metis map_of_eq_None_iff not_None_eq set_map)
  then show ?thesis
    using generate_lookup [OF assms] last_by_subset [of "bucket_id_of a" "baSpec_BucketClaims (ba_Spec a)"]
    unfolding served_claims_def by fastforce
qed

lemma distinct_Merge: "distinct (gkeys t) \<Longrightarrow> distinct (gkeys (MergeApiInfoIntoStringMap rank info t))"
  unfolding MergeApiInfoIntoStringMap_def by (simp split: option.split add: alist.ok_fold_put)

lemma CredentialsToApi_distinct: "CredentialsToApi rank ci v = Inr m \<Longrightarrow> distinct (gkeys m)"
  by (auto simp: CredentialsToApi_def Let_def distinct_Merge simp del: distinct_map split: option.splits if_splits)

lemma BucketInfoToApi_distinct: "BucketInfoToApi rank bi v = Inr (ps, m) \<Longrightarrow> distinct (gkeys m)"
  by (auto simp: BucketInfoToApi_def Let_def distinct_Merge simp del: distinct_map split: option.splits if_splits)

lemma granted_bucket_loop_ok:
  assumes "granted_bucket_loop rank v n bs infos errs = (infos', [])"
  shows "errs = [] \<and>
     (\<forall>b \<in> set bs. gbi_BucketId b \<noteq> '''' \<and> gbi_BucketId b \<in> set (gkeys infos')) \<and>
     set (gkeys infos) \<subseteq> set (gkeys infos') \<and>
     (\<forall>i info. map_of infos' i = Some info \<longrightarrow> map_of infos i = Some info \<or>
        (\<exists>b \<in> set bs. gbi_BucketId b = i \<and> (\<exists>ps. BucketInfoToApi rank (gbi_BucketInfo b) (Some v) = Inr (ps, info))))"
  using assms
proof (induction rank v n bs infos errs rule: granted_bucket_loop.induct)
  case (2 rank v n b bs infos errs)
  have ne: "gbi_BucketId b \<noteq> ''''"
  proof
    assume "gbi_BucketId b = ''''"
    then show False using 2(1) 2(4) by simp
  qed
  obtain ps info where t: "BucketInfoToApi rank (gbi_BucketInfo b) (Some v) = Inr (ps, info)"
    using 2(2) 2(4) ne by (cases "BucketInfoToApi rank (gbi_BucketInfo b) (Some v)") auto
  have loop: "granted_bucket_loop rank v (Suc n) bs (gput (gbi_BucketId b) info infos) errs = (infos', [])"
    using 2(4) ne t by simp
  note IH = 2(3) [OF ne t refl loop]
  have "map_of infos i = Some x \<or> (\<exists>b' \<in> set (b # bs). gbi_BucketId b' = i \<and>
      (\<exists>ps. BucketInfoToApi rank (gbi_BucketInfo b') (Some v) = Inr (ps, x)))" if "map_of infos' i = Some x" for i x
  proof -
    have "map_of (gput (gbi_BucketId b) info infos) i = Some x \<or>
        (\<exists>b \<in> set bs. gbi_BucketId b = i \<and> (\<exists>ps. BucketInfoToApi rank (gbi_BucketInfo b) (Some v) = Inr (ps, x)))"
      using IH that by blast
    then show ?thesis using t by (auto simp: update_conv' split: if_splits)
  qed
  then show ?case using IH ne by (simp add: gkeys_put del: set_map)
qed simp

text \<open>The driver's answer as it is used: the account, the shared credentials, and for each bucket ID the
  validated info of an answer for that ID.\<close>

lemma translateDriverGrantBucketAccessResponseToApi_Inr:
  assumes "translateDriverGrantBucketAccessResponseToApi rank resp v = Inr d"
  shows "gd_AccountId d = gar_AccountId resp \<and> gar_AccountId resp \<noteq> ''''"
    and "CredentialsToApi rank (gar_Credentials resp) v = Inr (gd_SharedCredentialInfo d)"
    and "gbi_BucketId ` set (gar_Buckets resp) \<subseteq> set (gkeys (gd_BucketInfoByBucketId d))"
    and "map_of (gd_BucketInfoByBucketId d) i = Some info \<Longrightarrow>
      i \<noteq> '''' \<and> (\<exists>b \<in> set (gar_Buckets resp). gbi_BucketId b = i \<and>
        (\<exists>ps. BucketInfoToApi rank (gbi_BucketInfo b) (Some v) = Inr (ps, info)))"
proof -
  obtain errs0 where loop: "granted_bucket_loop rank v 0 (gar_Buckets resp) [] errs0 = (gd_BucketInfoByBucketId d, [])"
    and e0: "errs0 = (if gar_AccountId resp = '''' then [Errorf ''missing account ID'' []] else []) @
        (case CredentialsToApi rank (gar_Credentials resp) v of
           Inl e \<Rightarrow> [Wrapf ''shared credentials are invalid: %w'' [] e] | Inr _ \<Rightarrow> [])"
    using assms by (auto simp: translateDriverGrantBucketAccessResponseToApi_def Let_def split: prod.splits if_splits)
  note ok = granted_bucket_loop_ok [OF loop]
  obtain creds where creds: "CredentialsToApi rank (gar_Credentials resp) v = Inr creds" and acct: "gar_AccountId resp \<noteq> ''''"
    using ok e0 by (auto split: sum.splits if_splits)
  show "gd_AccountId d = gar_AccountId resp \<and> gar_AccountId resp \<noteq> ''''"
    and "CredentialsToApi rank (gar_Credentials resp) v = Inr (gd_SharedCredentialInfo d)"
    using assms creds acct
    by (auto simp: translateDriverGrantBucketAccessResponseToApi_def Let_def split: prod.splits if_splits)
  show "gbi_BucketId ` set (gar_Buckets resp) \<subseteq> set (gkeys (gd_BucketInfoByBucketId d))" using ok by blast
  show "map_of (gd_BucketInfoByBucketId d) i = Some info \<Longrightarrow>
      i \<noteq> '''' \<and> (\<exists>b \<in> set (gar_Buckets resp). gbi_BucketId b = i \<and>
        (\<exists>ps. BucketInfoToApi rank (gbi_BucketInfo b) (Some v) = Inr (ps, info)))"
    using ok by fastforce
qed

lemma Merge_lookup:
  "distinct (gkeys m) \<Longrightarrow> map_of (MergeApiInfoIntoStringMap rank (Some m) t) = map_of t ++ map_of m"
  by (simp add: MergeApiInfoIntoStringMap_def range_map_copy)

lemma secret_data_lookup:
  assumes "translateDriverGrantBucketAccessResponseToApi rank resp v = Inr d"
    and "map_of (gd_BucketInfoByBucketId d) i = Some info"
  shows "map_of (MergeApiInfoIntoStringMap rank' (Some info)
      (MergeApiInfoIntoStringMap rank' (Some (gd_SharedCredentialInfo d)) [])) =
    map_of (gd_SharedCredentialInfo d) ++ map_of info"
proof -
  have "distinct (gkeys (gd_SharedCredentialInfo d))"
    using translateDriverGrantBucketAccessResponseToApi_Inr(2) [OF assms(1)] by (rule CredentialsToApi_distinct)
  moreover have "distinct (gkeys info)"
    using translateDriverGrantBucketAccessResponseToApi_Inr(4) [OF assms] BucketInfoToApi_distinct by blast
  ultimately show ?thesis by (simp add: Merge_lookup)
qed

lemma generate_loop:
  assumes "generateInternalAccessedBucketConfigs a = Inr configs"
  obtains ids where "access_config_loop ids (baSpec_BucketClaims (ba_Spec a)) [] [] = (configs, [])"
  using assms that by (auto simp: generateInternalAccessedBucketConfigs_def Let_def split: prod.splits if_splits)

text \<open>The configuration of an ID is that of a claim that maps to the ID, and a claim maps to one ID.\<close>

lemma generate_ids:
  assumes "generateInternalAccessedBucketConfigs a = Inr configs"
  shows "\<exists>ids. \<forall>i cfg. map_of configs i = Some cfg \<longrightarrow> (\<exists>ref \<in> set (baSpec_BucketClaims (ba_Spec a)).
     map_of ids (bca_BucketClaimName ref) = Some i \<and> claim_config ref cfg)"
proof -
  obtain ids where "access_config_loop ids (baSpec_BucketClaims (ba_Spec a)) [] [] = (configs, [])"
    using generate_loop [OF assms] by blast
  from access_config_loop_ok [OF this] show ?thesis by (intro exI [of _ ids]) simp
qed

lemma access_config_loop_distinct:
  "distinct (gkeys configs) \<Longrightarrow> access_config_loop ids refs configs errs = (configs', errs') \<Longrightarrow> distinct (gkeys configs')"
  by (induction ids refs configs errs rule: access_config_loop.induct)
    (auto simp: alist.ok_put simp del: distinct_map split: option.splits sum.splits)

lemma generate_distinct: "generateInternalAccessedBucketConfigs a = Inr configs \<Longrightarrow> distinct (gkeys configs)"
  by (erule generate_loop) (erule access_config_loop_distinct [rotated], simp)

lemma granted_bucket_loop_distinct:
  "distinct (gkeys infos) \<Longrightarrow> granted_bucket_loop rank v n bs infos errs = (infos', errs') \<Longrightarrow> distinct (gkeys infos')"
  by (induction rank v n bs infos errs rule: granted_bucket_loop.induct)
    (auto simp: alist.ok_put simp del: distinct_map split: if_splits sum.splits)

lemma translate_grant_distinct:
  "translateDriverGrantBucketAccessResponseToApi rank resp v = Inr d \<Longrightarrow> distinct (gkeys (gd_BucketInfoByBucketId d))"
  by (auto simp: translateDriverGrantBucketAccessResponseToApi_def Let_def simp del: distinct_map
      dest!: granted_bucket_loop_distinct [rotated] split: prod.splits if_splits)

subsection \<open>The shell\<close>

text \<open>When a run has succeeded: the BucketAccess does not exist, it is not this Sidecar's and was only read, or the last call
  stored it ready with an account and without error, or with the mark that hands it back; and no call failed but a read that
  found nothing.\<close>

definition access_sidecar_fine :: "DriverInfo \<Rightarrow> call list \<Rightarrow> bool" where
  "access_sidecar_fine d h \<longleftrightarrow>
     unfailed (\<lambda>c. case c of GetAccess _ _ \<Rightarrow> True | GetSecret _ _ \<Rightarrow> True | _ \<Rightarrow> False) h \<and>
     (case h of
        GetAccess _ (Inl _) # _ \<Rightarrow> True
      | [GetAccess _ (Inr a)] \<Rightarrow> \<not> ManagedBySidecar a \<or> baStatus_DriverName (ba_Status a) \<noteq> di_Name d
      | StatusAccess a (Inr _) # _ \<Rightarrow> baStatus_Error (ba_Status a) = None \<and> baStatus_ReadyToUse (ba_Status a) = Some True \<and>
          baStatus_AccountID (ba_Status a) \<noteq> ''''
      | UpdateAccess a (Inr _) # _ \<Rightarrow> ghas (Annotations (ba_meta a)) SidecarCleanupFinishedAnnotation
      | _ \<Rightarrow> False)"

abbreviation sidecar_unfailed :: "call list \<Rightarrow> bool" where
  "sidecar_unfailed \<equiv> unfailed (\<lambda>c. case c of GetAccess _ _ \<Rightarrow> True | GetSecret _ _ \<Rightarrow> True | _ \<Rightarrow> False)"

lemma getAndValidate_unfailed:
  assumes "sidecar_unfailed h"
  shows "vc (getAndValidateAllAccessedBuckets E) (\<lambda>_ h' ob'. sidecar_unfailed h') (\<lambda>_ _ _. True) h ob"
  unfolding getAndValidateAllAccessedBuckets_def Let_def
  using assms by (intro vc_intros vc_foldM [where I = "\<lambda>errs h' ob'. errs = [] \<longrightarrow> sidecar_unfailed h'"]) auto

lemma reserve_unfailed:
  assumes "sidecar_unfailed h"
  shows "vc (reserveAccessSecrets E) (\<lambda>_ h' ob'. sidecar_unfailed h') (\<lambda>_ _ _. True) h ob"
  unfolding reserveAccessSecrets_def createNewOwnedAccessSecret_def updateExistingAccessSecretMetadata_def Let_def
  using assms by (intro vc_intros vc_foldM [where I = "\<lambda>(_, errs) h' ob'. errs = [] \<longrightarrow> sidecar_unfailed h'"]) auto

lemma updateSecrets_unfailed:
  assumes "sidecar_unfailed h"
  shows "vc (updateSecretsWithGrantedInfo E cfg details) (\<lambda>_ h' ob'. sidecar_unfailed h') (\<lambda>_ _ _. True) h ob"
  unfolding updateSecretsWithGrantedInfo_def fill_secret_def Let_def
  using assms by (intro vc_intros vc_foldM [where I = "\<lambda>(_, errs) h' ob'. errs = [] \<longrightarrow> sidecar_unfailed h'"]) auto

lemma deleteSecrets_unfailed:
  assumes "sidecar_unfailed h"
  shows "vc (deleteOwnedAccessSecrets E) (\<lambda>_ h' ob'. sidecar_unfailed h') (\<lambda>_ _ _. True) h ob"
  unfolding deleteOwnedAccessSecrets_def Let_def
  using assms by (intro vc_intros vc_foldM [where I = "\<lambda>errs h' ob'. errs = [] \<longrightarrow> sidecar_unfailed h'"]) auto

lemma revoke_unfailed:
  assumes "sidecar_unfailed h"
  shows "vc (driverRevokeAccess E) (\<lambda>_ h' ob'. sidecar_unfailed h') (\<lambda>_ _ _. True) h ob"
  unfolding driverRevokeAccess_def Let_def using assms by (intro vc_intros) auto

lemma grant_access_fine:
  assumes "sidecar_unfailed h"
  shows "vc (grant_access E cfg) (\<lambda>_ h' ob'. access_sidecar_fine d h') (\<lambda>_ _ _. True) h ob"
  unfolding grant_access_def Let_def
  using assms by (intro vc_intros updateSecrets_unfailed [THEN vc_mono])
    (auto simp: access_sidecar_fine_def access_status_def dest: translateDriverGrantBucketAccessResponseToApi_Inr(1))

lemma access_sidecar_delete_fine:
  assumes "sidecar_unfailed h"
  shows "vc (access_sidecar_reconcileDelete E) (\<lambda>_ h' ob'. access_sidecar_fine d h') (\<lambda>_ _ _. True) h ob"
  unfolding access_sidecar_reconcileDelete_def
  using assms by (intro vc_intros deleteSecrets_unfailed [THEN vc_mono] revoke_unfailed [THEN vc_mono])
    (auto simp: access_sidecar_fine_def mark_cleanup_finished_def)

lemma access_sidecar_reconcile_fine:
  "vc (access_sidecar_reconcile d E) (\<lambda>_ h' ob'. access_sidecar_fine d h') (\<lambda>_ _ _. True) [GetAccess req (Inr a)] a"
  unfolding access_sidecar_reconcile_def
  by (intro vc_intros access_sidecar_delete_fine ensure_access_finalizer_unfailed [THEN vc_mono] getAndValidate_unfailed [THEN vc_mono]
      reserve_unfailed [THEN vc_mono] grant_access_fine)
    (auto simp: access_sidecar_fine_def)

interpretation access_sidecar_rec: reconciler "access_sidecar_Reconcile d" e_GetAccess GetAccess ManagedBySidecar
  "access_sidecar_reconcile d" "Wrapf ''COSI Sidecar error: %w'' []" access_report "\<lambda>_. ret Success" "access_sidecar_fine d" for d
proof
  show "access_sidecar_Reconcile d E req =
      handle (ask (e_GetAccess E req) (GetAccess req)) (\<lambda>e. if IsNotFound e then ret Success else ret (Requeue e))
        (\<lambda>x. if ManagedBySidecar x then seq (upd_obj (\<lambda>_. x))
           (handle (access_sidecar_reconcile d E) (\<lambda>e. access_report E (Wrapf ''COSI Sidecar error: %w'' [] e)) (\<lambda>_. ret Success))
         else ret Success)" for E :: "'w env" and req
    unfolding access_sidecar_Reconcile_def access_report_def Let_def if_swap by (rule refl)
  show "vc (access_sidecar_reconcile d E) (\<lambda>_ h ob. access_sidecar_fine d h) (\<lambda>_ _ _. True) [GetAccess req (Inr x)] x"
    for E :: "'w env" and req x
    by (rule access_sidecar_reconcile_fine)
  show "vc (access_report E e) (\<lambda>r h ob. r \<in> {Terminal e, Requeue e} \<and> outcome_ok (access_sidecar_fine d) r h) (\<lambda>_ _ _. False) h0 ob0"
    for E :: "'w env" and e h0 ob0
    by (rule vc_access_report)
qed (simp_all add: access_sidecar_fine_def vc_ret)

subsection \<open>Reading a Secret back\<close>

lemma s3_canon_valid:
  "S3BucketInfo_Validate (S3BucketInfo_RpcToApi (Some i)) auth = None \<Longrightarrow> s3_canon i = i"
  by (cases "s3_AddressingStyle i")
    (auto simp: S3BucketInfo_Validate_def translator_defs s3_style_defs validS3AddressingStyles_def api_consts rpc_consts Let_def split: if_splits)

text \<open>Credentials and bucket info of one protocol, read back from the data of a Secret.\<close>

lemma read_back_pair:
  assumes "map_of data = A ++ B" and "dom A \<inter> dom B = {}"
  shows "f \<in> dom A \<Longrightarrow> map_of data f = A f" and "f \<in> dom B \<Longrightarrow> map_of data f = B f"
  using assms by (auto simp: map_add_def split: option.splits)

lemma vars_of_None [simp]:
  "vars_of S3BucketInfoTranslator None = Map.empty" "vars_of AzureBucketInfoTranslator None = Map.empty"
  "vars_of GcsBucketInfoTranslator None = Map.empty" "vars_of S3CredentialTranslator None = Map.empty"
  "vars_of AzureCredentialTranslator None = Map.empty" "vars_of GcsCredentialTranslator None = Map.empty"
  using s3b.dom_vars_of [of None] azb.dom_vars_of [of None] gcb.dom_vars_of [of None]
    s3c.dom_vars_of [of None] azc.dom_vars_of [of None] gcc.dom_vars_of [of None] by simp_all

lemma s3_read_back:
  assumes "map_of data = vars_of S3CredentialTranslator (Some c) ++ vars_of S3BucketInfoTranslator (Some b)"
  shows "S3Credential_ApiToRpc (Some data) = Some c" and "S3BucketInfo_ApiToRpc (Some data) = Some (s3_canon b)"
proof -
  note p = read_back_pair [OF assms]
  have d: "dom (vars_of S3CredentialTranslator (Some c)) \<inter> dom (vars_of S3BucketInfoTranslator (Some b)) = {}"
    by (simp add: s3c.dom_vars_of s3b.dom_vars_of api_consts)
  show "S3Credential_ApiToRpc (Some data) = Some c"
    using s3c.read_back_vars [of c data] p(1) [OF d] by (simp add: S3CredentialTranslator_def)
  show "S3BucketInfo_ApiToRpc (Some data) = Some (s3_canon b)"
    using s3b.read_back_vars [of b data] p(2) [OF d] by (simp add: S3BucketInfoTranslator_def)
qed

lemma azure_read_back:
  assumes "map_of data = vars_of AzureCredentialTranslator (Some c) ++ vars_of AzureBucketInfoTranslator (Some b)"
  shows "AzureCredential_ApiToRpc (Some data) = Some c" and "AzureBucketInfo_ApiToRpc (Some data) = Some b"
proof -
  note p = read_back_pair [OF assms]
  have d: "dom (vars_of AzureCredentialTranslator (Some c)) \<inter> dom (vars_of AzureBucketInfoTranslator (Some b)) = {}"
    by (simp add: azc.dom_vars_of azb.dom_vars_of api_consts)
  show "AzureCredential_ApiToRpc (Some data) = Some c"
    using azc.read_back_vars [of c data] p(1) [OF d] by (simp add: AzureCredentialTranslator_def)
  show "AzureBucketInfo_ApiToRpc (Some data) = Some b"
    using azb.read_back_vars [of b data] p(2) [OF d] by (simp add: AzureBucketInfoTranslator_def)
qed

lemma gcs_read_back:
  assumes "map_of data = vars_of GcsCredentialTranslator (Some c) ++ vars_of GcsBucketInfoTranslator (Some b)"
  shows "GcsCredential_ApiToRpc (Some data) = Some c" and "GcsBucketInfo_ApiToRpc (Some data) = Some b"
proof -
  note p = read_back_pair [OF assms]
  have d: "dom (vars_of GcsCredentialTranslator (Some c)) \<inter> dom (vars_of GcsBucketInfoTranslator (Some b)) = {}"
    by (simp add: gcc.dom_vars_of gcb.dom_vars_of api_consts)
  show "GcsCredential_ApiToRpc (Some data) = Some c"
    using gcc.read_back_vars [of c data] p(1) [OF d] by (simp add: GcsCredentialTranslator_def)
  show "GcsBucketInfo_ApiToRpc (Some data) = Some b"
    using gcb.read_back_vars [of b data] p(2) [OF d] by (simp add: GcsBucketInfoTranslator_def)
qed

text \<open>The info and the credentials the driver gave, as a Secret gives them back.\<close>

definition gives_back :: "ObjectProtocol \<Rightarrow> (string, string) gomap \<Rightarrow> CredentialInfo \<Rightarrow> ObjectProtocolAndBucketInfo \<Rightarrow> bool" where
  "gives_back protocol data c b =
     (if protocol = ObjectProtocolS3
        then S3Credential_ApiToRpc (Some data) = ci_S3 c \<and> S3BucketInfo_ApiToRpc (Some data) = opbi_S3 b
      else if protocol = ObjectProtocolAzure
        then AzureCredential_ApiToRpc (Some data) = ci_Azure c \<and> AzureBucketInfo_ApiToRpc (Some data) = opbi_Azure b
      else if protocol = ObjectProtocolGcs
        then GcsCredential_ApiToRpc (Some data) = ci_Gcs c \<and> GcsBucketInfo_ApiToRpc (Some data) = opbi_Gcs b
      else data = [])"

text \<open>What is behind credentials and bucket info that were accepted together.\<close>

lemma accepted_parts:
  assumes "CredentialsToApi rank (Some c) v = Inr creds" and "BucketInfoToApi rank (Some b) (Some v) = Inr (ps, info)"
  shows "acceptable S3CredentialTranslator (Some v) (ci_S3 c) \<and> acceptable AzureCredentialTranslator (Some v) (ci_Azure c) \<and>
      acceptable GcsCredentialTranslator (Some v) (ci_Gcs c) \<and> acceptable S3BucketInfoTranslator (Some v) (opbi_S3 b) \<and>
      acceptable AzureBucketInfoTranslator (Some v) (opbi_Azure b) \<and> acceptable GcsBucketInfoTranslator (Some v) (opbi_Gcs b)"
    and "map_of creds = vars_of S3CredentialTranslator (ci_S3 c) ++ vars_of AzureCredentialTranslator (ci_Azure c) ++
      vars_of GcsCredentialTranslator (ci_Gcs c)"
    and "map_of info = vars_of S3BucketInfoTranslator (opbi_S3 b) ++
      vars_of AzureBucketInfoTranslator (opbi_Azure b) ++ vars_of GcsBucketInfoTranslator (opbi_Gcs b)"
  using assms CredentialsToApi_succeeds [of rank c v] BucketInfoToApi_succeeds [of rank b "Some v"]
  by (auto elim: CredentialsToApi_Inr BucketInfoToApi_Inr)

lemma protocols_differ:
  "ObjectProtocolS3 \<noteq> ObjectProtocolAzure" "ObjectProtocolS3 \<noteq> ObjectProtocolGcs" "ObjectProtocolAzure \<noteq> ObjectProtocolGcs"
  by (simp_all add: api_consts)

lemma gives_backI:
  assumes "CredentialsToApi rank (Some c) v = Inr creds" and "BucketInfoToApi rank (Some b) (Some v) = Inr (ps, info)"
    and "map_of data = map_of creds ++ map_of info"
  shows "gives_back (ExpectedProtocol v) data c b"
proof -
  note parts = accepted_parts [OF assms(1,2)]
  note m = assms(3) [unfolded parts(2,3)]
  note acc = parts(1) [unfolded acceptable_defs, simplified]
  show ?thesis
    unfolding gives_back_def using m acc protocols_differ protocols_differ [symmetric]
    by (auto simp: s3_read_back azure_read_back gcs_read_back s3_canon_valid split: if_splits)
qed

lemma granted_source:
  assumes "translateDriverGrantBucketAccessResponseToApi rank resp v = Inr d"
    and "map_of (gd_BucketInfoByBucketId d) i = Some info"
  obtains c b bi ps where "gar_Credentials resp = Some c" "b \<in> set (gar_Buckets resp)" "gbi_BucketId b = i" "gbi_BucketInfo b = Some bi"
    "CredentialsToApi rank (Some c) v = Inr (gd_SharedCredentialInfo d)" "BucketInfoToApi rank (Some bi) (Some v) = Inr (ps, info)"
proof -
  note t = translateDriverGrantBucketAccessResponseToApi_Inr [OF assms(1)]
  obtain c where c: "gar_Credentials resp = Some c" using t(2) by (rule CredentialsToApi_Inr)
  obtain b ps where b: "b \<in> set (gar_Buckets resp)" "gbi_BucketId b = i"
      "BucketInfoToApi rank (gbi_BucketInfo b) (Some v) = Inr (ps, info)"
    using t(4) [OF assms(2)] by blast
  obtain bi where bi: "gbi_BucketInfo b = Some bi" using b(3) by (rule BucketInfoToApi_Inr)
  show thesis using that [OF c b(1,2) bi] t(2) b(3) c bi by simp
qed

text \<open>C27. A granted access can be used from its Secret: whatever is in the data written for a granted bucket, the
  driver's credentials and the driver's bucket info for that bucket are read back from it unchanged, for
  the protocol of the access.\<close>

theorem granted_secret_readable:
  assumes "translateDriverGrantBucketAccessResponseToApi rank resp v = Inr d"
    and "map_of (gd_BucketInfoByBucketId d) i = Some info"
  shows "let data = MergeApiInfoIntoStringMap rank' (Some info) (MergeApiInfoIntoStringMap rank' (Some (gd_SharedCredentialInfo d)) [])
    in \<exists>c b bi. gar_Credentials resp = Some c \<and> b \<in> set (gar_Buckets resp) \<and> gbi_BucketId b = i \<and>
         gbi_BucketInfo b = Some bi \<and> gives_back (ExpectedProtocol v) data c bi"
  using assms
proof (rule granted_source)
  fix c b bi ps
  assume b: "gar_Credentials resp = Some c" "b \<in> set (gar_Buckets resp)" "gbi_BucketId b = i" "gbi_BucketInfo b = Some bi"
    and t: "CredentialsToApi rank (Some c) v = Inr (gd_SharedCredentialInfo d)" "BucketInfoToApi rank (Some bi) (Some v) = Inr (ps, info)"
  show ?thesis using gives_backI [OF t secret_data_lookup [OF assms, of rank']] b by (auto simp: Let_def)
qed

text \<open>The variables of a protocol.\<close>

definition protocol_vars :: "ObjectProtocol \<Rightarrow> string set" where
  "protocol_vars protocol =
     (if protocol = ObjectProtocolS3
        then {BucketInfoVar_S3_BucketId, BucketInfoVar_S3_Endpoint, BucketInfoVar_S3_Region, BucketInfoVar_S3_AddressingStyle,
              CredentialVar_S3_AccessKeyId, CredentialVar_S3_AccessSecretKey}
      else if protocol = ObjectProtocolAzure
        then {BucketInfoVar_Azure_StorageAccount, CredentialVar_Azure_AccessToken, CredentialVar_Azure_ExpiryTimestamp}
      else if protocol = ObjectProtocolGcs
        then {BucketInfoVar_GCS_ProjectId, BucketInfoVar_GCS_BucketName, CredentialVar_GCS_AccessId, CredentialVar_GCS_AccessSecret,
              CredentialVar_GCS_PrivateKeyName, CredentialVar_GCS_ServiceAccount}
      else {})"

lemma accepted_vars:
  assumes "CredentialsToApi rank (Some c) v = Inr creds" and "BucketInfoToApi rank (Some b) (Some v) = Inr (ps, info)"
  shows "dom (map_of creds ++ map_of info) = protocol_vars (ExpectedProtocol v)"
proof -
  note parts = accepted_parts [OF assms]
  note acc = parts(1) [unfolded acceptable_defs, simplified]
  show ?thesis
    unfolding protocol_vars_def parts(2,3) dom_map_add s3c.dom_vars_of azc.dom_vars_of gcc.dom_vars_of s3b.dom_vars_of
      azb.dom_vars_of gcb.dom_vars_of
    using acc protocols_differ protocols_differ [symmetric] by (auto split: if_splits)
qed

text \<open>The data written into a Secret for a granted bucket holds exactly the variables of the access's protocol, every one
  of them; the variable with the name of the protocol, which \<open>protocols.go\<close> calls required in every Secret, is not among them.\<close>

lemma granted_secret_keys:
  assumes "translateDriverGrantBucketAccessResponseToApi rank resp v = Inr d"
    and "map_of (gd_BucketInfoByBucketId d) i = Some info"
  shows "let data = MergeApiInfoIntoStringMap rank' (Some info) (MergeApiInfoIntoStringMap rank' (Some (gd_SharedCredentialInfo d)) [])
    in set (gkeys data) = protocol_vars (ExpectedProtocol v) \<and> \<not> ghas data BucketInfoVar_Protocol"
  using assms
proof (rule granted_source)
  let ?data = "MergeApiInfoIntoStringMap rank' (Some info) (MergeApiInfoIntoStringMap rank' (Some (gd_SharedCredentialInfo d)) [])"
  fix c bi ps
  assume "CredentialsToApi rank (Some c) v = Inr (gd_SharedCredentialInfo d)" "BucketInfoToApi rank (Some bi) (Some v) = Inr (ps, info)"
  from accepted_vars [OF this] have "set (gkeys ?data) = protocol_vars (ExpectedProtocol v)"
    using secret_data_lookup [OF assms, of rank'] by (metis dom_map_of_conv_image_fst set_map)
  then show ?thesis by (simp add: Let_def ghas_iff_keys protocol_vars_def api_consts del: set_map)
qed

text \<open>An answer of a driver with one Azure bucket.\<close>

definition sample_grant :: DriverGrantBucketAccessResponse where
  "sample_grant = \<lparr>gar_AccountId = ''acct'',
     gar_Buckets = [\<lparr>gbi_BucketId = ''bkt'', gbi_BucketInfo = Some \<lparr>opbi_S3 = None, opbi_Azure = Some \<lparr>az_StorageAccount = ''store''\<rparr>,
       opbi_Gcs = None\<rparr>\<rparr>],
     gar_Credentials = Some \<lparr>ci_S3 = None, ci_Azure = Some \<lparr>azc_AccessToken = ''token'', azc_ExpiryTimestamp = ''''\<rparr>, ci_Gcs = None\<rparr>\<rparr>"

definition sample_validation :: ValidationConfig where
  "sample_validation = \<lparr>ExpectedProtocol = ObjectProtocolAzure, AuthenticationType = BucketAccessAuthenticationTypeKey\<rparr>"

definition sample_details :: grantedAccessApiDetails where
  "sample_details = \<lparr>gd_AccountId = ''acct'',
     gd_SharedCredentialInfo = [(CredentialVar_Azure_AccessToken, ''token''), (CredentialVar_Azure_ExpiryTimestamp, '''')],
     gd_BucketInfoByBucketId = [(''bkt'', [(BucketInfoVar_Azure_StorageAccount, ''store'')])]\<rparr>"

lemma sample_translated:
  "translateDriverGrantBucketAccessResponseToApi (\<lambda>_. 0) sample_grant sample_validation = Inr sample_details"
  by code_simp

theorem granted_secret_readable_witness:
  "let data = MergeApiInfoIntoStringMap (\<lambda>_. 0) (Some [(BucketInfoVar_Azure_StorageAccount, ''store'')])
       (MergeApiInfoIntoStringMap (\<lambda>_. 0) (Some (gd_SharedCredentialInfo sample_details)) [])
   in \<exists>c b bi. gar_Credentials sample_grant = Some c \<and> b \<in> set (gar_Buckets sample_grant) \<and> gbi_BucketId b = ''bkt'' \<and>
        gbi_BucketInfo b = Some bi \<and> gives_back ObjectProtocolAzure data c bi"
  using granted_secret_readable [OF sample_translated, of "''bkt''" "[(BucketInfoVar_Azure_StorageAccount, ''store'')]" "\<lambda>_. 0"]
  by (simp add: sample_details_def sample_validation_def)

text \<open>The driver's answer is accepted against the request exactly when the buckets granted are the buckets
  requested, none missing and none unknown.\<close>

lemma validateGrantedAccess_iff:
  "validateGrantedAccess rank1 rank2 cfg granted = None \<longleftrightarrow>
     dom (map_of (igc_AccessConfigsByBucketId cfg)) = dom (map_of (gd_BucketInfoByBucketId granted))"
  by (simp add: validateGrantedAccess_None dom_map_of_conv_image_fst)

end
