(* ===== verification/Access_Sidecar_Policy.thy ===== *)
theory Access_Sidecar_Policy
  imports Access_Sidecar
begin

text \<open>
  What the Sidecar's BucketAccess reconciler may do, for every behaviour of the API server and of the
  driver:
  \<^item> it writes and calls the driver only for a BucketAccess that is the Sidecar's and names its driver;
  \<^item> a Secret is created only where none exists and controlled by the BucketAccess; it is changed only
    when it is controlled by the BucketAccess, to reserve it, to fill it with what the driver
    granted for the bucket it is for, or to give it up on deletion; it is deleted only then;
  \<^item> the driver is asked for access only with the account name, protocol and buckets of the
    BucketAccess, after every accessed Bucket was found ready and every Secret reserved;
  \<^item> the BucketAccess becomes ready only with the account ID the driver gave and after every Secret was
    filled, and what the Controller put into the status is never changed;
  \<^item> on deletion the Secrets go first, then the access is revoked if an account is recorded, and only then
    is the BucketAccess handed back.
\<close>

subsection \<open>Policy\<close>

definition got_secret_at :: "NamespacedName \<Rightarrow> call \<Rightarrow> Secret option" where
  "got_secret_at key c = (case c of GetSecret n r \<Rightarrow> (if n = key then good r else None) | _ \<Rightarrow> None)"

definition missed_secret_at :: "NamespacedName \<Rightarrow> call \<Rightarrow> gerror option" where
  "missed_secret_at key c = (case c of GetSecret n r \<Rightarrow> (if n = key then bad r else None) | _ \<Rightarrow> None)"

definition created_secret :: "call \<Rightarrow> (Secret \<times> Secret) option" where
  "created_secret c = (case c of CreateSecret s r \<Rightarrow> map_option (Pair s) (good r) | _ \<Rightarrow> None)"

definition updated_secret :: "call \<Rightarrow> (Secret \<times> Secret) option" where
  "updated_secret c = (case c of UpdateSecret s r \<Rightarrow> map_option (Pair s) (good r) | _ \<Rightarrow> None)"

definition deleted_secret :: "call \<Rightarrow> Secret option" where
  "deleted_secret c = (case c of DeleteSecret s r \<Rightarrow> map_option (\<lambda>_. s) (good r) | _ \<Rightarrow> None)"

definition granted :: "call \<Rightarrow> (DriverGrantBucketAccessRequest \<times> DriverGrantBucketAccessResponse) option" where
  "granted c = (case c of DriverGrantBucketAccess q r \<Rightarrow> map_option (Pair q) (good r) | _ \<Rightarrow> None)"

definition revoked :: "call \<Rightarrow> DriverRevokeBucketAccessRequest option" where
  "revoked c = (case c of DriverRevokeBucketAccess q r \<Rightarrow> map_option (\<lambda>_. q) (good r) | _ \<Rightarrow> None)"

lemmas sidecar_selectors = got_access_def stored_status_def got_secret_at_def missed_secret_at_def created_secret_def
  updated_secret_def deleted_secret_def granted_def revoked_def

definition secret_key :: "BucketAccess \<Rightarrow> string \<Rightarrow> NamespacedName" where
  "secret_key a name = \<lparr>nn_Namespace = Namespace (ba_meta a), nn_Name = name\<rparr>"

text \<open>The BucketAccess is the Sidecar's, and its driver is this one.\<close>

definition mine :: "DriverInfo \<Rightarrow> call list \<Rightarrow> bool" where
  "mine d h = saw got_access (\<lambda>a. ManagedBySidecar a \<and> baStatus_DriverName (ba_Status a) = di_Name d) h"

definition deletion_seen :: "call list \<Rightarrow> bool" where
  "deletion_seen h = saw got_access (\<lambda>a. deleting (ba_meta a)) h"

text \<open>A Secret as it is stored after it was reserved for an access under a name.\<close>

definition reserved :: "call list \<Rightarrow> BucketAccess \<Rightarrow> string \<Rightarrow> Secret \<Rightarrow> bool" where
  "reserved h a name s \<longleftrightarrow>
     saw created_secret (\<lambda>(s1, s2). s2 = s \<and>
       map_sum id setAccessSecretRequiredMetadata (own_secret a (new_secret (Namespace (ba_meta a)) name)) = Inr s1) h \<or>
     saw updated_secret (\<lambda>(s1, s2). s2 = s \<and> saw (got_secret_at (secret_key a name)) (\<lambda>s0.
       IsControlledBy (sec_meta s0) (ba_meta a) \<and> s1 = setAccessSecretRequiredMetadata s0) h) h"

definition validation_of :: "BucketAccess \<Rightarrow> ValidationConfig" where
  "validation_of a = \<lparr>ExpectedProtocol = baSpec_Protocol (ba_Spec a),
     AuthenticationType = baStatus_AuthenticationType (ba_Status a)\<rparr>"

text \<open>The data of the Secret of a name: credentials and the info of the bucket of the served claim that has the name.\<close>

definition fills :: "BucketAccess \<Rightarrow> grantedAccessApiDetails \<Rightarrow> string \<Rightarrow> (string, string) gomap \<Rightarrow> bool" where
  "fills a details name data \<longleftrightarrow> (\<exists>ref \<in> set (served_claims a). \<exists>i info.
     bca_AccessSecretName ref = name \<and> bucket_id_of a ref = Some i \<and> map_of (gd_BucketInfoByBucketId details) i = Some info \<and>
     map_of data = map_of (gd_SharedCredentialInfo details) ++ map_of info)"

definition granted_as :: "call list \<Rightarrow> BucketAccess \<Rightarrow> grantedAccessApiDetails \<Rightarrow> bool" where
  "granted_as h a details = saw granted (\<lambda>(q, r). \<exists>rank.
     translateDriverGrantBucketAccessResponseToApi rank r (validation_of a) = Inr details) h"

definition fill_ok :: "call list \<Rightarrow> BucketAccess \<Rightarrow> Secret \<Rightarrow> bool" where
  "fill_ok h a s' \<longleftrightarrow> (\<exists>name s data details. reserved h a name s \<and> s' = s\<lparr>sec_StringData := data\<rparr> \<and>
     granted_as h a details \<and> fills a details name data)"

definition secret_create_ok :: "call list \<Rightarrow> Secret \<Rightarrow> bool" where
  "secret_create_ok h s = saw seen_access (\<lambda>a. list_ex (\<lambda>ref.
     saw (missed_secret_at (secret_key a (bca_AccessSecretName ref))) IsNotFound h \<and>
     map_sum id setAccessSecretRequiredMetadata
       (own_secret a (new_secret (Namespace (ba_meta a)) (bca_AccessSecretName ref))) = Inr s)
       (baSpec_BucketClaims (ba_Spec a))) h"

definition released :: "call list \<Rightarrow> BucketAccess \<Rightarrow> Secret \<Rightarrow> bool" where
  "released h a s' \<longleftrightarrow> deletion_seen h \<and> list_ex (\<lambda>ref.
     saw (got_secret_at (secret_key a (bca_AccessSecretName ref))) (\<lambda>s.
       IsControlledBy (sec_meta s) (ba_meta a) \<and> s' = release_secret s) h) (baSpec_BucketClaims (ba_Spec a))"

definition secret_update_ok :: "call list \<Rightarrow> Secret \<Rightarrow> bool" where
  "secret_update_ok h s' = saw seen_access (\<lambda>a.
     list_ex (\<lambda>ref. saw (got_secret_at (secret_key a (bca_AccessSecretName ref))) (\<lambda>s.
       IsControlledBy (sec_meta s) (ba_meta a) \<and> s' = setAccessSecretRequiredMetadata s) h) (baSpec_BucketClaims (ba_Spec a)) \<or>
     fill_ok h a s' \<or> released h a s') h"

definition secret_delete_ok :: "call list \<Rightarrow> Secret \<Rightarrow> bool" where
  "secret_delete_ok h s = saw updated_secret (\<lambda>(s1, s2). s2 = s \<and> saw seen_access (\<lambda>a. released h a s1) h) h"

text \<open>The request for access that a BucketAccess stands for: the bucket of every claim, once, with the access mode of the claim
  that is served for it (\<open>served_claims\<close>).\<close>

definition grant_request :: "BucketAccess \<Rightarrow> DriverGrantBucketAccessRequest \<Rightarrow> bool" where
  "grant_request a q \<longleftrightarrow>
     gaq_AccountName q = ''ba-'' @ UID (ba_meta a) \<and>
     ObjectProtocol_RpcToApi (op_Type (gaq_Protocol q)) = Inr (baSpec_Protocol (ba_Spec a)) \<and>
     AuthenticationTypeToRpc (baStatus_AuthenticationType (ba_Status a)) = Inr (at_Type (gaq_AuthenticationType q)) \<and>
     gaq_ServiceAccountName q =
       (if baStatus_AuthenticationType (ba_Status a) = BucketAccessAuthenticationTypeServiceAccount
        then baSpec_ServiceAccountName (ba_Spec a) else '''') \<and>
     gaq_Parameters q = baStatus_Parameters (ba_Status a) \<and>
     (\<forall>ref \<in> set (baSpec_BucketClaims (ba_Spec a)). bucket_id_of a ref \<in> Some ` gab_BucketId ` set (gaq_Buckets q)) \<and>
     distinct (map gab_BucketId (gaq_Buckets q)) \<and>
     (\<forall>b. b \<in> set (gaq_Buckets q) \<longleftrightarrow> (\<exists>ref \<in> set (served_claims a). bucket_id_of a ref = Some (gab_BucketId b) \<and>
        AccessModeToRpc (bca_AccessMode ref) = Inr (am_Mode (gab_AccessMode b))))"

definition buckets_ready :: "call list \<Rightarrow> BucketAccess \<Rightarrow> bool" where
  "buckets_ready h a = list_all (\<lambda>ab. saw (got_bucket_at (global (ab_BucketName ab))) (\<lambda>b.
     \<not> ghas (Annotations (b_meta b)) BucketClaimBeingDeletedAnnotation \<and> \<not> deleting (b_meta b) \<and>
     bStatus_BucketID (b_Status b) = ab_BucketID ab \<and> ab_BucketID ab \<noteq> '''') h) (baStatus_AccessedBuckets (ba_Status a))"

definition secrets_reserved :: "call list \<Rightarrow> BucketAccess \<Rightarrow> bool" where
  "secrets_reserved h a \<longleftrightarrow> distinct (map bca_AccessSecretName (baSpec_BucketClaims (ba_Spec a))) \<and>
     (\<forall>ref \<in> set (baSpec_BucketClaims (ba_Spec a)). \<exists>s. reserved h a (bca_AccessSecretName ref) s)"

definition grant_ok :: "call list \<Rightarrow> DriverGrantBucketAccessRequest \<Rightarrow> bool" where
  "grant_ok h q = saw seen_access (\<lambda>a. grant_request a q \<and> buckets_ready h a \<and> secrets_reserved h a) h"

text \<open>Readiness: the account of the grant, a granted bucket for the bucket of every claim and no other, and the Secrets of the
  served claims filled, each with the info of the claim's bucket.\<close>

definition secret_filled :: "call list \<Rightarrow> BucketAccess \<Rightarrow> grantedAccessApiDetails \<Rightarrow> (string, string) gomap \<Rightarrow> string \<Rightarrow> bool" where
  "secret_filled h a details info name \<longleftrightarrow> (\<exists>s data. reserved h a name s \<and>
     map_of data = map_of (gd_SharedCredentialInfo details) ++ map_of info \<and>
     saw updated_secret (\<lambda>(s1, s2). s1 = s\<lparr>sec_StringData := data\<rparr>) h)"

definition grant_recorded :: "call list \<Rightarrow> BucketAccess \<Rightarrow> BucketAccess \<Rightarrow> bool" where
  "grant_recorded h a a' \<longleftrightarrow> (\<exists>details. granted_as h a details \<and>
     baStatus_AccountID (ba_Status a') = gd_AccountId details \<and> gd_AccountId details \<noteq> '''' \<and>
     (\<forall>ref \<in> set (baSpec_BucketClaims (ba_Spec a)). bucket_id_of a ref \<noteq> None) \<and>
     Some ` set (gkeys (gd_BucketInfoByBucketId details)) = bucket_id_of a ` set (baSpec_BucketClaims (ba_Spec a)) \<and>
     (\<forall>ref \<in> set (served_claims a). \<exists>i info. bucket_id_of a ref = Some i \<and>
        map_of (gd_BucketInfoByBucketId details) i = Some info \<and> secret_filled h a details info (bca_AccessSecretName ref)))"

definition sidecar_kept :: "call list \<Rightarrow> BucketAccess \<Rightarrow> BucketAccess \<Rightarrow> bool" where
  "sidecar_kept h a a' \<longleftrightarrow> same_handoff (ba_Status a) (ba_Status a') \<and>
     (baStatus_AccountID (ba_Status a') = baStatus_AccountID (ba_Status a) \<and>
        (baStatus_ReadyToUse (ba_Status a') = Some True \<longrightarrow> baStatus_ReadyToUse (ba_Status a) = Some True) \<or>
      grant_recorded h a a')"

definition sidecar_status_ok :: "call list \<Rightarrow> BucketAccess \<Rightarrow> bool" where
  "sidecar_status_ok h a' = saw seen_access (\<lambda>a. sidecar_kept h a a') h"

text \<open>Deletion: no Secret of the BucketAccess is left under a name.\<close>

definition secret_gone :: "call list \<Rightarrow> BucketAccess \<Rightarrow> string \<Rightarrow> bool" where
  "secret_gone h a name \<longleftrightarrow>
     saw (missed_secret_at (secret_key a name)) IsNotFound h \<or>
     saw (got_secret_at (secret_key a name)) (\<lambda>s. \<not> IsControlledBy (sec_meta s) (ba_meta a) \<or>
       saw updated_secret (\<lambda>(s1, s2). s1 = release_secret s \<and> saw deleted_secret ((=) s2) h) h) h"

definition secrets_gone :: "call list \<Rightarrow> BucketAccess \<Rightarrow> bool" where
  "secrets_gone h a = list_all (\<lambda>ref. secret_gone h a (bca_AccessSecretName ref)) (baSpec_BucketClaims (ba_Spec a))"

definition revoke_ok :: "call list \<Rightarrow> DriverRevokeBucketAccessRequest \<Rightarrow> bool" where
  "revoke_ok h q \<longleftrightarrow> deletion_seen h \<and> saw stored_status (\<lambda>a. secrets_gone h a \<and>
     baStatus_AccountID (ba_Status a) \<noteq> '''' \<and> raq_AccountId q = baStatus_AccountID (ba_Status a) \<and>
     ObjectProtocol_RpcToApi (op_Type (raq_Protocol q)) = Inr (baSpec_Protocol (ba_Spec a)) \<and>
     AuthenticationTypeToRpc (baStatus_AuthenticationType (ba_Status a)) = Inr (at_Type (raq_AuthenticationType q)) \<and>
     raq_Parameters q = baStatus_Parameters (ba_Status a) \<and>
     map rab_BucketId (raq_Buckets q) = map ab_BucketID (baStatus_AccessedBuckets (ba_Status a))) h"

definition handback_ok :: "call list \<Rightarrow> BucketAccess \<Rightarrow> bool" where
  "handback_ok h a' \<longleftrightarrow> deletion_seen h \<and> saw stored_status (\<lambda>a. a' = mark_cleanup_finished a \<and> secrets_gone h a \<and>
     (baStatus_AccountID (ba_Status a) = '''' \<or>
      saw revoked (\<lambda>q. raq_AccountId q = baStatus_AccountID (ba_Status a)) h)) h"

definition sidecar_access_update_ok :: "call list \<Rightarrow> BucketAccess \<Rightarrow> bool" where
  "sidecar_access_update_ok h a' \<longleftrightarrow>
     saw got_access (\<lambda>a. \<not> deleting (ba_meta a) \<and>
       a' = a\<lparr>ba_meta := snd (AddFinalizer (ba_meta a) ProtectionFinalizer)\<rparr>) h \<or> handback_ok h a'"

definition sidecar_policy :: "DriverInfo \<Rightarrow> call list \<Rightarrow> call \<Rightarrow> bool" where
  "sidecar_policy d h c =
     (case c of
        GetAccess _ _ \<Rightarrow> True | GetBucket _ _ \<Rightarrow> True | GetSecret _ _ \<Rightarrow> True
      | CreateSecret s _ \<Rightarrow> mine d h \<and> secret_create_ok h s
      | UpdateSecret s _ \<Rightarrow> mine d h \<and> secret_update_ok h s
      | DeleteSecret s _ \<Rightarrow> mine d h \<and> secret_delete_ok h s
      | UpdateAccess a _ \<Rightarrow> mine d h \<and> sidecar_access_update_ok h a
      | StatusAccess a _ \<Rightarrow> mine d h \<and> sidecar_status_ok h a
      | DriverGrantBucketAccess q _ \<Rightarrow> mine d h \<and> grant_ok h q
      | DriverRevokeBucketAccess q _ \<Rightarrow> mine d h \<and> revoke_ok h q
      | _ \<Rightarrow> False)"

definition sidecar_inv :: "DriverInfo \<Rightarrow> call list \<Rightarrow> BucketAccess \<Rightarrow> bool" where
  "sidecar_inv d h ob \<longleftrightarrow> allowed (sidecar_policy d) h \<and> mine d h \<and> sidecar_status_ok h ob"

subsection \<open>What was seen stays seen\<close>

lemma reserved_mono: "reserved h a n s \<Longrightarrow> set h \<subseteq> set h' \<Longrightarrow> reserved h' a n s"
  unfolding reserved_def
  by (elim disj_forward saw_mono) (auto elim: saw_superset)

lemma granted_as_mono: "granted_as h a d \<Longrightarrow> set h \<subseteq> set h' \<Longrightarrow> granted_as h' a d"
  unfolding granted_as_def by (rule saw_superset)

lemma secret_filled_mono: "secret_filled h a d i n \<Longrightarrow> set h \<subseteq> set h' \<Longrightarrow> secret_filled h' a d i n"
  unfolding secret_filled_def by (elim ex_forward) (auto intro: reserved_mono elim: saw_superset)

lemma grant_recorded_mono: "grant_recorded h a a' \<Longrightarrow> set h \<subseteq> set h' \<Longrightarrow> grant_recorded h' a a'"
  unfolding grant_recorded_def
  by (elim ex_forward conj_forward) (assumption | erule (1) granted_as_mono | blast intro: secret_filled_mono)+

lemma sidecar_status_ok_mono: "sidecar_status_ok h a \<Longrightarrow> set h \<subseteq> set h' \<Longrightarrow> sidecar_status_ok h' a"
  unfolding sidecar_status_ok_def
  by (erule saw_mono) (auto simp: sidecar_kept_def intro: grant_recorded_mono)

lemma sidecar_status_ok_later: "sidecar_status_ok h a \<Longrightarrow> sidecar_status_ok (c # h) a"
  by (erule sidecar_status_ok_mono) auto

lemma mine_later: "mine d h \<Longrightarrow> mine d (c # h)"
  by (simp add: mine_def)

lemma deletion_seen_later: "deletion_seen h \<Longrightarrow> deletion_seen (c # h)"
  by (simp add: deletion_seen_def)

lemma secret_gone_mono: "secret_gone h a n \<Longrightarrow> set h \<subseteq> set h' \<Longrightarrow> secret_gone h' a n"
  unfolding secret_gone_def
  by (elim disj_forward saw_mono) (auto elim!: saw_mono intro: saw_superset)

lemma sidecar_status_ok_fresh: "seen_access c = Some a \<Longrightarrow> sidecar_status_ok (c # h) a"
  by (simp add: sidecar_status_ok_def sidecar_kept_def same_handoff_def)

lemma grant_recorded_irrelevant:
  "baStatus_AccountID (ba_Status a2) = baStatus_AccountID (ba_Status a1) \<Longrightarrow> grant_recorded h a a1 \<Longrightarrow> grant_recorded h a a2"
  by (simp add: grant_recorded_def)

lemma sidecar_status_ok_change:
  assumes "sidecar_status_ok h a" and "same_handoff (ba_Status a) (ba_Status a')"
    and "baStatus_AccountID (ba_Status a') = baStatus_AccountID (ba_Status a)"
    and "baStatus_ReadyToUse (ba_Status a') = Some True \<Longrightarrow> baStatus_ReadyToUse (ba_Status a) = Some True"
  shows "sidecar_status_ok h a'"
  using assms unfolding sidecar_status_ok_def
  by (elim saw_mono) (auto simp: sidecar_kept_def same_handoff_def intro: grant_recorded_irrelevant)

lemma sidecar_status_ok_meta [simp]: "sidecar_status_ok h (a\<lparr>ba_meta := m\<rparr>) = sidecar_status_ok h a"
  by (simp add: sidecar_status_ok_def sidecar_kept_def grant_recorded_def)

lemma sidecar_status_ok_cleanup [simp]: "sidecar_status_ok h (mark_cleanup_finished a) = sidecar_status_ok h a"
  by (simp add: mark_cleanup_finished_def)

lemma sidecar_status_ok_ready_default [simp]: "sidecar_status_ok h a \<Longrightarrow> sidecar_status_ok h (access_ready_default a)"
  by (erule sidecar_status_ok_change)
    (auto simp: same_handoff_def access_ready_default_def access_status_def split: option.splits)

lemma sidecar_status_ok_error [simp]: "sidecar_status_ok h a \<Longrightarrow> sidecar_status_ok h (access_status (baStatus_Error_update g) a)"
  by (erule sidecar_status_ok_change) (auto simp: same_handoff_def access_status_def)

lemma sidecar_status_ok_deletion [simp]:
  "sidecar_status_ok h a \<Longrightarrow>
     sidecar_status_ok h (access_status (\<lambda>st. st\<lparr>baStatus_ReadyToUse := Some False, baStatus_Error := None\<rparr>) a)"
  by (erule sidecar_status_ok_change) (auto simp: same_handoff_def access_status_def)

lemmas sidecar_inv_simps = sidecar_inv_def sidecar_policy_def mine_later sidecar_status_ok_later sidecar_status_ok_fresh
  selectors sidecar_selectors

subsection \<open>Reading and reserving\<close>

text \<open>A BucketAccess in memory that is as it was read or last stored.\<close>

abbreviation current :: "call list \<Rightarrow> BucketAccess \<Rightarrow> bool" where
  "current h a \<equiv> saw seen_access ((=) a) h"

lemma got_access_seen: "got_access c = Some a \<Longrightarrow> seen_access c = Some a"
  by (cases c) (simp_all add: got_access_def seen_access_def)

lemma got_access_current: "saw got_access ((=) a) h \<Longrightarrow> current h a"
  by (auto simp: saw_iff dest: got_access_seen)

lemma vc_sidecar_ensure_finalizer:
  assumes "sidecar_inv d h ob" and "saw got_access ((=) ob) h" and "\<not> deleting (ba_meta ob)"
  shows "vc (ensure_access_finalizer E) (\<lambda>_ h' ob'. sidecar_inv d h' ob' \<and> current h' ob') (\<lambda>_. sidecar_inv d) h ob"
proof -
  have c: "current h ob" using assms(2) by (rule got_access_current)
  have "sidecar_access_update_ok h (ob\<lparr>ba_meta := snd (AddFinalizer (ba_meta ob) ProtectionFinalizer)\<rparr>)"
    unfolding sidecar_access_update_ok_def using assms(3) by (intro disjI1 know_saw [OF assms(2)]) simp
  then show ?thesis
    unfolding ensure_access_finalizer_def Let_def
    using assms c by (intro vc_intros) (auto simp: sidecar_inv_simps AddFinalizer_def split: if_splits)
qed

lemma buckets_ready_later: "buckets_ready h a \<Longrightarrow> buckets_ready (c # h) a"
  by (auto simp: buckets_ready_def list_all_iff)

lemma vc_getAndValidate:
  assumes "sidecar_inv d h ob" and "current h ob"
  shows "vc (getAndValidateAllAccessedBuckets E)
     (\<lambda>_ h' ob'. sidecar_inv d h' ob' \<and> ob' = ob \<and> current h' ob \<and> buckets_ready h' ob) (\<lambda>_. sidecar_inv d) h ob"
  unfolding getAndValidateAllAccessedBuckets_def Let_def
  apply (rule vc_bind, rule vc_gets_obj, rule vc_bind, rule vc_foldM_prefix [where I = "\<lambda>pre errs h' ob'.
      sidecar_inv d h' ob' \<and> ob' = ob \<and> current h' ob \<and>
      (errs = [] \<longrightarrow> buckets_ready h' (access_status (\<lambda>st. st\<lparr>baStatus_AccessedBuckets := pre\<rparr>) ob))"])
  subgoal by (intro vc_intros)
    (auto simp: sidecar_inv_simps global_def buckets_ready_def access_status_def validateBucketIsReadyForAccess_None list_all_iff)
  subgoal using assms by (simp add: buckets_ready_def access_status_def)
  subgoal by (intro vc_intros) (auto simp: buckets_ready_def access_status_def)
  done

text \<open>The Secrets reserved so far, in the order of the claims.\<close>

definition reserved_upto :: "call list \<Rightarrow> BucketAccess \<Rightarrow> BucketClaimAccess list \<Rightarrow> (string, Secret) gomap \<Rightarrow> bool" where
  "reserved_upto h a refs m \<longleftrightarrow> distinct (map bca_AccessSecretName refs) \<and>
     set (gkeys m) = bca_AccessSecretName ` set refs \<and> (\<forall>n s. map_of m n = Some s \<longrightarrow> reserved h a n s)"

lemma reserved_upto_mono: "reserved_upto h a refs m \<Longrightarrow> set h \<subseteq> set h' \<Longrightarrow> reserved_upto h' a refs m"
  unfolding reserved_upto_def by (elim conj_forward) (assumption | blast intro: reserved_mono)+

lemma reserved_upto_snoc:
  assumes "reserved_upto h a refs m" and "\<not> ghas m (bca_AccessSecretName ref)"
    and "reserved h' a (bca_AccessSecretName ref) s" and "set h \<subseteq> set h'"
  shows "reserved_upto h' a (refs @ [ref]) (gput (bca_AccessSecretName ref) s m)"
  using reserved_upto_mono [OF assms(1,4)] assms(2,3)
  by (simp add: reserved_upto_def gkeys_put ghas_iff_keys update_conv' del: set_map) auto

lemma reserved_created:
  "own_secret a (new_secret (Namespace (ba_meta a)) n) = Inr s0 \<Longrightarrow>
     reserved (CreateSecret (setAccessSecretRequiredMetadata s0) (Inr s) # h) a n s"
  by (simp add: reserved_def created_secret_def)

lemma reserved_updated:
  "IsControlledBy (sec_meta s0) (ba_meta a) \<Longrightarrow>
     reserved (UpdateSecret (setAccessSecretRequiredMetadata s0) (Inr s) # GetSecret (secret_key a n) (Inr s0) # h) a n s"
  by (simp add: reserved_def updated_secret_def got_secret_at_def)

lemma reserve_create_ok:
  assumes "current h a" and "ref \<in> set (baSpec_BucketClaims (ba_Spec a))" and "IsNotFound e"
    and "own_secret a (new_secret (Namespace (ba_meta a)) (bca_AccessSecretName ref)) = Inr s0"
  shows "secret_create_ok (GetSecret (secret_key a (bca_AccessSecretName ref)) (Inl e) # h) (setAccessSecretRequiredMetadata s0)"
  unfolding secret_create_ok_def list_ex_iff
  by (rule know_saw [of _ a], use assms(1) in simp, rule bexI [OF _ assms(2)])
    (use assms(3,4) in \<open>simp add: missed_secret_at_def\<close>)

lemma reserve_update_ok:
  assumes "current h a" and "ref \<in> set (baSpec_BucketClaims (ba_Spec a))" and "IsControlledBy (sec_meta s0) (ba_meta a)"
  shows "secret_update_ok (GetSecret (secret_key a (bca_AccessSecretName ref)) (Inr s0) # h) (setAccessSecretRequiredMetadata s0)"
  unfolding secret_update_ok_def list_ex_iff
  by (rule know_saw [of _ a], use assms(1) in simp, rule disjI1, rule bexI [OF _ assms(2)])
    (use assms(3) in \<open>simp add: got_secret_at_def\<close>)

lemma vc_reserveAccessSecrets:
  assumes "sidecar_inv d h ob" and "current h ob"
  shows "vc (reserveAccessSecrets E)
     (\<lambda>m h' ob'. sidecar_inv d h' ob' \<and> ob' = ob \<and> current h' ob \<and> set h \<subseteq> set h' \<and>
        reserved_upto h' ob (baSpec_BucketClaims (ba_Spec ob)) m) (\<lambda>_. sidecar_inv d) h ob"
  unfolding reserveAccessSecrets_def createNewOwnedAccessSecret_def updateExistingAccessSecretMetadata_def Let_def
  apply (rule vc_bind, rule vc_gets_obj, rule vc_bind, rule vc_foldM_prefix [where I = "\<lambda>pre (m, errs) h' ob'.
      sidecar_inv d h' ob' \<and> ob' = ob \<and> current h' ob \<and> set h \<subseteq> set h' \<and>
      (errs = [] \<longrightarrow> reserved_upto h' ob pre m)"])
  subgoal by (fold secret_key_def, intro vc_intros)
    (auto simp: sidecar_inv_simps
      intro!: reserve_create_ok reserve_update_ok reserved_created reserved_updated elim!: reserved_upto_snoc)
  subgoal using assms by (simp add: reserved_upto_def)
  subgoal by (intro vc_intros) auto
  done

subsection \<open>Granting\<close>

lemma newInternalAccessConfig_Inr:
  assumes "newInternalAccessConfig rank a = Inr c"
  shows "ObjectProtocol_RpcToApi (iac_Protocol c) = Inr (baSpec_Protocol (ba_Spec a)) \<and>
     AuthenticationTypeToRpc (baStatus_AuthenticationType (ba_Status a)) = Inr (iac_AuthenticationType c) \<and>
     iac_ServiceAccountName c =
       (if baStatus_AuthenticationType (ba_Status a) = BucketAccessAuthenticationTypeServiceAccount
        then baSpec_ServiceAccountName (ba_Spec a) else '''') \<and>
     iac_Parameters c = baStatus_Parameters (ba_Status a)"
  using assms
  by (auto simp: newInternalAccessConfig_def Let_def ObjectProtocol_translations [of _ _ rank] AuthenticationTypeToRpc_def
      api_consts rpc_consts split: sum.splits if_splits)

lemma grant_config_shared:
  assumes "newInternalGrantAccessConfig rank a m = Inr c"
  shows "ObjectProtocol_RpcToApi (iac_Protocol c) = Inr (baSpec_Protocol (ba_Spec a)) \<and>
     AuthenticationTypeToRpc (baStatus_AuthenticationType (ba_Status a)) = Inr (iac_AuthenticationType c) \<and>
     iac_ServiceAccountName c =
       (if baStatus_AuthenticationType (ba_Status a) = BucketAccessAuthenticationTypeServiceAccount
        then baSpec_ServiceAccountName (ba_Spec a) else '''') \<and>
     iac_Parameters c = baStatus_Parameters (ba_Status a)"
    and "igc_AccountName c = ''ba-'' @ UID (ba_meta a)" and "igc_SecretsByName c = m"
    and "generateInternalAccessedBucketConfigs a = Inr (igc_AccessConfigsByBucketId c)"
  using assms newInternalAccessConfig_Inr [of rank a]
  by (auto simp: newInternalGrantAccessConfig_def internalAccessConfig.defs split: sum.splits)

lemma grant_request_ok:
  assumes "newInternalGrantAccessConfig rank a m = Inr c"
  shows "grant_request a \<lparr>gaq_AccountName = igc_AccountName c, gaq_Protocol = \<lparr>op_Type = iac_Protocol c\<rparr>,
     gaq_AuthenticationType = \<lparr>at_Type = iac_AuthenticationType c\<rparr>, gaq_ServiceAccountName = iac_ServiceAccountName c,
     gaq_Parameters = iac_Parameters c, gaq_Buckets = RpcGrantBucketsList rank' c\<rparr>"
proof -
  let ?bs = "RpcGrantBucketsList rank' c"
  let ?configs = "igc_AccessConfigsByBucketId c"
  note g = grant_config_shared(4) [OF assms]
  have ids: "map gab_BucketId ?bs = gkeys (range_map rank' ?configs)"
    by (simp add: RpcGrantBucketsList_def case_prod_unfold)
  then have keys: "gab_BucketId ` set ?bs = set (gkeys ?configs)"
    by (force simp: RpcGrantBucketsList_def)
  have each: "b \<in> set ?bs \<longleftrightarrow> (\<exists>ref \<in> set (served_claims a). bucket_id_of a ref = Some (gab_BucketId b) \<and>
      AccessModeToRpc (bca_AccessMode ref) = Inr (am_Mode (gab_AccessMode b)))" for b
  proof -
    have b: "b \<in> set ?bs \<longleftrightarrow> (\<exists>cfg. map_of ?configs (gab_BucketId b) = Some cfg \<and> am_Mode (gab_AccessMode b) = bgc_AccessMode cfg)"
      using generate_distinct [OF g] by (cases b) (force simp: RpcGrantBucketsList_def)
    have mode: "AccessModeToRpc (bca_AccessMode ref) = Inr m \<longleftrightarrow> (\<exists>cfg. claim_config ref cfg \<and> m = bgc_AccessMode cfg)" for ref m
      by (auto simp: claim_config_def intro!: exI [of _ "\<lparr>bgc_AccessMode = m, bgc_AccessSecretName = bca_AccessSecretName ref\<rparr>"])
    show ?thesis unfolding b mode generate_lookup(1) [OF g] by blast
  qed
  have "bucket_id_of a ref \<in> Some ` set (gkeys ?configs)" if "ref \<in> set (baSpec_BucketClaims (ba_Spec a))" for ref
    using generate_lookup(2) [OF g that] by (auto simp del: set_map)
  then show ?thesis
    unfolding grant_request_def
    using grant_config_shared(1,2) [OF assms] each range_map_distinct [OF generate_distinct [OF g], of rank']
    by (simp add: keys ids del: set_map distinct_map)
qed

lemma secret_names_inj:
  assumes "generateInternalAccessedBucketConfigs a = Inr configs"
    and "distinct (map bca_AccessSecretName (baSpec_BucketClaims (ba_Spec a)))"
    and "map_of configs i = Some c" and "map_of configs j = Some c'" and "bgc_AccessSecretName c = bgc_AccessSecretName c'"
  shows "i = j"
proof -
  obtain ids where ids: "\<And>i cfg. map_of configs i = Some cfg \<Longrightarrow>
      \<exists>ref \<in> set (baSpec_BucketClaims (ba_Spec a)). map_of ids (bca_BucketClaimName ref) = Some i \<and> claim_config ref cfg"
    using generate_ids [OF assms(1)] by blast
  obtain r r' where r: "r \<in> set (baSpec_BucketClaims (ba_Spec a))" "map_of ids (bca_BucketClaimName r) = Some i" "claim_config r c"
    and r': "r' \<in> set (baSpec_BucketClaims (ba_Spec a))" "map_of ids (bca_BucketClaimName r') = Some j" "claim_config r' c'"
    using ids [OF assms(3)] ids [OF assms(4)] by blast
  have "r = r'" using assms(2,5) r r' by (auto simp: claim_config_def distinct_map inj_on_def)
  then show ?thesis using r(2) r'(2) by simp
qed

text \<open>The state of the loop that fills the Secrets: those of buckets still to come are as reserved, those of
  the handled buckets are filled (unless there was an error).\<close>

definition filled_upto ::
  "call list \<Rightarrow> BucketAccess \<Rightarrow> grantedAccessApiDetails \<Rightarrow> (string, bucketGrantAccessConfig) gomap \<Rightarrow>
   (string \<times> (string, string) gomap) list \<Rightarrow> (string, Secret) gomap \<Rightarrow> gerror list \<Rightarrow> bool" where
  "filled_upto h a details configs handled secrets errs \<longleftrightarrow>
     (\<forall>n s. map_of secrets n = Some s \<longrightarrow>
        (\<forall>i \<in> set (gkeys handled). \<forall>cfg. map_of configs i = Some cfg \<longrightarrow> bgc_AccessSecretName cfg \<noteq> n) \<longrightarrow> reserved h a n s) \<and>
     (errs = [] \<longrightarrow> (\<forall>i info cfg. (i, info) \<in> set handled \<longrightarrow> map_of configs i = Some cfg \<longrightarrow>
        secret_filled h a details info (bgc_AccessSecretName cfg)))"

lemma filled_upto_start:
  "reserved_upto h a refs m \<Longrightarrow> filled_upto h a details configs [] m []"
  by (simp add: filled_upto_def reserved_upto_def)

lemma filled_upto_error:
  "filled_upto h a details configs pre m errs \<Longrightarrow> filled_upto h a details configs (pre @ [x]) m (errs @ [e])"
  by (auto simp: filled_upto_def)

lemma filled_upto_reserved:
  assumes "filled_upto h a details configs pre m errs" and "map_of configs i = Some cfg"
    and "map_of m (bgc_AccessSecretName cfg) = Some s" and "i \<notin> set (gkeys pre)"
    and "generateInternalAccessedBucketConfigs a = Inr configs"
    and "distinct (map bca_AccessSecretName (baSpec_BucketClaims (ba_Spec a)))"
  shows "reserved h a (bgc_AccessSecretName cfg) s"
  using assms secret_names_inj [OF assms(5,6) _ assms(2)] unfolding filled_upto_def by blast

lemma filled_upto_put:
  assumes "filled_upto h a details configs pre m errs" and "map_of configs i = Some cfg" and "set h \<subseteq> set h'"
    and "errs' = [] \<Longrightarrow> errs = [] \<and> secret_filled h' a details info (bgc_AccessSecretName cfg)"
  shows "filled_upto h' a details configs (pre @ [(i, info)]) (gput (bgc_AccessSecretName cfg) s m) errs'"
  unfolding filled_upto_def
proof (intro conjI allI impI)
  fix n s'
  assume "map_of (gput (bgc_AccessSecretName cfg) s m) n = Some s'"
    and n: "\<forall>i \<in> set (gkeys (pre @ [(i, info)])). \<forall>cfg. map_of configs i = Some cfg \<longrightarrow> bgc_AccessSecretName cfg \<noteq> n"
  then have "map_of m n = Some s'" using assms(2) by (auto simp: update_conv' split: if_splits)
  then have "reserved h a n s'" using assms(1) n unfolding filled_upto_def by simp
  then show "reserved h' a n s'" using assms(3) by (rule reserved_mono)
next
  fix j x c
  assume e: "errs' = []" and j: "(j, x) \<in> set (pre @ [(i, info)])" and c: "map_of configs j = Some c"
  from j consider "(j, x) \<in> set pre" | "j = i" "x = info" by auto
  then show "secret_filled h' a details x (bgc_AccessSecretName c)"
  proof cases
    case 1
    then have "secret_filled h a details x (bgc_AccessSecretName c)"
      using assms(1,4) e c unfolding filled_upto_def by blast
    then show ?thesis using assms(3) by (rule secret_filled_mono)
  qed (use assms(2,4) e c in auto)
qed

lemma fill_update_ok:
  assumes "current h a" and "reserved h a (bgc_AccessSecretName cfg) s" and "granted_as h a details"
    and "generateInternalAccessedBucketConfigs a = Inr configs" and "map_of configs i = Some cfg"
    and "map_of (gd_BucketInfoByBucketId details) i = Some info"
    and "map_of data = map_of (gd_SharedCredentialInfo details) ++ map_of info"
  shows "secret_update_ok h (s\<lparr>sec_StringData := data\<rparr>)"
proof -
  obtain ref where "ref \<in> set (served_claims a)" "bucket_id_of a ref = Some i" "claim_config ref cfg"
    using assms(5) generate_lookup(1) [OF assms(4)] by blast
  then have "fills a details (bgc_AccessSecretName cfg) data"
    unfolding fills_def using assms(6,7) by (auto simp: claim_config_def)
  then have "fill_ok h a (s\<lparr>sec_StringData := data\<rparr>)"
    unfolding fill_ok_def using assms(2,3) by blast
  then show ?thesis unfolding secret_update_ok_def by (intro know_saw [OF assms(1)]) simp
qed

lemma secret_filledI:
  "reserved h a n s \<Longrightarrow> map_of data = map_of (gd_SharedCredentialInfo details) ++ map_of info \<Longrightarrow>
     secret_filled (UpdateSecret (s\<lparr>sec_StringData := data\<rparr>) (Inr stored) # h) a details info n"
  unfolding secret_filled_def
  by (intro exI conjI) (auto simp: updated_secret_def intro: reserved_mono)

lemma granted_as_later: "granted_as h a d \<Longrightarrow> granted_as (c # h) a d"
  by (simp add: granted_as_def)

lemma vc_fill_secret:
  assumes "sidecar_inv d h a" and "current h a" and "granted_as h a details"
    and "filled_upto h a details (igc_AccessConfigsByBucketId c) pre m errs"
    and "generateInternalAccessedBucketConfigs a = Inr (igc_AccessConfigsByBucketId c)"
    and "distinct (map bca_AccessSecretName (baSpec_BucketClaims (ba_Spec a)))"
    and "map_of (gd_BucketInfoByBucketId details) i = Some info" and "i \<notin> set (gkeys pre)"
    and "map_of (MergeApiInfoIntoStringMap rk (Some info) (MergeApiInfoIntoStringMap rk (Some (gd_SharedCredentialInfo details)) [])) =
      map_of (gd_SharedCredentialInfo details) ++ map_of info"
  shows "vc (fill_secret E rk c details (i, info) (m, errs))
     (\<lambda>(m, errs) h' ob'. sidecar_inv d h' ob' \<and> ob' = a \<and> current h' a \<and> granted_as h' a details \<and>
        filled_upto h' a details (igc_AccessConfigsByBucketId c) (pre @ [(i, info)]) m errs) X h a"
proof -
  note res = filled_upto_reserved [OF assms(4) _ _ assms(8) assms(5,6)]
  note upd = fill_update_ok [OF assms(2) res assms(3,5) _ assms(7,9)]
  note put = filled_upto_put [OF assms(4), of i]
  show ?thesis
    unfolding fill_secret_def Let_def
    using assms(1-4)
    by (intro vc_intros) (auto simp: sidecar_inv_simps granted_as_later upd filled_upto_error intro!: put secret_filledI res assms(9))
qed

lemma vc_updateSecrets:
  assumes "sidecar_inv d h ob" and "current h ob" and "reserved_upto h ob (baSpec_BucketClaims (ba_Spec ob)) (igc_SecretsByName c)"
    and "generateInternalAccessedBucketConfigs ob = Inr (igc_AccessConfigsByBucketId c)"
    and "granted_as h ob details"
  shows "vc (updateSecretsWithGrantedInfo E c details)
     (\<lambda>_ h' ob'. sidecar_inv d h' ob' \<and> ob' = ob \<and> current h' ob \<and> granted_as h' ob details \<and>
        (\<forall>i info cfg. map_of (gd_BucketInfoByBucketId details) i = Some info \<longrightarrow>
           map_of (igc_AccessConfigsByBucketId c) i = Some cfg \<longrightarrow> secret_filled h' ob details info (bgc_AccessSecretName cfg)))
     (\<lambda>_. sidecar_inv d) h ob"
proof -
  let ?configs = "igc_AccessConfigsByBucketId c"
  obtain q r rank where t: "translateDriverGrantBucketAccessResponseToApi rank r (validation_of ob) = Inr details"
    using assms(5) by (auto simp: granted_as_def saw_iff)
  note dist = translate_grant_distinct [OF t]
  have names: "distinct (map bca_AccessSecretName (baSpec_BucketClaims (ba_Spec ob)))"
    using assms(3) by (simp add: reserved_upto_def)
  have entry: "map_of (gd_BucketInfoByBucketId details) i = Some info" "i \<notin> set (gkeys pre)"
    if "range_map rk (gd_BucketInfoByBucketId details) = pre @ (i, info) # post" for rk pre i info post
  proof -
    have "distinct (gkeys (pre @ (i, info) # post))" using range_map_distinct [OF dist, of rk] that by simp
    then show "map_of (gd_BucketInfoByBucketId details) i = Some info" "i \<notin> set (gkeys pre)"
      using in_range_map [OF that] dist by simp_all
  qed
  show ?thesis
    unfolding updateSecretsWithGrantedInfo_def Let_def
    apply (rule vc_bind, rule vc_observe, rule vc_bind, rule vc_observe, rule vc_bind,
        rule vc_foldM_prefix [where I = "\<lambda>pre (m, errs) h' ob'. sidecar_inv d h' ob' \<and> ob' = ob \<and> current h' ob \<and>
          granted_as h' ob details \<and> filled_upto h' ob details ?configs pre m errs"])
    subgoal for rk1 rk2 pre y post acc h' ob'
      using entry [of rk1 pre "fst y" "snd y" post] secret_data_lookup [OF t, of "fst y" "snd y" rk2]
        vc_fill_secret [of d h' ob details c pre "fst acc" "snd acc" "fst y" "snd y" rk2 E "\<lambda>_. sidecar_inv d"] assms(4) names
      by (cases y; cases acc) auto
    subgoal using assms(1,2,3,5) by (simp add: filled_upto_start)
    subgoal by (intro vc_intros) (auto simp: filled_upto_def dest: map_of_SomeD)
    done
qed

lemma secrets_reservedI: "reserved_upto h a (baSpec_BucketClaims (ba_Spec a)) m \<Longrightarrow> secrets_reserved h a"
  unfolding reserved_upto_def secrets_reserved_def
  by (metis (no_types, lifting) imageI map_of_eq_None_iff not_None_eq set_map)

lemma grant_okI:
  assumes "current h a" and "newInternalGrantAccessConfig rank a m = Inr c" and "buckets_ready h a"
    and "reserved_upto h a (baSpec_BucketClaims (ba_Spec a)) m"
  shows "grant_ok h \<lparr>gaq_AccountName = igc_AccountName c, gaq_Protocol = \<lparr>op_Type = iac_Protocol c\<rparr>,
     gaq_AuthenticationType = \<lparr>at_Type = iac_AuthenticationType c\<rparr>, gaq_ServiceAccountName = iac_ServiceAccountName c,
     gaq_Parameters = iac_Parameters c, gaq_Buckets = RpcGrantBucketsList rank' c\<rparr>"
  unfolding grant_ok_def
  by (rule know_saw [OF assms(1)]) (simp add: grant_request_ok [OF assms(2)] assms(3) secrets_reservedI [OF assms(4)])

lemma ready_status_ok:
  assumes "current h a" and "granted_as h a details" and "generateInternalAccessedBucketConfigs a = Inr configs"
    and "set (gkeys configs) = set (gkeys (gd_BucketInfoByBucketId details))"
    and "\<forall>i info cfg. map_of (gd_BucketInfoByBucketId details) i = Some info \<longrightarrow> map_of configs i = Some cfg \<longrightarrow>
      secret_filled h a details info (bgc_AccessSecretName cfg)"
  shows "sidecar_status_ok h (access_status (\<lambda>st. st\<lparr>baStatus_AccountID := gd_AccountId details,
     baStatus_ReadyToUse := Some True, baStatus_Error := None\<rparr>) a)" (is "sidecar_status_ok h ?a'")
proof -
  obtain rank r where "translateDriverGrantBucketAccessResponseToApi rank r (validation_of a) = Inr details"
    using assms(2) by (auto simp: granted_as_def saw_iff)
  then have "gd_AccountId details \<noteq> ''''"
    using translateDriverGrantBucketAccessResponseToApi_Inr(1) by simp
  moreover have "\<exists>i info. bucket_id_of a ref = Some i \<and> map_of (gd_BucketInfoByBucketId details) i = Some info \<and>
      secret_filled h a details info (bca_AccessSecretName ref)" if ref: "ref \<in> set (served_claims a)" for ref
  proof -
    have "ref \<in> set (baSpec_BucketClaims (ba_Spec a))" 
      using ref last_by_subset [of "bucket_id_of a" "baSpec_BucketClaims (ba_Spec a)"] by (auto simp: served_claims_def)
    then obtain i m where i: "bucket_id_of a ref = Some i" "i \<in> set (gkeys configs)" "AccessModeToRpc (bca_AccessMode ref) = Inr m"
      using generate_lookup(2) [OF assms(3)] by blast
    then obtain info where info: "map_of (gd_BucketInfoByBucketId details) i = Some info"
      using assms(4) by (metis map_of_eq_None_iff not_None_eq set_map)
    have "map_of configs i = Some \<lparr>bgc_AccessMode = m, bgc_AccessSecretName = bca_AccessSecretName ref\<rparr>"
      unfolding generate_lookup(1) [OF assms(3)] using ref i by (auto simp: claim_config_def)
    then show ?thesis using assms(5) i(1) info by fastforce
  qed
  moreover have "Some ` set (gkeys (gd_BucketInfoByBucketId details)) = bucket_id_of a ` set (baSpec_BucketClaims (ba_Spec a))"
    using generate_lookup(2) [OF assms(3)] unfolding assms(4) [symmetric] generate_keys [OF assms(3)] by force
  moreover have "\<forall>ref \<in> set (baSpec_BucketClaims (ba_Spec a)). bucket_id_of a ref \<noteq> None"
    using generate_lookup(2) [OF assms(3)] by fastforce
  ultimately have "grant_recorded h a ?a'"
    unfolding grant_recorded_def using assms(2)
    by (intro exI [of _ details]) (simp add: access_status_def)
  then have "sidecar_kept h a ?a'"
    by (simp add: sidecar_kept_def same_handoff_def access_status_def)
  then show ?thesis unfolding sidecar_status_ok_def by (rule know_saw [OF assms(1)])
qed

lemma vc_fill_all:
  assumes "sidecar_inv d h ob" and "current h ob" and "reserved_upto h ob (baSpec_BucketClaims (ba_Spec ob)) (igc_SecretsByName c)"
    and "generateInternalAccessedBucketConfigs ob = Inr (igc_AccessConfigsByBucketId c)"
    and "granted_as h ob details"
    and "set (gkeys (igc_AccessConfigsByBucketId c)) = set (gkeys (gd_BucketInfoByBucketId details))"
  shows "vc (updateSecretsWithGrantedInfo E c details)
     (\<lambda>_ h' ob'. sidecar_inv d h' ob' \<and> sidecar_status_ok h' (access_status (\<lambda>st. st\<lparr>baStatus_AccountID := gd_AccountId details,
        baStatus_ReadyToUse := Some True, baStatus_Error := None\<rparr>) ob'))
     (\<lambda>_. sidecar_inv d) h ob"
  by (rule vc_mono [OF vc_updateSecrets [OF assms(1-5)]]) (auto intro!: ready_status_ok [OF _ _ assms(4,6)])

lemma vc_grant_access:
  assumes "sidecar_inv d h ob" and "current h ob" and "newInternalGrantAccessConfig rank ob m = Inr c" and "buckets_ready h ob"
    and "reserved_upto h ob (baSpec_BucketClaims (ba_Spec ob)) m"
  shows "vc (grant_access E c) (\<lambda>_. sidecar_inv d) (\<lambda>_. sidecar_inv d) h ob"
proof -
  note cfg = grant_config_shared [OF assms(3)]
  have g: "granted_as (DriverGrantBucketAccess q (Inr r) # h) ob details"
    if "translateDriverGrantBucketAccessResponseToApi rk r \<lparr>ExpectedProtocol = baSpec_Protocol (ba_Spec ob),
       AuthenticationType = baStatus_AuthenticationType (ba_Status ob)\<rparr> = Inr details" for q r rk details
    using that by (auto simp: granted_as_def granted_def validation_of_def)
  have res: "reserved_upto (x # h) ob (baSpec_BucketClaims (ba_Spec ob)) (igc_SecretsByName c)" for x
    using assms(5) cfg(3) by (auto elim: reserved_upto_mono)
  show ?thesis
    unfolding grant_access_def Let_def
    using assms(1,2)
    by (intro vc_intros vc_fill_all [THEN vc_mono])
      (auto simp: sidecar_inv_simps grant_okI [OF assms(2-5)] g res cfg(4) validateGrantedAccess_None simp del: set_map)
qed

subsection \<open>Deletion\<close>

lemma stored_status_current: "saw stored_status ((=) a) h \<Longrightarrow> current h a"
proof -
  have "stored_status c = Some a \<Longrightarrow> seen_access c = Some a" for c
    by (cases c) (simp_all add: stored_status_def seen_access_def)
  then show "saw stored_status ((=) a) h \<Longrightarrow> current h a" by (auto simp: saw_iff)
qed

lemma releasedI:
  "deletion_seen h \<Longrightarrow> ref \<in> set (baSpec_BucketClaims (ba_Spec a)) \<Longrightarrow> IsControlledBy (sec_meta s) (ba_meta a) \<Longrightarrow>
     released (GetSecret (secret_key a (bca_AccessSecretName ref)) (Inr s) # h) a (release_secret s)"
  by (auto simp: released_def deletion_seen_later list_ex_iff got_secret_at_def)

lemma released_later: "released h a s \<Longrightarrow> released (c # h) a s"
  by (auto simp: released_def deletion_seen_later list_ex_iff)

lemma release_update_ok: "current h a \<Longrightarrow> released h a s \<Longrightarrow> secret_update_ok h s"
  unfolding secret_update_ok_def by (rule know_saw [of _ a]) blast+

lemma release_delete_ok:
  assumes "current h a" and "released h a s1"
  shows "secret_delete_ok (UpdateSecret s1 (Inr s2) # h) s2"
proof -
  have "saw seen_access (\<lambda>a. released (UpdateSecret s1 (Inr s2) # h) a s1) (UpdateSecret s1 (Inr s2) # h)"
    by (rule saw_later, rule know_saw [OF assms(1)], rule released_later [OF assms(2)])
  then show ?thesis unfolding secret_delete_ok_def by (simp only: saw_Cons updated_secret_def) simp
qed

lemma secret_gone_later: "secret_gone h a n \<Longrightarrow> secret_gone (c # h) a n"
  by (erule secret_gone_mono) auto

lemma secret_goneI:
  "IsNotFound e \<Longrightarrow> secret_gone (GetSecret (secret_key a n) (Inl e) # h) a n"
  "\<not> IsControlledBy (sec_meta s) (ba_meta a) \<Longrightarrow> secret_gone (GetSecret (secret_key a n) (Inr s) # h) a n"
  "secret_gone (DeleteSecret s2 (Inr u) # UpdateSecret (release_secret s) (Inr s2) # GetSecret (secret_key a n) (Inr s) # h) a n"
  by (simp_all add: secret_gone_def missed_secret_at_def got_secret_at_def updated_secret_def deleted_secret_def)

lemma vc_deleteOwnedAccessSecrets:
  assumes "sidecar_inv d h ob" and "saw stored_status ((=) ob) h" and "deletion_seen h"
  shows "vc (deleteOwnedAccessSecrets E)
     (\<lambda>_ h' ob'. sidecar_inv d h' ob' \<and> ob' = ob \<and> saw stored_status ((=) ob) h' \<and> deletion_seen h' \<and> secrets_gone h' ob)
     (\<lambda>_. sidecar_inv d) h ob"
  unfolding deleteOwnedAccessSecrets_def Let_def
  apply (rule vc_bind, rule vc_gets_obj, rule vc_bind, rule vc_foldM_prefix [where I = "\<lambda>pre errs h' ob'.
      sidecar_inv d h' ob' \<and> ob' = ob \<and> current h' ob \<and> saw stored_status ((=) ob) h' \<and> deletion_seen h' \<and>
      (errs = [] \<longrightarrow> list_all (\<lambda>ref. secret_gone h' ob (bca_AccessSecretName ref)) pre)"])
  subgoal by (fold secret_key_def, intro vc_intros)
    (auto simp: sidecar_inv_simps deletion_seen_later secret_gone_later secret_goneI list_all_iff
      intro!: release_update_ok release_delete_ok releasedI)
  subgoal using assms by (simp add: stored_status_current)
  subgoal by (intro vc_intros) (auto simp: secrets_gone_def)
  done

lemma revoke_list_Inr: "revoke_list l = Inr r \<Longrightarrow> map rab_BucketId r = map ab_BucketID l"
  by (induction l arbitrary: r) (auto split: if_splits sum.splits)

lemma revoke_config:
  assumes "newInternalRevokeAccessConfig rank a = Inr c"
  shows "ObjectProtocol_RpcToApi (iac_Protocol c) = Inr (baSpec_Protocol (ba_Spec a)) \<and>
     AuthenticationTypeToRpc (baStatus_AuthenticationType (ba_Status a)) = Inr (iac_AuthenticationType c) \<and>
     iac_Parameters c = baStatus_Parameters (ba_Status a) \<and> baStatus_AccountID (ba_Status a) \<noteq> '''' \<and>
     map rab_BucketId (irc_RevokeBucketList c) = map ab_BucketID (baStatus_AccessedBuckets (ba_Status a))"
  using assms newInternalAccessConfig_Inr [of rank a]
  by (auto simp: newInternalRevokeAccessConfig_def internalAccessConfig.defs revoke_list_Inr split: sum.splits if_splits)

lemma secrets_gone_later: "secrets_gone h a \<Longrightarrow> secrets_gone (c # h) a"
  by (auto simp: secrets_gone_def list_all_iff intro: secret_gone_later)

lemma revoke_okI:
  assumes "newInternalRevokeAccessConfig rank a = Inr c" and "saw stored_status ((=) a) h" and "deletion_seen h" and "secrets_gone h a"
  shows "revoke_ok h \<lparr>raq_AccountId = baStatus_AccountID (ba_Status a), raq_Protocol = \<lparr>op_Type = iac_Protocol c\<rparr>,
     raq_AuthenticationType = \<lparr>at_Type = iac_AuthenticationType c\<rparr>, raq_ServiceAccountName = iac_ServiceAccountName c,
     raq_Parameters = iac_Parameters c, raq_Buckets = irc_RevokeBucketList c\<rparr>"
  unfolding revoke_ok_def
  by (intro conjI assms(3) know_saw [OF assms(2)]) (use revoke_config [OF assms(1)] assms(4) in simp_all)

lemma vc_driverRevokeAccess:
  assumes "sidecar_inv d h ob" and "saw stored_status ((=) ob) h" and "deletion_seen h" and "secrets_gone h ob"
  shows "vc (driverRevokeAccess E)
     (\<lambda>_ h' ob'. sidecar_inv d h' ob' \<and> ob' = ob \<and> saw stored_status ((=) ob) h' \<and> deletion_seen h' \<and> secrets_gone h' ob \<and>
        saw revoked (\<lambda>q. raq_AccountId q = baStatus_AccountID (ba_Status ob)) h') (\<lambda>_. sidecar_inv d) h ob"
  unfolding driverRevokeAccess_def Let_def
  using assms by (intro vc_intros)
    (auto simp: sidecar_inv_simps deletion_seen_later secrets_gone_later intro!: revoke_okI)

lemma handback_update_ok:
  assumes "saw stored_status ((=) a) h" and "deletion_seen h" and "secrets_gone h a"
    and "baStatus_AccountID (ba_Status a) = '''' \<or> saw revoked (\<lambda>q. raq_AccountId q = baStatus_AccountID (ba_Status a)) h"
  shows "sidecar_access_update_ok h (mark_cleanup_finished a)"
  unfolding sidecar_access_update_ok_def handback_ok_def
  by (rule disjI2, rule conjI [OF assms(2)], rule know_saw [OF assms(1)]) (use assms(3,4) in blast)

lemma vc_access_sidecar_reconcileDelete:
  assumes "sidecar_inv d h ob" and "deletion_seen h"
  shows "vc (access_sidecar_reconcileDelete E) (\<lambda>_. sidecar_inv d) (\<lambda>_. sidecar_inv d) h ob"
  unfolding access_sidecar_reconcileDelete_def
  using assms
  by (intro vc_intros vc_deleteOwnedAccessSecrets [THEN vc_mono] vc_driverRevokeAccess [THEN vc_mono])
    (auto simp: sidecar_inv_simps deletion_seen_later intro!: handback_update_ok)

subsection \<open>Reconciliation\<close>

lemma buckets_ready_mono: "buckets_ready h a \<Longrightarrow> set h \<subseteq> set h' \<Longrightarrow> buckets_ready h' a"
  unfolding buckets_ready_def list_all_iff by (blast intro: saw_superset)

lemma vc_access_sidecar_reconcile:
  assumes "allowed (sidecar_policy d) h" and "saw got_access ((=) ob) h" and "ManagedBySidecar ob"
  shows "vc (access_sidecar_reconcile d E)
     (\<lambda>_ h' ob'. allowed (sidecar_policy d) h') (\<lambda>_. sidecar_inv d) h ob"
proof (cases "baStatus_DriverName (ba_Status ob) = di_Name d")
  case True
  have mine: "mine d h" unfolding mine_def by (rule know_saw [OF assms(2)]) (simp add: assms(3) True)
  have inv: "sidecar_inv d h ob"
    using assms(1) mine know_saw [OF got_access_current [OF assms(2)], of "\<lambda>a. sidecar_kept h a ob"]
    by (simp add: sidecar_inv_def sidecar_status_ok_def sidecar_kept_def same_handoff_def)
  have del: "deletion_seen h" if "deleting (ba_meta ob)"
    unfolding deletion_seen_def by (rule know_saw [OF assms(2)]) (rule that)
  show ?thesis
    unfolding access_sidecar_reconcile_def
    using inv assms(2)
    by (intro vc_intros vc_access_sidecar_reconcileDelete [THEN vc_mono] vc_sidecar_ensure_finalizer [THEN vc_mono]
        vc_getAndValidate [THEN vc_mono] vc_reserveAccessSecrets [THEN vc_mono] vc_grant_access [THEN vc_mono])
      (auto simp: True del deleting_def sidecar_inv_def intro: buckets_ready_mono)
next
  case False
  then show ?thesis unfolding access_sidecar_reconcile_def
    using assms(1) by (intro vc_intros) simp_all
qed

lemma access_sidecar_Reconcile_allowed:
  "allowed (sidecar_policy d) (trace (access_sidecar_Reconcile d E req) (start ob w))"
  unfolding access_sidecar_Reconcile_def Let_def
  by (rule trace_allowedI, intro vc_intros vc_access_sidecar_reconcile [THEN vc_mono])
    (auto simp: sidecar_inv_simps)

subsection \<open>Properties\<close>

lemma access_sidecar_Reconcile_keeps:
  "(\<And>h c. sidecar_policy d h c \<Longrightarrow> R h c) \<Longrightarrow> allowed R (trace (access_sidecar_Reconcile d E req) (start ob w))"
  by (rule allowed_mono [OF access_sidecar_Reconcile_allowed])

text \<open>C5. The Sidecar makes a BucketAccess ready, or records an account, only after the driver granted access in this
  run: with the account ID of that grant, the bucket of every claim granted and no other, and the Secret of every served claim stored
  with the credentials and the info of the claim's bucket. The served claims are all claims of the spec if no two of them have the same
  bucket ID; of claims with the same bucket ID only the last one is served, and nothing is promised for the Secrets of the others. The
  Sidecar never changes what the Controller put into the status.\<close>

theorem access_ready_only_after_grant:
  "allowed (\<lambda>h c. case c of StatusAccess a _ \<Rightarrow> mine d h \<and> sidecar_status_ok h a | _ \<Rightarrow> True)
     (trace (access_sidecar_Reconcile d E req) (start ob w))"
  by (rule access_sidecar_Reconcile_keeps) (simp add: sidecar_policy_def split: call.splits)

text \<open>C9. The Sidecar asks the driver for access only for a BucketAccess handed to this driver, with the account
  name, protocol, authentication type and parameters of the BucketAccess and exactly its buckets: the bucket of every claim, once, with the
  access mode of the claim (if several claims have the same bucket ID, that of the last one), after every accessed Bucket was read as
  ready with the recorded ID and every Secret was reserved under a name of its own.\<close>

theorem access_grant_request:
  "allowed (\<lambda>h c. case c of DriverGrantBucketAccess q _ \<Rightarrow> mine d h \<and> grant_ok h q | _ \<Rightarrow> True)
     (trace (access_sidecar_Reconcile d E req) (start ob w))"
  by (rule access_sidecar_Reconcile_keeps) (simp add: sidecar_policy_def split: call.splits)

text \<open>C6. The Sidecar writes only Secrets of the BucketAccess: it creates one only where none exists, with the
  BucketAccess as its controller; it changes one only when the BucketAccess controls it, to reserve it, to fill
  it with what was granted for its bucket, or to release it on deletion; it deletes only released ones.
  Besides Secrets and the BucketAccess it writes nothing.\<close>

theorem secrets_only_owned:
  "allowed (\<lambda>h c. case c of
       GetAccess _ _ \<Rightarrow> True | GetBucket _ _ \<Rightarrow> True | GetSecret _ _ \<Rightarrow> True | UpdateAccess _ _ \<Rightarrow> True
     | StatusAccess _ _ \<Rightarrow> True | DriverGrantBucketAccess _ _ \<Rightarrow> True | DriverRevokeBucketAccess _ _ \<Rightarrow> True
     | CreateSecret s _ \<Rightarrow> mine d h \<and> secret_create_ok h s
     | UpdateSecret s _ \<Rightarrow> mine d h \<and> secret_update_ok h s
     | DeleteSecret s _ \<Rightarrow> mine d h \<and> secret_delete_ok h s
     | _ \<Rightarrow> False) (trace (access_sidecar_Reconcile d E req) (start ob w))"
  by (rule access_sidecar_Reconcile_keeps) (simp add: sidecar_policy_def split: call.splits)

text \<open>C8. On deletion the order is kept: the driver is asked to revoke only after no Secret of the BucketAccess is left,
  with the recorded account and buckets; the BucketAccess is handed back only after that too, and after
  the access was revoked if an account is recorded. Otherwise the Sidecar changes the BucketAccess only to
  add the finalizer, when it is not deleting.\<close>

theorem sidecar_deletion_order:
  "allowed (\<lambda>h c. case c of
       DriverRevokeBucketAccess q _ \<Rightarrow> mine d h \<and> revoke_ok h q
     | UpdateAccess a _ \<Rightarrow> mine d h \<and> sidecar_access_update_ok h a
     | _ \<Rightarrow> True) (trace (access_sidecar_Reconcile d E req) (start ob w))"
  by (rule access_sidecar_Reconcile_keeps) (simp add: sidecar_policy_def split: call.splits)

end
