(* ===== verification/Access_Deletion.thy ===== *)
theory Access_Deletion
  imports Access_Sidecar_Policy Bucket_Sidecar Predicates
begin

text \<open>
  The deletion of a BucketAccess goes through both programs: the Sidecar deletes the Secrets and asks
  the driver to revoke the access, then the Controller removes the marks of the claims and the
  finalizer. The policies of the two reconcilers say what may happen at all; here it is shown that it
  does happen, with an API server and a driver that do their part.
\<close>

subsection \<open>An environment that does its part\<close>

definition found_or_missing :: "gerror + 'a \<Rightarrow> bool" where
  "found_or_missing r = (case r of Inl e \<Rightarrow> IsNotFound e | Inr _ \<Rightarrow> True)"

text \<open>Reads find the object or do not, lists and writes succeed, and the driver revokes. What a read or a list
  returns is not restricted.\<close>

definition serves_deletion :: "'w env \<Rightarrow> bool" where
  "serves_deletion E \<longleftrightarrow>
     (\<forall>a w. fst (e_StatusAccess E a w) = Inr a) \<and> (\<forall>a w. fst (e_UpdateAccess E a w) = Inr a) \<and>
     (\<forall>s w. fst (e_UpdateSecret E s w) = Inr s) \<and> (\<forall>s w. fst (e_DeleteSecret E s w) = Inr ()) \<and>
     (\<forall>c w. fst (e_UpdateClaim E c w) = Inr c) \<and>
     (\<forall>key w. found_or_missing (fst (e_GetSecret E key w))) \<and> (\<forall>key w. found_or_missing (fst (e_GetClaim E key w))) \<and>
     (\<forall>ns w. \<exists>l. fst (e_ListAccesses E ns w) = Inr l) \<and>
     (\<forall>q w. fst (e_DriverRevokeBucketAccess E q w) = Inr ())"

lemma serves_deletionD:
  assumes "serves_deletion E"
  shows "fst (e_StatusAccess E a w) = Inr a" and "fst (e_UpdateAccess E a w) = Inr a"
    and "fst (e_UpdateSecret E s w) = Inr s" and "fst (e_DeleteSecret E s w) = Inr ()"
    and "fst (e_UpdateClaim E c w) = Inr c" and "found_or_missing (fst (e_GetSecret E key w))"
    and "found_or_missing (fst (e_GetClaim E key w))" and "\<exists>l. fst (e_ListAccesses E ns w) = Inr l"
    and "fst (e_DriverRevokeBucketAccess E q w) = Inr ()"
  using assms by (simp_all add: serves_deletion_def)

text \<open>The request to the driver can be made: nothing was granted, or the status and the spec are of the kinds
  there are and every accessed Bucket has its ID.\<close>

definition revocable :: "BucketAccess \<Rightarrow> bool" where
  "revocable a \<longleftrightarrow> baStatus_AccountID (ba_Status a) = '''' \<or>
     baSpec_Protocol (ba_Spec a) \<in> {ObjectProtocolS3, ObjectProtocolAzure, ObjectProtocolGcs} \<and>
     baStatus_AuthenticationType (ba_Status a) \<in> {BucketAccessAuthenticationTypeKey, BucketAccessAuthenticationTypeServiceAccount} \<and>
     '''' \<notin> ab_BucketID ` set (baStatus_AccessedBuckets (ba_Status a))"

lemma revoke_list_total: "'''' \<notin> ab_BucketID ` set bs \<Longrightarrow> \<exists>l. revoke_list bs = Inr l"
  by (induction bs) auto

lemma known_protocol:
  assumes "p \<in> {ObjectProtocolS3, ObjectProtocolAzure, ObjectProtocolGcs}"
  obtains t where "ObjectProtocol_ApiToRpc rank p = Inr t"
proof -
  have "ObjectProtocol_RpcToApi ObjectProtocol_S3 = Inr ObjectProtocolS3"
    "ObjectProtocol_RpcToApi ObjectProtocol_AZURE = Inr ObjectProtocolAzure"
    "ObjectProtocol_RpcToApi ObjectProtocol_GCS = Inr ObjectProtocolGcs"
    by (simp_all add: ObjectProtocol_RpcToApi_def objectProtocolProtoApiMapping_def api_consts rpc_consts)
  then show ?thesis using assms that by (auto simp: ObjectProtocol_translations [of _ _ rank])
qed

lemma revoke_config_total:
  assumes "revocable a" and "baStatus_AccountID (ba_Status a) \<noteq> ''''"
  shows "newInternalRevokeAccessConfig rank a \<noteq> Inl e"
proof -
  have p: "baSpec_Protocol (ba_Spec a) \<in> {ObjectProtocolS3, ObjectProtocolAzure, ObjectProtocolGcs}"
    and t: "baStatus_AuthenticationType (ba_Status a) \<in> {BucketAccessAuthenticationTypeKey, BucketAccessAuthenticationTypeServiceAccount}"
    and i: "'''' \<notin> ab_BucketID ` set (baStatus_AccessedBuckets (ba_Status a))"
    using assms by (simp_all add: revocable_def)
  obtain pr where "ObjectProtocol_ApiToRpc rank (baSpec_Protocol (ba_Spec a)) = Inr pr" using known_protocol [OF p] .
  moreover obtain au where "AuthenticationTypeToRpc (baStatus_AuthenticationType (ba_Status a)) = Inr au"
    using t AuthenticationTypeToRpc_iff by blast
  moreover obtain l where "revoke_list (baStatus_AccessedBuckets (ba_Status a)) = Inr l" using revoke_list_total [OF i] ..
  ultimately show ?thesis using assms(2) by (simp add: newInternalRevokeAccessConfig_def newInternalAccessConfig_def Let_def)
qed

subsection \<open>The loops end without an error\<close>

lemma vc_deleteOwnedAccessSecrets_ends:
  assumes "serves_deletion E" and "\<And>h'. N () h' ob"
  shows "vc (deleteOwnedAccessSecrets E) N X h ob"
  unfolding deleteOwnedAccessSecrets_def Let_def
  apply (intro vc_bind vc_gets_obj, rule vc_foldM [where I = "\<lambda>errs h' ob'. errs = [] \<and> ob' = ob"])
  subgoal by (intro vc_steps vc_ask_rely [where R = found_or_missing, OF serves_deletionD(6) [OF assms(1)]]
      vc_ask_known [OF serves_deletionD(3) [OF assms(1)]] vc_ask_known [OF serves_deletionD(4) [OF assms(1)]])
    (auto simp: found_or_missing_def)
  subgoal by simp
  subgoal using assms(2) by (intro vc_steps) auto
  done

lemma vc_driverRevokeAccess_ends:
  assumes "serves_deletion E" and "revocable ob" and "baStatus_AccountID (ba_Status ob) \<noteq> ''''" and "\<And>h'. N () h' ob"
  shows "vc (driverRevokeAccess E) N X h ob"
  unfolding driverRevokeAccess_def Let_def
  using assms(4) by (intro vc_steps vc_ask_known [OF serves_deletionD(9) [OF assms(1)]])
    (auto simp: revoke_config_total [OF assms(2,3)])

lemma vc_getAllBucketClaims_ends:
  assumes "serves_deletion E" and "\<And>m h'. N m h' ob"
  shows "vc (getAllBucketClaims E ns refs) N X h ob"
  unfolding getAllBucketClaims_def Let_def
  apply (rule vc_bind, rule vc_foldM [where I = "\<lambda>(m, errs) h' ob'. errs = [] \<and> ob' = ob"])
  subgoal by (intro vc_steps vc_ask_rely [where R = found_or_missing, OF serves_deletionD(7) [OF assms(1)]])
    (auto simp: found_or_missing_def)
  subgoal by simp
  subgoal using assms(2) by (intro vc_steps) auto
  done

lemma vc_unmark_ends:
  assumes "serves_deletion E" and "\<And>m h'. N m h' ob"
  shows "vc (unmarkUnaccessedBucketClaims E m l self) N X h ob"
  unfolding unmarkUnaccessedBucketClaims_def Let_def
  apply (intro vc_bind vc_observe, rule vc_foldM [where I = "\<lambda>(m, errs) h' ob'. errs = [] \<and> ob' = ob"])
  subgoal by (intro vc_steps vc_ask_known [OF serves_deletionD(5) [OF assms(1)]]) auto
  subgoal by simp
  subgoal using assms(2) by (intro vc_steps) auto
  done

subsection \<open>The two runs\<close>

definition ends_released :: "outcome \<Rightarrow> call list \<Rightarrow> BucketAccess \<Rightarrow> bool" where
  "ends_released r h a \<longleftrightarrow> r = Success \<and> (\<exists>t. h = UpdateAccess a (Inr a) # t)"

lemma sidecar_deletion_ends:
  assumes "\<And>w. fst (e_GetAccess E req w) = Inr a" and "serves_deletion E" and "deleting (ba_meta a)" and "ManagedBySidecar a"
    and "baStatus_DriverName (ba_Status a) = di_Name d" and "revocable a"
  shows "vc (access_sidecar_Reconcile d E req) (\<lambda>r h ob. ends_released r h ob \<and>
      ob = mark_cleanup_finished (access_status (\<lambda>st. st\<lparr>baStatus_ReadyToUse := Some False, baStatus_Error := None\<rparr>) a))
    (\<lambda>_ _ _. False) [] ob0"
proof -
  have "revocable (access_status (\<lambda>st. st\<lparr>baStatus_ReadyToUse := Some False, baStatus_Error := None\<rparr>) a)"
    using assms(6) by (simp add: revocable_def access_status_def)
  then show ?thesis
    unfolding access_sidecar_Reconcile_def access_sidecar_reconcile_def access_sidecar_reconcileDelete_def Let_def
    using assms(3-5)
    by (intro vc_steps vc_ask_known [OF assms(1)] vc_write_obj_known [OF serves_deletionD(1) [OF assms(2)]]
        vc_write_obj_known [OF serves_deletionD(2) [OF assms(2)]] vc_deleteOwnedAccessSecrets_ends [OF assms(2)]
        vc_driverRevokeAccess_ends [OF assms(2)])
      (auto simp: deleting_def ends_released_def)
qed

lemma controller_deletion_ends:
  assumes "\<And>w. fst (e_GetAccess E req w) = Inr a" and "serves_deletion E" and "deleting (ba_meta a)" and "\<not> ManagedBySidecar a"
  shows "vc (access_controller_Reconcile E req) (\<lambda>r h ob. ends_released r h ob \<and>
      ob = a\<lparr>ba_meta := RemoveFinalizer (ba_meta a) ProtectionFinalizer\<rparr>) (\<lambda>_ _ _. False) [] ob0"
proof -
  have l: "\<exists>l. fst (e_ListAccesses E ns w) = Inr l" for ns w using assms(2) by (rule serves_deletionD(8))
  show ?thesis
    unfolding access_controller_Reconcile_def access_controller_reconcile_def access_controller_reconcileDelete_def Let_def
    using assms(3,4)
    by (intro vc_steps vc_ask_known [OF assms(1)] vc_write_obj_known [OF serves_deletionD(2) [OF assms(2)]]
        vc_getAllBucketClaims_ends [OF assms(2)] vc_unmark_ends [OF assms(2)]
        vc_ask_rely [where R = "\<lambda>r. \<exists>l. r = Inr l", OF l])
      (auto simp: deleting_def ends_released_def)
qed

text \<open>The API server answers a read with this object.\<close>

definition reads_access :: "'w env \<Rightarrow> NamespacedName \<Rightarrow> BucketAccess \<Rightarrow> bool" where
  "reads_access E req a \<longleftrightarrow> (\<forall>w. fst (e_GetAccess E req w) = Inr a)"

text \<open>C10. The deletion of a BucketAccess completes in two runs, with an API server and a driver that do their
  part: for a deleting BucketAccess that the Sidecar's driver serves, the Sidecar's run succeeds and its
  last call stores an object that is the Controller's; whenever the Controller then reads what was
  stored, its run succeeds and its last call stores the object without the protection finalizer.\<close>

theorem access_deletion_completes:
  fixes E :: "'w env" and E' :: "'v env"
  assumes "reads_access E req a" and "serves_deletion E" and "deleting (ba_meta a)" and "ManagedBySidecar a"
    and "baStatus_DriverName (ba_Status a) = di_Name d" and "revocable a"
  shows "outcome_of (access_sidecar_Reconcile d E req) (start ob w) = Inr Success \<and>
    (\<exists>a' t. trace (access_sidecar_Reconcile d E req) (start ob w) = UpdateAccess a' (Inr a') # t \<and> \<not> ManagedBySidecar a' \<and>
       (\<forall>(E' :: 'v env) ob' w'. reads_access E' req a' \<and> serves_deletion E' \<longrightarrow>
          outcome_of (access_controller_Reconcile E' req) (start ob' w') = Inr Success \<and>
          (\<exists>a'' t'. trace (access_controller_Reconcile E' req) (start ob' w') = UpdateAccess a'' (Inr a'') # t' \<and>
             \<not> ContainsFinalizer (ba_meta a'') ProtectionFinalizer)))"
proof -
  have read: "fst (e_GetAccess E req w) = Inr a" for w using assms(1) by (simp add: reads_access_def)
  obtain a1 t where s: "outcome_of (access_sidecar_Reconcile d E req) (start ob w) = Inr Success"
      "trace (access_sidecar_Reconcile d E req) (start ob w) = UpdateAccess a1 (Inr a1) # t"
      "a1 = mark_cleanup_finished (access_status (\<lambda>st. st\<lparr>baStatus_ReadyToUse := Some False, baStatus_Error := None\<rparr>) a)"
    using vc_from_start [OF sidecar_deletion_ends [OF read assms(2-6)], of ob w] by (auto simp: ends_released_def)
  have a1: "deleting (ba_meta a1)" "\<not> ManagedBySidecar a1"
    using assms(3) by (simp_all add: s(3) mark_cleanup_finished_def access_status_def ManagedBySidecar_iff deleting_def)
  have "outcome_of (access_controller_Reconcile E' req) (start ob' w') = Inr Success \<and>
      (\<exists>a'' t'. trace (access_controller_Reconcile E' req) (start ob' w') = UpdateAccess a'' (Inr a'') # t' \<and>
         \<not> ContainsFinalizer (ba_meta a'') ProtectionFinalizer)"
    if "reads_access E' req a1" and "serves_deletion E'" for E' :: "'v env" and ob' w'
  proof -
    have "fst (e_GetAccess E' req w) = Inr a1" for w using that(1) by (simp add: reads_access_def)
    from vc_from_start [OF controller_deletion_ends [OF this that(2) a1], of ob' w'] show ?thesis
      by (auto simp: ends_released_def)
  qed
  then show ?thesis using s(1,2) a1(2) by blast
qed

text \<open>The environment of the samples serves deletions, whatever BucketAccess it reads.\<close>

lemma sample_env_serves_deletion: "serves_deletion (sample_env\<lparr>e_GetAccess := f\<rparr>)"
  by (simp add: serves_deletion_def sample_env_def found_or_missing_def IsNotFound_def)

definition access_deleting :: BucketAccess where
  "access_deleting =
     \<lparr>ba_meta = (ba_meta access_handed_off)\<lparr>DeletionTimestamp := Some 9\<rparr>, ba_Spec = ba_Spec access_handed_off,
      ba_Status = (ba_Status access_handed_off)\<lparr>baStatus_AccountID := ''account'',
        baStatus_AccessedBuckets := [\<lparr>ab_BucketName = ''bc-u0'', ab_BucketID = ''backend'', ab_BucketClaimName = ''c''\<rparr>]\<rparr>\<rparr>"

lemma access_deleting_facts:
  "deleting (ba_meta access_deleting)" "ManagedBySidecar access_deleting" "revocable access_deleting"
  "baStatus_DriverName (ba_Status access_deleting) = ''drv''"
  by (simp_all add: access_deleting_def access_handed_off_def access_requested_def ManagedBySidecar_def deleting_def IsZero_def
      revocable_def api_consts)

theorem access_deletion_completes_witness:
  "let d = sample_driver\<lparr>di_Name := ''drv''\<rparr>; req = \<lparr>nn_Namespace = ''ns'', nn_Name = ''a''\<rparr>
   in \<exists>a' t. trace (access_sidecar_Reconcile d (sample_env\<lparr>e_GetAccess := \<lambda>_ w. (Inr access_deleting, w)\<rparr>) req)
          (start access_deleting ()) = UpdateAccess a' (Inr a') # t \<and>
        outcome_of (access_controller_Reconcile (sample_env\<lparr>e_GetAccess := \<lambda>_ w. (Inr a', w)\<rparr>) req) (start a' ()) = Inr Success"
proof -
  let ?E = "\<lambda>a. sample_env\<lparr>e_GetAccess := \<lambda>_ w. (Inr a, w)\<rparr>"
  let ?req = "\<lparr>nn_Namespace = ''ns'', nn_Name = ''a''\<rparr>"
  have reads: "reads_access (?E a) ?req a" for a by (simp add: reads_access_def)
  show ?thesis
    using access_deletion_completes [where 'v = unit, of "?E access_deleting" ?req access_deleting
        "sample_driver\<lparr>di_Name := ''drv''\<rparr>" access_deleting "()"] access_deleting_facts reads sample_env_serves_deletion
    unfolding Let_def by simp blast
qed

end
