(* ===== verification/Access_Provisioning.thy ===== *)
theory Access_Provisioning
  imports Access_Deletion
begin

text \<open>
  Access is granted through both programs: the Controller marks the claims, checks class and claims and hands
  the BucketAccess over, the Sidecar checks the Buckets, reserves the Secrets, asks the driver and fills the
  Secrets. The policies of the two reconcilers say what may happen at all; here it is shown that it does
  happen, with an API server and a driver that do their part.
\<close>

subsection \<open>The Controller's part\<close>

definition usable_claim :: "ObjectProtocol \<Rightarrow> BucketClaim \<Rightarrow> bool" where
  "usable_claim p c \<longleftrightarrow> \<not> deleting (bc_meta c) \<and> bcStatus_BoundBucketName (bc_Status c) \<noteq> '''' \<and>
     bcStatus_ReadyToUse (bc_Status c) = Some True \<and> (bcStatus_Protocols (bc_Status c) = [] \<or> p \<in> set (bcStatus_Protocols (bc_Status c)))"

definition claims_usable :: "ObjectProtocol \<Rightarrow> claims_by_name \<Rightarrow> bool" where
  "claims_usable p m \<longleftrightarrow> distinct (gkeys m) \<and> (\<forall>n c. map_of m n = Some c \<longrightarrow> (\<exists>x. c = Some x \<and> usable_claim p x))"

text \<open>The claims an access names can be used, every Bucket has its ID, and writes are stored.\<close>

definition serves_handoff :: "'w env \<Rightarrow> BucketAccess \<Rightarrow> bool" where
  "serves_handoff E a \<longleftrightarrow>
     (\<forall>x w. fst (e_StatusAccess E x w) = Inr x) \<and> (\<forall>x w. fst (e_UpdateAccess E x w) = Inr x) \<and>
     (\<forall>c w. fst (e_UpdateClaim E c w) = Inr c) \<and>
     (\<forall>ref \<in> set (baSpec_BucketClaims (ba_Spec a)). \<forall>w. \<exists>c.
        fst (e_GetClaim E (in_ns (Namespace (ba_meta a)) (bca_BucketClaimName ref)) w) = Inr c \<and> usable_claim (baSpec_Protocol (ba_Spec a)) c) \<and>
     (\<forall>n w. \<exists>b. fst (e_GetBucket E (in_ns '''' n) w) = Inr b \<and> bStatus_BucketID (b_Status b) \<noteq> '''')"

lemma serves_handoffD:
  assumes "serves_handoff E a"
  shows "fst (e_StatusAccess E x w) = Inr x" and "fst (e_UpdateAccess E x w) = Inr x" and "fst (e_UpdateClaim E c w) = Inr c"
    and "ref \<in> set (baSpec_BucketClaims (ba_Spec a)) \<Longrightarrow> \<exists>c.
        fst (e_GetClaim E (in_ns (Namespace (ba_meta a)) (bca_BucketClaimName ref)) w) = Inr c \<and> usable_claim (baSpec_Protocol (ba_Spec a)) c"
    and "\<exists>b. fst (e_GetBucket E (in_ns '''' n) w) = Inr b \<and> bStatus_BucketID (b_Status b) \<noteq> ''''"
  using assms by (simp_all add: serves_handoff_def)

lemma usable_marked: "usable_claim p c \<Longrightarrow> usable_claim p (mark_accessed c)"
  by (simp add: usable_claim_def mark_accessed_def deleting_def)

lemma claims_usable_put: "claims_usable p m \<Longrightarrow> usable_claim p c \<Longrightarrow> claims_usable p (gput n (Some c) m)"
  unfolding claims_usable_def by (auto simp: alist.ok_put update_conv' simp del: distinct_map split: if_splits)

lemma claims_usable_in: "claims_usable p m \<Longrightarrow> (n, c) \<in> set m \<Longrightarrow> \<exists>x. c = Some x \<and> usable_claim p x"
  unfolding claims_usable_def by (metis map_of_is_SomeI)

lemma in_gkeys: "(n, v) \<in> set m \<Longrightarrow> n \<in> set (gkeys m)"
  by force

lemma range_split: "range_map rank m = pre @ x # post \<Longrightarrow> x \<in> set m"
  by (metis in_set_conv_decomp range_map_set)

lemma vc_getAllBucketClaims_usable:
  assumes "serves_handoff E a" and "\<And>m h'. claims_usable (baSpec_Protocol (ba_Spec a)) m \<Longrightarrow>
      set (gkeys m) = bca_BucketClaimName ` set (baSpec_BucketClaims (ba_Spec a)) \<Longrightarrow> N m h' ob"
  shows "vc (getAllBucketClaims E (Namespace (ba_meta a)) (baSpec_BucketClaims (ba_Spec a))) N X h ob"
  unfolding getAllBucketClaims_def Let_def
  apply (rule vc_bind, rule vc_foldM_prefix [where I = "\<lambda>pre (m, errs) h' ob'. errs = [] \<and> ob' = ob \<and>
      claims_usable (baSpec_Protocol (ba_Spec a)) m \<and> set (gkeys m) = bca_BucketClaimName ` set pre"])
  subgoal for pre ref post
    by (intro vc_steps vc_ask_rely [where R = "\<lambda>r. \<exists>c. r = Inr c \<and> usable_claim (baSpec_Protocol (ba_Spec a)) c",
          OF serves_handoffD(4) [OF assms(1)]])
      (auto simp: gkeys_put claims_usable_put simp del: set_map)
  subgoal by (simp add: claims_usable_def)
  subgoal using assms(2) by (intro vc_steps) (auto simp del: set_map)
  done

lemma vc_markAll_usable:
  assumes "serves_handoff E a" and "claims_usable p m" and "\<And>m' h'. claims_usable p m' \<Longrightarrow> set (gkeys m') = set (gkeys m) \<Longrightarrow> N m' h' ob"
  shows "vc (markAllBucketClaimsAsAccessed E m) N X h ob"
  unfolding markAllBucketClaimsAsAccessed_def Let_def
  apply (intro vc_bind vc_observe, rule vc_foldM [where I = "\<lambda>(m', errs) h' ob'. errs = [] \<and> ob' = ob \<and>
      claims_usable p m' \<and> set (gkeys m') = set (gkeys m)"])
  subgoal using claims_usable_in [OF assms(2)]
    by (intro vc_steps vc_ask_known [OF serves_handoffD(3) [OF assms(1)]])
      (auto simp: gkeys_put simp del: set_map intro!: claims_usable_put usable_marked intro: in_gkeys)
  subgoal using assms(2) by simp
  subgoal using assms(3) by (intro vc_steps) (auto simp del: set_map)
  done

definition buckets_named :: "string set \<Rightarrow> buckets_by_claim \<Rightarrow> bool" where
  "buckets_named ns bs \<longleftrightarrow> distinct (gkeys bs) \<and> set (gkeys bs) = ns \<and>
     (\<forall>n b. map_of bs n = Some b \<longrightarrow> (\<exists>x. b = Some x \<and> bStatus_BucketID (b_Status x) \<noteq> ''''))"

lemma buckets_named_put:
  "buckets_named ns bs \<Longrightarrow> bStatus_BucketID (b_Status b) \<noteq> '''' \<Longrightarrow> buckets_named (insert n ns) (gput n (Some b) bs)"
  unfolding buckets_named_def by (auto simp: alist.ok_put gkeys_put update_conv' simp del: distinct_map set_map split: if_splits)

lemma vc_getBuckets_usable:
  assumes "serves_handoff E a" and "claims_usable p m" and "\<And>bs h'. buckets_named (set (gkeys m)) bs \<Longrightarrow> N bs h' ob"
  shows "vc (getBucketsForClaims E m) N X h ob"
proof -
  have len: "length bs = length m" if "buckets_named (set (gkeys m)) bs" for bs
    using that assms(2) distinct_card [of "gkeys bs"] distinct_card [of "gkeys m"] by (simp add: buckets_named_def claims_usable_def)
  show ?thesis
    unfolding getBucketsForClaims_def Let_def
    apply (intro vc_bind vc_observe)
    subgoal for rank
      apply (rule vc_foldM_prefix [where I = "\<lambda>pre (bs, errs) h' ob'. errs = [] \<and> ob' = ob \<and> buckets_named (fst ` set pre) bs"])
      subgoal for pre x post
        using claims_usable_in [OF assms(2), of "fst x" "snd x"] range_split [of rank m pre x post]
        by (intro vc_steps vc_ask_rely [where R = "\<lambda>r. \<exists>b. r = Inr b \<and> bStatus_BucketID (b_Status b) \<noteq> ''''",
              OF serves_handoffD(5) [OF assms(1)]])
          (auto simp: usable_claim_def buckets_named_put)
      subgoal by (simp add: buckets_named_def)
      subgoal using assms(3) len by (intro vc_steps) (auto simp: image_image)
      done
    done
qed

lemma buckets_named_lookup:
  assumes "buckets_named ns bs" and "n \<in> ns"
  shows "\<exists>b. map_of bs n = Some (Some b) \<and> bStatus_BucketID (b_Status b) \<noteq> ''''"
proof (cases "map_of bs n")
  case None
  then show ?thesis using assms by (auto simp: buckets_named_def map_of_eq_None_iff)
next
  case (Some b)
  then show ?thesis using assms(1) unfolding buckets_named_def by blast
qed

lemma compile_loop_total:
  assumes "buckets_named ns bs" and "bca_BucketClaimName ` set refs \<subseteq> ns"
  shows "\<exists>out'. compile_loop bs refs out missing = Inr (out', missing)"
  using assms(2)
proof (induction refs arbitrary: out)
  case (Cons ref refs)
  then show ?case using buckets_named_lookup [OF assms(1), of "bca_BucketClaimName ref"] by auto
qed simp

lemma compile_total:
  assumes "buckets_named ns bs" and "bca_BucketClaimName ` set refs \<subseteq> ns"
  obtains accessed where "compileAccessedBuckets refs bs = Inr accessed"
    and "map ab_BucketClaimName accessed = map bca_BucketClaimName refs" and "'''' \<notin> ab_BucketID ` set accessed"
proof -
  obtain accessed where "compileAccessedBuckets refs bs = Inr accessed"
    using compile_loop_total [OF assms, of "[]" "[]"] by (auto simp: compileAccessedBuckets_def)
  moreover from this have "map ab_BucketClaimName accessed = map bca_BucketClaimName refs" "'''' \<notin> ab_BucketID ` set accessed"
    using compileAccessedBuckets_Inr by fastforce+
  ultimately show ?thesis using that by blast
qed

lemma nothing_waited_for:
  assumes "claims_usable p m" and "buckets_named (set (gkeys m)) bs"
  shows "waitingOnBucketClaims rank m bs = []"
proof -
  have "claim_wait_msgs bs n c = []" if mem: "(n, c) \<in> set m" for n c
    using claims_usable_in [OF assms(1) mem] buckets_named_lookup [OF assms(2) in_gkeys [OF mem]]
    by (auto simp: claim_wait_msgs_Nil usable_claim_def)
  then show ?thesis by (simp add: waiting_Nil)
qed

lemma nothing_in_the_way:
  "claims_usable (baSpec_Protocol spec) m \<Longrightarrow> cannotAccessBucketClaims rank m spec = []"
  unfolding cannotAccess_Nil using claims_usable_in by (fastforce simp: usable_claim_def)

text \<open>A BucketAccess handed over: the object as it was up to its finalizers, with what the Sidecar needs.\<close>

definition same_access :: "BucketAccess \<Rightarrow> BucketAccess \<Rightarrow> bool" where
  "same_access a a' \<longleftrightarrow> ba_Spec a' = ba_Spec a \<and> (ba_meta a')\<lparr>Finalizers := []\<rparr> = (ba_meta a)\<lparr>Finalizers := []\<rparr>"

definition handed_over_to :: "BucketAccessClass \<Rightarrow> BucketAccess \<Rightarrow> BucketAccess \<Rightarrow> bool" where
  "handed_over_to cls a a' \<longleftrightarrow> same_access a a' \<and> baStatus_DriverName (ba_Status a') = baclSpec_DriverName (bacl_Spec cls) \<and>
     baStatus_AuthenticationType (ba_Status a') = baclSpec_AuthenticationType (bacl_Spec cls) \<and>
     map ab_BucketClaimName (baStatus_AccessedBuckets (ba_Status a')) = map bca_BucketClaimName (baSpec_BucketClaims (ba_Spec a)) \<and>
     '''' \<notin> ab_BucketID ` set (baStatus_AccessedBuckets (ba_Status a'))"

lemma same_access_meta:
  assumes "same_access a a'"
  shows "Namespace (ba_meta a') = Namespace (ba_meta a)" "Annotations (ba_meta a') = Annotations (ba_meta a)"
    "DeletionTimestamp (ba_meta a') = DeletionTimestamp (ba_meta a)" "UID (ba_meta a') = UID (ba_meta a)" "ba_Spec a' = ba_Spec a"
  using assms unfolding same_access_def by (cases "ba_meta a"; cases "ba_meta a'"; simp)+

lemma vc_finalizer_ends:
  assumes "\<And>x w. fst (e_UpdateAccess E x w) = Inr x"
    and "\<And>a' h'. same_access ob a' \<Longrightarrow> ba_Status a' = ba_Status ob \<Longrightarrow> N () h' a'"
  shows "vc (ensure_access_finalizer E) N X h ob"
  unfolding ensure_access_finalizer_def Let_def
  using assms(2) by (intro vc_steps vc_write_obj_known [OF assms(1)]) (auto simp: AddFinalizer_def same_access_def split: if_splits)

lemma vc_initialize_ends:
  assumes "serves_handoff E a" and "same_access a ob" and "claims_usable (baSpec_Protocol (ba_Spec a)) m"
    and "bca_BucketClaimName ` set (baSpec_BucketClaims (ba_Spec a)) \<subseteq> set (gkeys m)"
    and "\<And>w. fst (e_GetAccessClass E (in_ns '''' (baSpec_BucketAccessClassName (ba_Spec a))) w) = Inr cls"
    and "ValidateAccessAgainstClass (bacl_Spec cls) (ba_Spec a) = None"
    and "\<And>a' t. handed_over_to cls a a' \<Longrightarrow> N () (StatusAccess a' (Inr a') # t) a'"
  shows "vc (access_initialize E m) N X h ob"
proof -
  have s: "ba_Spec ob = ba_Spec a" using assms(2) by (simp add: same_access_def)
  have cl: "fst (e_GetAccessClass E (in_ns '''' (baSpec_BucketAccessClassName (ba_Spec ob))) w) = Inr cls" for w using assms(5) s by simp
  have c: "cannotAccessBucketClaims rank m (ba_Spec a) = []" for rank by (rule nothing_in_the_way [OF assms(3)])
  have b: "waitingOnBucketClaims rank m bs = []" "compileAccessedBuckets (baSpec_BucketClaims (ba_Spec a)) bs \<noteq> Inl e"
    "compileAccessedBuckets (baSpec_BucketClaims (ba_Spec a)) bs = Inr accessed \<Longrightarrow>
       map ab_BucketClaimName accessed = map bca_BucketClaimName (baSpec_BucketClaims (ba_Spec a)) \<and> '''' \<notin> ab_BucketID ` set accessed"
    if "buckets_named (set (gkeys m)) bs" for rank bs accessed e
    using nothing_waited_for [OF assms(3) that] compile_total [OF that assms(4)] by (metis, metis sum.distinct(1), metis sum.inject(2))
  show ?thesis
    unfolding access_initialize_def Let_def
    using assms(2,6) by (intro vc_steps vc_ask_known [OF cl] vc_getBuckets_usable [OF assms(1,3)] vc_write_obj_known [OF serves_handoffD(1) [OF assms(1)]])
      (auto simp: s c b handed_over_to_def same_access_def access_status_def access_ready_default_def intro!: assms(7) split: option.splits)
qed

text \<open>A BucketAccess the Controller can hand over.\<close>

definition requested :: "BucketAccess \<Rightarrow> bool" where
  "requested a \<longleftrightarrow> \<not> deleting (ba_meta a) \<and> SidecarRequirementsPresent (ba_Status a) = Inr False \<and>
     distinct (map bca_BucketClaimName (baSpec_BucketClaims (ba_Spec a)))"

lemma handoff_ends:
  assumes "reads_access E req a" and "requested a" and "serves_handoff E a"
    and "\<And>w. fst (e_GetAccessClass E (in_ns '''' (baSpec_BucketAccessClassName (ba_Spec a))) w) = Inr cls"
    and "ValidateAccessAgainstClass (bacl_Spec cls) (ba_Spec a) = None"
  shows "vc (access_controller_Reconcile E req)
    (\<lambda>r h ob. r = Success \<and> (\<exists>t. h = StatusAccess ob (Inr ob) # t) \<and> handed_over_to cls a ob) (\<lambda>_ _ _. False) [] ob0"
proof -
  have read: "fst (e_GetAccess E req w) = Inr a" for w using assms(1) by (simp add: reads_access_def)
  have a: "baStatus_AccessedBuckets (ba_Status a) = []" "baStatus_DriverName (ba_Status a) = ''''" "\<not> ManagedBySidecar a"
    "SidecarRequirementsPresent (ba_Status a) = Inr False" "IsZero (DeletionTimestamp (ba_meta a))"
    using assms(2) by (auto simp: requested_def SidecarRequirementsPresent_False ManagedBySidecar_iff deleting_def)
  have u: "validateAllBucketClaimReferencesUnique (baSpec_BucketClaims (ba_Spec a')) = None" if "same_access a a'" for a'
    using assms(2) count_refs_dup [of "baSpec_BucketClaims (ba_Spec a')" "[]" False] same_access_meta(5) [OF that]
    by (auto simp: requested_def validateAllBucketClaimReferencesUnique_def split: prod.splits)
  have claims: "vc (getAllBucketClaims E (Namespace (ba_meta a')) (baSpec_BucketClaims (ba_Spec a'))) N X h ob"
    if "same_access a a'" and "\<And>m h'. claims_usable (baSpec_Protocol (ba_Spec a)) m \<Longrightarrow>
      set (gkeys m) = bca_BucketClaimName ` set (baSpec_BucketClaims (ba_Spec a)) \<Longrightarrow> N m h' ob" for a' N X h ob
    using vc_getAllBucketClaims_usable [OF assms(3)] that same_access_meta [OF that(1)] by (simp add: that(2))
  show ?thesis
    unfolding access_controller_Reconcile_def access_controller_reconcile_def Let_def
    by (intro vc_steps vc_ask_known [OF read] vc_finalizer_ends serves_handoffD(2) [OF assms(3)] claims
        vc_markAll_usable [OF assms(3)] vc_initialize_ends [OF assms(3) _ _ _ assms(4,5)])
      (simp_all add: a u)
qed

subsection \<open>The Sidecar's part\<close>

definition valid_credentials :: "ValidationConfig \<Rightarrow> CredentialInfo \<Rightarrow> bool" where
  "valid_credentials v c \<longleftrightarrow> acceptable S3CredentialTranslator (Some v) (ci_S3 c) \<and>
     acceptable AzureCredentialTranslator (Some v) (ci_Azure c) \<and> acceptable GcsCredentialTranslator (Some v) (ci_Gcs c)"

definition valid_bucket_info :: "ValidationConfig \<Rightarrow> ObjectProtocolAndBucketInfo \<Rightarrow> bool" where
  "valid_bucket_info v b \<longleftrightarrow> acceptable S3BucketInfoTranslator (Some v) (opbi_S3 b) \<and>
     acceptable AzureBucketInfoTranslator (Some v) (opbi_Azure b) \<and> acceptable GcsBucketInfoTranslator (Some v) (opbi_Gcs b)"

text \<open>The answer of a driver that grants: an account, credentials, and info for exactly the requested buckets.\<close>

definition grants :: "ValidationConfig \<Rightarrow> DriverGrantBucketAccessRequest \<Rightarrow> DriverGrantBucketAccessResponse \<Rightarrow> bool" where
  "grants v q resp \<longleftrightarrow> gar_AccountId resp \<noteq> '''' \<and>
     (case gar_Credentials resp of None \<Rightarrow> False | Some c \<Rightarrow> valid_credentials v c) \<and>
     gbi_BucketId ` set (gar_Buckets resp) = gab_BucketId ` set (gaq_Buckets q) \<and>
     (\<forall>b \<in> set (gar_Buckets resp). case gbi_BucketInfo b of None \<Rightarrow> False | Some bi \<Rightarrow> valid_bucket_info v bi)"

definition own_or_missing :: "BucketAccess \<Rightarrow> gerror + Secret \<Rightarrow> bool" where
  "own_or_missing a r = (case r of Inl e \<Rightarrow> IsNotFound e | Inr s \<Rightarrow> IsControlledBy (sec_meta s) (ba_meta a))"

definition serves_grant :: "'w env \<Rightarrow> BucketAccess \<Rightarrow> bool" where
  "serves_grant E a \<longleftrightarrow>
     (\<forall>x w. fst (e_StatusAccess E x w) = Inr x) \<and> (\<forall>x w. fst (e_UpdateAccess E x w) = Inr x) \<and>
     (\<forall>s w. fst (e_CreateSecret E s w) = Inr s) \<and> (\<forall>s w. fst (e_UpdateSecret E s w) = Inr s) \<and>
     (\<forall>n w. own_or_missing a (fst (e_GetSecret E (in_ns (Namespace (ba_meta a)) n) w))) \<and>
     (\<forall>ab \<in> set (baStatus_AccessedBuckets (ba_Status a)). \<forall>w. \<exists>b. fst (e_GetBucket E (in_ns '''' (ab_BucketName ab)) w) = Inr b \<and>
        validateBucketIsReadyForAccess b (ab_BucketID ab) = None) \<and>
     (\<forall>q w. \<exists>resp. fst (e_DriverGrantBucketAccess E q w) = Inr resp \<and> grants (validation_of a) q resp)"

lemma serves_grantD:
  assumes "serves_grant E a"
  shows "fst (e_StatusAccess E x w) = Inr x" and "fst (e_UpdateAccess E x w) = Inr x" and "fst (e_CreateSecret E s w) = Inr s"
    and "fst (e_UpdateSecret E s w) = Inr s" and "own_or_missing a (fst (e_GetSecret E (in_ns (Namespace (ba_meta a)) n) w))"
    and "ab \<in> set (baStatus_AccessedBuckets (ba_Status a)) \<Longrightarrow> \<exists>b. fst (e_GetBucket E (in_ns '''' (ab_BucketName ab)) w) = Inr b \<and>
        validateBucketIsReadyForAccess b (ab_BucketID ab) = None"
    and "\<exists>resp. fst (e_DriverGrantBucketAccess E q w) = Inr resp \<and> grants (validation_of a) q resp"
  using assms by (simp_all add: serves_grant_def)

lemma vc_getAndValidate_ends:
  assumes "serves_grant E a" and "ba_Status ob = ba_Status a" and "\<And>h'. N () h' ob"
  shows "vc (getAndValidateAllAccessedBuckets E) N X h ob"
  unfolding getAndValidateAllAccessedBuckets_def Let_def
  apply (rule vc_bind, rule vc_gets_obj, rule vc_bind, rule vc_foldM [where I = "\<lambda>errs h' ob'. errs = [] \<and> ob' = ob"])
  subgoal for ab
    using assms(2)
    by (intro vc_steps vc_ask_rely [where R = "\<lambda>r. \<exists>b. r = Inr b \<and> validateBucketIsReadyForAccess b (ab_BucketID ab) = None",
          OF serves_grantD(6) [OF assms(1)]]) auto
  subgoal by simp
  subgoal using assms(3) by (intro vc_steps) auto
  done

lemma own_secret_new: "\<exists>s. own_secret a (new_secret (Namespace (ba_meta a)) n) = Inr s"
  by (simp add: own_secret_def new_secret_def SetControllerReference_def validateOwner_def GetControllerOf_def Let_def)

lemma own_or_missing_same: "same_access a a' \<Longrightarrow> own_or_missing a' r = own_or_missing a r"
  using same_access_meta [of a a'] by (simp add: own_or_missing_def IsControlledBy_def split: sum.splits option.splits)

abbreviation secret_names :: "BucketAccess \<Rightarrow> string list" where
  "secret_names a \<equiv> map bca_AccessSecretName (baSpec_BucketClaims (ba_Spec a))"

definition reserved_names :: "string list \<Rightarrow> (string, Secret) gomap \<Rightarrow> bool" where
  "reserved_names ns m \<longleftrightarrow> distinct (gkeys m) \<and> set (gkeys m) = set ns"

lemma reserved_names_put: "reserved_names ns m \<Longrightarrow> reserved_names (ns @ [n]) (gput n s m)"
  by (auto simp: reserved_names_def alist.ok_put gkeys_put simp del: set_map distinct_map)

lemma reserved_names_length: "reserved_names ns m \<Longrightarrow> distinct ns \<Longrightarrow> length m = length ns"
  using distinct_card [of "gkeys m"] distinct_card [of ns] by (simp add: reserved_names_def)

lemma vc_reserve_ends:
  assumes "serves_grant E a" and "same_access a ob" and "distinct (secret_names a)" and "\<And>m h'. reserved_names (secret_names a) m \<Longrightarrow> N m h' ob"
  shows "vc (reserveAccessSecrets E) N X h ob"
proof -
  have s: "ba_Spec ob = ba_Spec a" "Namespace (ba_meta ob) = Namespace (ba_meta a)" using same_access_meta [OF assms(2)] by auto
  have get: "own_or_missing ob (fst (e_GetSecret E (in_ns (Namespace (ba_meta ob)) n) w))" for n w
    using serves_grantD(5) [OF assms(1), of n w] own_or_missing_same [OF assms(2)] s by simp
  have own: "own_secret ob (new_secret (Namespace (ba_meta ob)) n) \<noteq> Inl e" for n e using own_secret_new [of ob n] by auto
  have new: "\<not> ghas m (bca_AccessSecretName ref)"
    if "baSpec_BucketClaims (ba_Spec ob) = pre @ ref # post" "reserved_names (map bca_AccessSecretName pre) m" for pre ref post m
    using that assms(3) s by (auto simp: ghas_iff_keys reserved_names_def)
  show ?thesis
    unfolding reserveAccessSecrets_def createNewOwnedAccessSecret_def updateExistingAccessSecretMetadata_def Let_def
    apply (rule vc_bind, rule vc_gets_obj, rule vc_bind, rule vc_foldM_prefix [where I = "\<lambda>pre (m, errs) h' ob'. errs = [] \<and> ob' = ob \<and>
        reserved_names (map bca_AccessSecretName pre) m"])
    subgoal for pre ref post
      using new [of pre ref post] own
      by (intro vc_steps vc_ask_rely [where R = "own_or_missing ob", OF get] vc_ask_known [OF serves_grantD(3) [OF assms(1)]]
          vc_ask_known [OF serves_grantD(4) [OF assms(1)]])
        (auto simp: own_or_missing_def reserved_names_put)
    subgoal by (simp add: reserved_names_def)
    subgoal using assms(3,4) s reserved_names_length [of "secret_names a"] by (intro vc_steps) auto
    done
qed

text \<open>A BucketAccess whose grant can be requested: the kinds are the known ones, every claim has its accessed bucket and no
  two claims share a Secret.\<close>

definition grantable :: "BucketAccess \<Rightarrow> bool" where
  "grantable a \<longleftrightarrow>
     baSpec_Protocol (ba_Spec a) \<in> {ObjectProtocolS3, ObjectProtocolAzure, ObjectProtocolGcs} \<and>
     baStatus_AuthenticationType (ba_Status a) \<in> {BucketAccessAuthenticationTypeKey, BucketAccessAuthenticationTypeServiceAccount} \<and>
     bca_AccessMode ` set (baSpec_BucketClaims (ba_Spec a)) \<subseteq> {BucketAccessModeReadOnly, BucketAccessModeReadWrite, BucketAccessModeWriteOnly} \<and>
     bca_BucketClaimName ` set (baSpec_BucketClaims (ba_Spec a)) \<subseteq> ab_BucketClaimName ` set (baStatus_AccessedBuckets (ba_Status a)) \<and>
     '''' \<notin> ab_BucketID ` set (baStatus_AccessedBuckets (ba_Status a))"

lemma grantable_cong: "ba_Spec a' = ba_Spec a \<Longrightarrow> ba_Status a' = ba_Status a \<Longrightarrow> grantable a' = grantable a"
  by (simp add: grantable_def)

lemma access_config_loop_total:
  assumes "bca_AccessMode ` set refs \<subseteq> {BucketAccessModeReadOnly, BucketAccessModeReadWrite, BucketAccessModeWriteOnly}"
    and "bca_BucketClaimName ` set refs \<subseteq> dom (map_of ids)"
  shows "snd (access_config_loop ids refs configs errs) = errs"
  using assms
proof (induction ids refs configs errs rule: access_config_loop.induct)
  case (2 ids ref refs configs errs)
  then obtain i m where "map_of ids (bca_BucketClaimName ref) = Some i" "AccessModeToRpc (bca_AccessMode ref) = Inr m"
    using AccessModeToRpc_iff [of "bca_AccessMode ref"] by auto
  then show ?case using 2(3) 2(4,5) by simp
qed simp

lemma dom_fold_put: "dom (map_of (fold (\<lambda>x. gput (f x) (g x)) xs m)) = dom (map_of m) \<union> f ` set xs"
  by (induction xs arbitrary: m) (auto simp: update_conv' split: if_splits)

lemma generate_total: "grantable a \<Longrightarrow> \<exists>configs. generateInternalAccessedBucketConfigs a = Inr configs"
  using access_config_loop_total [of "baSpec_BucketClaims (ba_Spec a)"
      "fold (\<lambda>ab. gput (ab_BucketClaimName ab) (ab_BucketID ab)) (baStatus_AccessedBuckets (ba_Status a)) []" "[]" "[]"]
  by (auto simp: grantable_def generateInternalAccessedBucketConfigs_def Let_def dom_fold_put split: prod.splits)

lemma grant_config_total:
  assumes "grantable a"
  shows "newInternalGrantAccessConfig rank a m \<noteq> Inl e"
proof -
  have p: "baSpec_Protocol (ba_Spec a) \<in> {ObjectProtocolS3, ObjectProtocolAzure, ObjectProtocolGcs}"
    and t: "baStatus_AuthenticationType (ba_Status a) \<in> {BucketAccessAuthenticationTypeKey, BucketAccessAuthenticationTypeServiceAccount}"
    using assms by (simp_all add: grantable_def)
  obtain pr where "ObjectProtocol_ApiToRpc rank (baSpec_Protocol (ba_Spec a)) = Inr pr" using known_protocol [OF p] .
  moreover obtain au where "AuthenticationTypeToRpc (baStatus_AuthenticationType (ba_Status a)) = Inr au"
    using t AuthenticationTypeToRpc_iff by blast
  moreover obtain configs where "generateInternalAccessedBucketConfigs a = Inr configs" using generate_total [OF assms] ..
  ultimately show ?thesis by (simp add: newInternalGrantAccessConfig_def newInternalAccessConfig_def Let_def)
qed

text \<open>A configuration asks for buckets with an ID and names Secrets that are reserved.\<close>

definition fits :: "internalGrantAccessConfig \<Rightarrow> bool" where
  "fits cfg \<longleftrightarrow> '''' \<notin> set (gkeys (igc_AccessConfigsByBucketId cfg)) \<and>
     (\<forall>i c. map_of (igc_AccessConfigsByBucketId cfg) i = Some c \<longrightarrow> bgc_AccessSecretName c \<in> set (gkeys (igc_SecretsByName cfg)))"

lemma grant_config_fits:
  assumes "grantable a" and "reserved_names (secret_names a) m" and "newInternalGrantAccessConfig rank a m = Inr cfg"
  shows "fits cfg"
proof -
  let ?configs = "igc_AccessConfigsByBucketId cfg"
  have ids: "'''' \<notin> ab_BucketID ` set (baStatus_AccessedBuckets (ba_Status a))" using assms(1) by (simp add: grantable_def)
  have each: "i \<noteq> '''' \<and> bgc_AccessSecretName x \<in> set (gkeys m)" if some: "map_of ?configs i = Some x" for i x
  proof -
    obtain ref ab where r: "ref \<in> set (baSpec_BucketClaims (ba_Spec a))" "claim_config ref x"
        and ab: "ab \<in> set (baStatus_AccessedBuckets (ba_Status a))" "ab_BucketID ab = i"
      using generateInternalAccessedBucketConfigs_Inr(2) [OF grant_config_shared(4) [OF assms(3)] some] by blast
    have "i \<in> ab_BucketID ` set (baStatus_AccessedBuckets (ba_Status a))" using ab by blast
    moreover have "bgc_AccessSecretName x \<in> set (secret_names a)" using r by (simp add: claim_config_def)
    ultimately show ?thesis using ids assms(2) unfolding reserved_names_def by metis
  qed
  then have "'''' \<notin> set (gkeys ?configs)" by (metis ghas_def ghas_iff_keys option.exhaust)
  then show ?thesis using each by (simp add: fits_def grant_config_shared(3) [OF assms(3)] del: set_map)
qed

lemma granted_bucket_loop_total:
  assumes "\<forall>b \<in> set bs. gbi_BucketId b \<noteq> '''' \<and> (\<exists>bi. gbi_BucketInfo b = Some bi \<and> valid_bucket_info v bi)"
  shows "snd (granted_bucket_loop rank v n bs infos errs) = errs"
  using assms
proof (induction rank v n bs infos errs rule: granted_bucket_loop.induct)
  case (2 rank v n b bs infos errs)
  then obtain bi ps info where "gbi_BucketInfo b = Some bi" "BucketInfoToApi rank (Some bi) (Some v) = Inr (ps, info)"
    using BucketInfoToApi_succeeds [of rank _ "Some v"] by (fastforce simp: valid_bucket_info_def)
  then show ?case using 2(3) 2(4) by simp
qed simp

text \<open>The answer of a driver that grants passes every check.\<close>

lemma grant_translates:
  assumes "grants v q resp" and "'''' \<notin> gab_BucketId ` set (gaq_Buckets q)"
  obtains d where "translateDriverGrantBucketAccessResponseToApi rank resp v = Inr d"
    and "set (gkeys (gd_BucketInfoByBucketId d)) = gab_BucketId ` set (gaq_Buckets q)" and "gd_AccountId d = gar_AccountId resp"
proof -
  obtain c where c: "gar_Credentials resp = Some c" "valid_credentials v c"
    using assms(1) by (auto simp: grants_def split: option.splits)
  obtain creds where "CredentialsToApi rank (gar_Credentials resp) v = Inr creds"
    using c CredentialsToApi_succeeds [of rank c v] by (auto simp: valid_credentials_def)
  moreover have loop: "snd (granted_bucket_loop rank v 0 (gar_Buckets resp) [] []) = []"
  proof (rule granted_bucket_loop_total, intro ballI conjI)
    fix b assume b: "b \<in> set (gar_Buckets resp)"
    then have "gbi_BucketId b \<in> gab_BucketId ` set (gaq_Buckets q)" using assms(1) unfolding grants_def by blast
    then show "gbi_BucketId b \<noteq> ''''" using assms(2) by metis
    show "\<exists>bi. gbi_BucketInfo b = Some bi \<and> valid_bucket_info v bi"
      using assms(1) b by (auto simp: grants_def split: option.splits)
  qed
  ultimately obtain d where d: "translateDriverGrantBucketAccessResponseToApi rank resp v = Inr d"
    using assms(1) by (cases "granted_bucket_loop rank v 0 (gar_Buckets resp) [] []")
      (simp add: translateDriverGrantBucketAccessResponseToApi_def Let_def grants_def)
  note t = translateDriverGrantBucketAccessResponseToApi_Inr [OF d]
  have "i \<in> gbi_BucketId ` set (gar_Buckets resp)" if "i \<in> set (gkeys (gd_BucketInfoByBucketId d))" for i
    using t(4) [of i] that by (metis ghas_def ghas_iff_keys image_eqI not_Some_eq)
  then have "set (gkeys (gd_BucketInfoByBucketId d)) = gbi_BucketId ` set (gar_Buckets resp)" using t(3) by blast
  also have "\<dots> = gab_BucketId ` set (gaq_Buckets q)" using assms(1) by (simp add: grants_def)
  finally show ?thesis using that d t(1) by metis
qed

lemma vc_fill_secret_ends:
  assumes "serves_grant E a" and "fits cfg" and "set (gkeys m) = set (gkeys (igc_SecretsByName cfg))"
    and "i \<in> set (gkeys (igc_AccessConfigsByBucketId cfg))"
    and "\<And>m' h'. set (gkeys m') = set (gkeys (igc_SecretsByName cfg)) \<Longrightarrow> N (m', errs) h' ob"
  shows "vc (fill_secret E rank cfg d (i, info) (m, errs)) N X h ob"
proof -
  obtain c where c: "map_of (igc_AccessConfigsByBucketId cfg) i = Some c" using assms(4) by (metis ghas_def ghas_iff_keys not_Some_eq)
  then have name: "bgc_AccessSecretName c \<in> set (gkeys m)" using assms(2,3) by (simp add: fits_def del: set_map)
  then obtain sec where "map_of m (bgc_AccessSecretName c) = Some sec" by (metis ghas_def ghas_iff_keys not_Some_eq)
  then show ?thesis
    unfolding fill_secret_def Let_def
    using assms(3,5) name
    by (intro vc_steps vc_ask_known [OF serves_grantD(4) [OF assms(1)]]) (auto simp: c gkeys_put insert_absorb simp del: set_map)
qed

lemma vc_fill_ends:
  assumes "serves_grant E a" and "fits cfg"
    and "set (gkeys (gd_BucketInfoByBucketId d)) = set (gkeys (igc_AccessConfigsByBucketId cfg))" and "\<And>h'. N () h' ob"
  shows "vc (updateSecretsWithGrantedInfo E cfg d) N X h ob"
  unfolding updateSecretsWithGrantedInfo_def
  apply (intro vc_bind vc_observe)
  subgoal for rank varRank
    apply (rule vc_foldM [where I = "\<lambda>(m, errs) h' ob'. errs = [] \<and> ob' = ob \<and> set (gkeys m) = set (gkeys (igc_SecretsByName cfg))"])
    subgoal for x acc
      using in_gkeys [of "fst x" "snd x"] assms(3)
      by (cases x; cases acc) (auto simp del: set_map intro!: vc_fill_secret_ends [OF assms(1,2)])
    subgoal by simp
    subgoal using assms(4) by (intro vc_steps) auto
    done
  done

lemma grant_list_ids: "gab_BucketId ` set (RpcGrantBucketsList rank cfg) = set (gkeys (igc_AccessConfigsByBucketId cfg))"
  by (force simp: RpcGrantBucketsList_def)

text \<open>The access is ready, with the account of an answer of the driver.\<close>

definition made_ready :: "BucketAccess \<Rightarrow> bool" where
  "made_ready a \<longleftrightarrow> baStatus_ReadyToUse (ba_Status a) = Some True \<and> baStatus_AccountID (ba_Status a) \<noteq> '''' \<and> baStatus_Error (ba_Status a) = None"

lemma vc_grant_access_ends:
  assumes "serves_grant E a" and "ba_Spec ob = ba_Spec a" and "ba_Status ob = ba_Status a" and "fits cfg"
    and "\<And>a' t. made_ready a' \<Longrightarrow> N () (StatusAccess a' (Inr a') # t) a'"
  shows "vc (grant_access E cfg) N X h ob"
proof -
  have ids: "'''' \<notin> gab_BucketId ` set (RpcGrantBucketsList rank cfg)" for rank
    using assms(4) unfolding grant_list_ids by (simp add: fits_def del: set_map)
  have tr: "translateDriverGrantBucketAccessResponseToApi rank resp (validation_of ob) \<noteq> Inl e"
    "translateDriverGrantBucketAccessResponseToApi rank resp (validation_of ob) = Inr d \<Longrightarrow>
       set (gkeys (gd_BucketInfoByBucketId d)) = set (gkeys (igc_AccessConfigsByBucketId cfg)) \<and> gd_AccountId d \<noteq> '''' \<and>
       (\<forall>r1 r2. validateGrantedAccess r1 r2 cfg d = None)"
    if "grants (validation_of a) q resp" "gaq_Buckets q = RpcGrantBucketsList rank' cfg" for rank resp q rank' d e
    using grant_translates [OF that(1), of rank] that(2) ids [of rank'] assms(2,3) that(1) unfolding validation_of_def
    by (metis sum.distinct(1), metis grant_list_ids sum.inject(2) grants_def validateGrantedAccess_None)
  show ?thesis
    unfolding grant_access_def Let_def
    apply (rule vc_bind, rule vc_observe)
    subgoal for rank
      apply (rule vc_handle)
      apply (rule vc_ask_rely [where R = "\<lambda>r. \<exists>resp. r = Inr resp \<and> grants (validation_of a) _ resp",
            OF serves_grantD(7) [OF assms(1)]])
      subgoal for resp
        using tr [of _ resp, unfolded validation_of_def]
        by (intro vc_steps vc_fill_ends [OF assms(1,4)] vc_write_obj_known [OF serves_grantD(1) [OF assms(1)]])
          (auto simp: access_status_def made_ready_def validation_of_def simp del: set_map intro!: assms(5))
      subgoal by simp
      done
    done
qed

lemma grant_ends:
  assumes "reads_access E req a" and "serves_grant E a" and "ManagedBySidecar a" and "\<not> deleting (ba_meta a)"
    and "baStatus_DriverName (ba_Status a) = di_Name d" and "baStatus_AccessedBuckets (ba_Status a) \<noteq> []" and "grantable a"
    and "distinct (secret_names a)"
  shows "vc (access_sidecar_Reconcile d E req) (\<lambda>r h ob. r = Success \<and> (\<exists>t. h = StatusAccess ob (Inr ob) # t) \<and> made_ready ob)
    (\<lambda>_ _ _. False) [] ob0"
proof -
  have read: "fst (e_GetAccess E req w) = Inr a" for w using assms(1) by (simp add: reads_access_def)
  have p: "SidecarRequirementsPresent (ba_Status a) = Inr True"
    using assms(3,6,7) by (auto simp: SidecarRequirementsPresent_True ManagedBySidecar_iff grantable_def api_consts)
  have g: "grantable a'" if "same_access a a'" "ba_Status a' = ba_Status a" for a'
    using assms(7) grantable_cong [of a' a] that by (simp add: same_access_def)
  have c: "newInternalGrantAccessConfig rank a' m \<noteq> Inl e" "newInternalGrantAccessConfig rank a' m = Inr cfg \<Longrightarrow> fits cfg"
    if "same_access a a'" "ba_Status a' = ba_Status a" "reserved_names (secret_names a) m" for rank a' m cfg e
    using grant_config_total [OF g [OF that(1,2)]] grant_config_fits [OF g [OF that(1,2)]] that(3) same_access_meta(5) [OF that(1)]
    by (metis, metis)
  show ?thesis
    unfolding access_sidecar_Reconcile_def access_sidecar_reconcile_def Let_def
    using assms(3-5)
    by (intro vc_steps vc_ask_known [OF read] vc_finalizer_ends serves_grantD(2) [OF assms(2)]
        vc_getAndValidate_ends [OF assms(2)] vc_reserve_ends [OF assms(2) _ assms(8)] vc_grant_access_ends [OF assms(2)])
      (simp_all add: p c deleting_def same_access_meta(5) [of a])
qed

subsection \<open>The two runs\<close>

text \<open>A request for access that a class and a driver can serve.\<close>

definition servable :: "DriverInfo \<Rightarrow> BucketAccessClass \<Rightarrow> BucketAccess \<Rightarrow> bool" where
  "servable d cls a \<longleftrightarrow> requested a \<and> baSpec_BucketClaims (ba_Spec a) \<noteq> [] \<and> distinct (secret_names a) \<and>
     \<not> ghas (Annotations (ba_meta a)) ControllerManagementOverrideAnnotation \<and>
     baclSpec_DriverName (bacl_Spec cls) = di_Name d \<and> di_Name d \<noteq> '''' \<and> ValidateAccessAgainstClass (bacl_Spec cls) (ba_Spec a) = None \<and>
     baclSpec_AuthenticationType (bacl_Spec cls) \<in> {BucketAccessAuthenticationTypeKey, BucketAccessAuthenticationTypeServiceAccount} \<and>
     baSpec_Protocol (ba_Spec a) \<in> {ObjectProtocolS3, ObjectProtocolAzure, ObjectProtocolGcs} \<and>
     bca_AccessMode ` set (baSpec_BucketClaims (ba_Spec a)) \<subseteq> {BucketAccessModeReadOnly, BucketAccessModeReadWrite, BucketAccessModeWriteOnly}"

lemma handed_over_grantable:
  assumes "servable d cls a" and "handed_over_to cls a a'"
  shows "ManagedBySidecar a' \<and> \<not> deleting (ba_meta a')" and "baStatus_DriverName (ba_Status a') = di_Name d"
    and "baStatus_AccessedBuckets (ba_Status a') \<noteq> []" and "grantable a'" and "distinct (secret_names a')"
proof -
  have s: "ba_Spec a' = ba_Spec a" "Annotations (ba_meta a') = Annotations (ba_meta a)" "deleting (ba_meta a') = deleting (ba_meta a)"
    and names: "map ab_BucketClaimName (baStatus_AccessedBuckets (ba_Status a')) = map bca_BucketClaimName (baSpec_BucketClaims (ba_Spec a))"
    using assms(2) same_access_meta [of a a'] by (simp_all add: handed_over_to_def deleting_def)
  show "ManagedBySidecar a' \<and> \<not> deleting (ba_meta a')" and "baStatus_DriverName (ba_Status a') = di_Name d"
    and "distinct (secret_names a')"
    using assms s by (simp_all add: servable_def requested_def handed_over_to_def ManagedBySidecar_iff)
  show "baStatus_AccessedBuckets (ba_Status a') \<noteq> []" using names assms(1) by (auto simp: servable_def)
  have "ab_BucketClaimName ` set (baStatus_AccessedBuckets (ba_Status a')) = bca_BucketClaimName ` set (baSpec_BucketClaims (ba_Spec a))"
    using arg_cong [OF names, of set] by simp
  then show "grantable a'" using assms s by (simp add: servable_def handed_over_to_def grantable_def)
qed

text \<open>C11. Access is granted in two runs, with an API server and a driver that do their part: for a servable request the
  Controller's run succeeds and its last call hands the BucketAccess over to the Sidecar, with the class's
  driver and authentication type and a Bucket ID for every claim; whenever the Sidecar then reads what was
  stored, its run succeeds and its last call stores a BucketAccess that is ready, with an account and no error.\<close>

theorem access_provisioning_completes:
  fixes E :: "'w env"
  assumes "reads_access E req a" and "serves_handoff E a" and "servable d cls a"
    and "\<forall>w. fst (e_GetAccessClass E (in_ns '''' (baSpec_BucketAccessClassName (ba_Spec a))) w) = Inr cls"
  shows "outcome_of (access_controller_Reconcile E req) (start ob w) = Inr Success \<and>
    (\<exists>a' t. trace (access_controller_Reconcile E req) (start ob w) = StatusAccess a' (Inr a') # t \<and> handed_over_to cls a a' \<and>
       (\<forall>(E' :: 'v env) ob' w'. reads_access E' req a' \<and> serves_grant E' a' \<longrightarrow>
          outcome_of (access_sidecar_Reconcile d E' req) (start ob' w') = Inr Success \<and>
          (\<exists>a'' t'. trace (access_sidecar_Reconcile d E' req) (start ob' w') = StatusAccess a'' (Inr a'') # t' \<and> made_ready a'')))"
proof -
  have v: "requested a" "ValidateAccessAgainstClass (bacl_Spec cls) (ba_Spec a) = None" using assms(3) by (simp_all add: servable_def)
  have cl: "fst (e_GetAccessClass E (in_ns '''' (baSpec_BucketAccessClassName (ba_Spec a))) w) = Inr cls" for w using assms(4) by blast
  obtain a' t where c: "outcome_of (access_controller_Reconcile E req) (start ob w) = Inr Success"
      "trace (access_controller_Reconcile E req) (start ob w) = StatusAccess a' (Inr a') # t" "handed_over_to cls a a'"
    using vc_from_start [OF handoff_ends [OF assms(1) v(1) assms(2) cl v(2)], of ob w] by blast
  note h = handed_over_grantable [OF assms(3) c(3)]
  have "outcome_of (access_sidecar_Reconcile d E' req) (start ob' w') = Inr Success \<and>
      (\<exists>a'' t'. trace (access_sidecar_Reconcile d E' req) (start ob' w') = StatusAccess a'' (Inr a'') # t' \<and> made_ready a'')"
    if "reads_access E' req a'" and "serves_grant E' a'" for E' :: "'v env" and ob' w'
    using vc_from_start [OF grant_ends [OF that h(1) [THEN conjunct1] h(1) [THEN conjunct2] h(2-5)], of ob' w'] by blast
  then show ?thesis using c by blast
qed

subsection \<open>A request that is served\<close>

definition access_wanted :: BucketAccess where
  "access_wanted = access_requested\<lparr>ba_Spec := (ba_Spec access_requested)\<lparr>baSpec_Protocol := ObjectProtocolAzure\<rparr>\<rparr>"

definition access_class :: BucketAccessClass where
  "access_class = \<lparr>bacl_meta = sample_meta '''' ''class'',
     bacl_Spec = \<lparr>baclSpec_DriverName = ''driver'', baclSpec_AuthenticationType = BucketAccessAuthenticationTypeKey, baclSpec_Parameters = [],
       baclSpec_DisallowedBucketAccessModes = [], baclSpec_MultiBucketAccess = ''''\<rparr>\<rparr>"

definition ready_bucket :: "string \<Rightarrow> Bucket" where
  "ready_bucket i = sample_bucket\<lparr>b_Status := (b_Status sample_bucket)\<lparr>bStatus_BucketID := i\<rparr>\<rparr>"

definition ready_claim :: BucketClaim where
  "ready_claim = \<lparr>bc_meta = sample_meta ''ns'' ''c'',
     bc_Spec = \<lparr>bcSpec_BucketClassName = ''gold'', bcSpec_Protocols = [ObjectProtocolAzure], bcSpec_ExistingBucketName = ''''\<rparr>,
     bc_Status = \<lparr>bcStatus_BoundBucketName = ''bc-1'', bcStatus_ReadyToUse = Some True, bcStatus_Protocols = [ObjectProtocolAzure],
       bcStatus_Error = None\<rparr>\<rparr>"

definition answer_grant :: "DriverGrantBucketAccessRequest \<Rightarrow> DriverGrantBucketAccessResponse" where
  "answer_grant q = \<lparr>gar_AccountId = ''acct'',
     gar_Buckets = map (\<lambda>b. \<lparr>gbi_BucketId = gab_BucketId b, gbi_BucketInfo = Some sample_info\<rparr>) (gaq_Buckets q),
     gar_Credentials = gar_Credentials sample_grant\<rparr>"

definition handoff_env :: "unit env" where
  "handoff_env = sample_env\<lparr>e_GetAccess := \<lambda>_ w. (Inr access_wanted, w), e_GetClaim := \<lambda>_ w. (Inr ready_claim, w),
     e_GetAccessClass := \<lambda>_ w. (Inr access_class, w), e_GetBucket := \<lambda>_ w. (Inr (ready_bucket ''backend''), w)\<rparr>"

definition grant_env :: "BucketAccess \<Rightarrow> unit env" where
  "grant_env a = sample_env\<lparr>e_GetAccess := \<lambda>_ w. (Inr a, w),
     e_GetBucket := \<lambda>_ w. (Inr (ready_bucket (ab_BucketID (hd (baStatus_AccessedBuckets (ba_Status a))))), w),
     e_DriverGrantBucketAccess := \<lambda>q w. (Inr (answer_grant q), w)\<rparr>"

lemma handoff_env_serves:
  "reads_access handoff_env req access_wanted" "serves_handoff handoff_env access_wanted" "servable sample_driver access_class access_wanted"
  "\<forall>w. fst (e_GetAccessClass handoff_env (in_ns '''' (baSpec_BucketAccessClassName (ba_Spec access_wanted))) w) = Inr access_class"
  by (simp_all add: reads_access_def serves_handoff_def handoff_env_def sample_env_def ready_claim_def usable_claim_def ready_bucket_def
      servable_def requested_def access_wanted_def access_requested_def access_class_def sample_driver_def sample_meta_def deleting_def
      IsZero_def SidecarRequirementsPresent_def ValidateAccessAgainstClass_def SupportsMultiBucketAccess_def ghas_def Let_def api_consts)

lemma answer_grants:
  assumes "baSpec_Protocol (ba_Spec a) = ObjectProtocolAzure" and "baStatus_AuthenticationType (ba_Status a) = BucketAccessAuthenticationTypeKey"
  shows "grants (validation_of a) q (answer_grant q)"
  unfolding grants_def answer_grant_def sample_grant_def sample_info_def validation_of_def valid_credentials_def valid_bucket_info_def
  using assms by (simp add: image_image acceptable_defs) (simp_all add: translator_defs AzureCredential_Validate_def AzureBucketInfo_Validate_def join_errs_def err_if_def var_def api_consts)

lemma grant_env_serves:
  assumes "handed_over_to access_class access_wanted a"
  shows "reads_access (grant_env a) req a" and "serves_grant (grant_env a) a"
proof -
  have h: "ba_Spec a = ba_Spec access_wanted" "baStatus_AuthenticationType (ba_Status a) = BucketAccessAuthenticationTypeKey"
    "length (baStatus_AccessedBuckets (ba_Status a)) = 1" "'''' \<notin> ab_BucketID ` set (baStatus_AccessedBuckets (ba_Status a))"
    using assms same_access_meta [of access_wanted a] arg_cong [of _ _ length]
    by (auto simp: handed_over_to_def access_class_def access_wanted_def access_requested_def)
  obtain ab where ab: "baStatus_AccessedBuckets (ba_Status a) = [ab]" "ab_BucketID ab \<noteq> ''''"
    using h(3,4) by (cases "baStatus_AccessedBuckets (ba_Status a)") auto
  show "reads_access (grant_env a) req a" by (simp add: reads_access_def grant_env_def)
  show "serves_grant (grant_env a) a"
    using ab h(1,2) answer_grants [of a]
    by (simp add: serves_grant_def grant_env_def sample_env_def own_or_missing_def IsNotFound_def ready_bucket_def sample_bucket_def
        sample_meta_def validateBucketIsReadyForAccess_None ghas_def deleting_def IsZero_def access_wanted_def)
qed

theorem access_provisioning_completes_witness:
  "let req = \<lparr>nn_Namespace = ''ns'', nn_Name = ''a''\<rparr>
   in \<exists>a' t. trace (access_controller_Reconcile handoff_env req) (start access_wanted ()) = StatusAccess a' (Inr a') # t \<and>
        outcome_of (access_sidecar_Reconcile sample_driver (grant_env a') req) (start a' ()) = Inr Success"
  using access_provisioning_completes [where 'v = unit, OF handoff_env_serves, of "\<lparr>nn_Namespace = ''ns'', nn_Name = ''a''\<rparr>" access_wanted "()"]
    grant_env_serves
  unfolding Let_def by meson

end
