(* ===== verification/Calls_Made.thy ===== *)
theory Calls_Made
  imports Work_Queue
begin

text \<open>
  Which calls a step makes at all, and how many. \<open>only_calls P m\<close>: \<open>m\<close> leaves the reconciled object as it is
  and makes only calls with \<open>P\<close>. The rules follow the structure of a program, so that a loop is settled
  without an invariant; \<open>vc_only\<close> then steps over it in a proof about the calls that matter.
\<close>

definition extends :: "(call \<Rightarrow> bool) \<Rightarrow> call list \<Rightarrow> call list \<Rightarrow> bool" where
  "extends P h h' \<longleftrightarrow> (\<exists>new. h' = new @ h \<and> list_all P new)"

lemma extends_refl [simp]: "extends P h h"
  by (simp add: extends_def)

lemma extends_trans: "extends P h1 h2 \<Longrightarrow> extends P h2 h3 \<Longrightarrow> extends P h1 h3"
  unfolding extends_def by (metis append.assoc list_all_append)

lemma extends_Cons [simp]: "P c \<Longrightarrow> extends P h (c # h)"
  unfolding extends_def by (rule exI [of _ "[c]"]) simp

lemma extends_filter: "extends P h h' \<Longrightarrow> (\<And>c. P c \<Longrightarrow> \<not> p c) \<Longrightarrow> filter p h' = filter p h"
  by (auto simp: extends_def list_all_iff filter_empty_conv)

lemma extends_allowed:
  "extends P h h' \<Longrightarrow> allowed R h \<Longrightarrow> (\<And>c t. P c \<Longrightarrow> R t c) \<Longrightarrow> allowed R h'"
proof -
  assume "extends P h h'" and "allowed R h" and R: "\<And>c t. P c \<Longrightarrow> R t c"
  then obtain new where "h' = new @ h" "list_all P new" by (auto simp: extends_def)
  then show "allowed R h'" using \<open>allowed R h\<close> R by (induction new arbitrary: h') auto
qed

definition only_calls :: "(call \<Rightarrow> bool) \<Rightarrow> (('w, 'o) st, 'a) prog \<Rightarrow> bool" where
  "only_calls P m \<longleftrightarrow> (\<forall>h ob. vc m (\<lambda>_ h' ob'. ob' = ob \<and> extends P h h') (\<lambda>_ h' ob'. ob' = ob \<and> extends P h h') h ob)"

lemma vc_only:
  assumes "only_calls P m" and "\<And>x h'. extends P h h' \<Longrightarrow> N x h' ob" and "\<And>e h'. extends P h h' \<Longrightarrow> X e h' ob"
  shows "vc m N X h ob"
proof -
  have "vc m (\<lambda>_ h' ob'. ob' = ob \<and> extends P h h') (\<lambda>_ h' ob'. ob' = ob \<and> extends P h h') h ob"
    using assms(1) by (simp add: only_calls_def)
  then show ?thesis by (rule vc_mono) (use assms(2,3) in auto)
qed

lemma only_mono: "only_calls P m \<Longrightarrow> (\<And>c. P c \<Longrightarrow> Q c) \<Longrightarrow> only_calls Q m"
proof -
  assume m: "only_calls P m" and "\<And>c. P c \<Longrightarrow> Q c"
  then have "extends P h h' \<Longrightarrow> extends Q h h'" for h h' by (auto simp: extends_def list_all_iff)
  then show "only_calls Q m" unfolding only_calls_def by (intro allI vc_only [OF m]) auto
qed

lemma only_ret [only_intros]: "only_calls P (ret x)"
  by (simp add: only_calls_def vc_ret)

lemma only_fail [only_intros]: "only_calls P (fail e)"
  by (simp add: only_calls_def vc_fail)

lemma only_gets [only_intros]: "only_calls P (gets f)"
  by (simp add: only_calls_def vc_def gets_def)

lemma only_observe [only_intros]: "only_calls P (observe f)"
  by (simp add: only_calls_def vc_observe)

lemma only_lift_sum [only_intros]: "only_calls P (lift_sum r)"
  by (simp add: only_calls_def vc_lift_sum)

lemma only_ask [only_intros]: "(\<And>r. P (mk r)) \<Longrightarrow> only_calls P (ask f mk)"
  by (simp add: only_calls_def vc_ask)

lemma only_handle [only_intros]:
  assumes "only_calls P m" and "\<And>e. only_calls P (f e)" and "\<And>x. only_calls P (k x)"
  shows "only_calls P (handle m f k)"
  unfolding only_calls_def
proof (intro allI vc_handle)
  fix h ob
  show "vc m (\<lambda>x. vc (k x) (\<lambda>_ h' ob'. ob' = ob \<and> extends P h h') (\<lambda>_ h' ob'. ob' = ob \<and> extends P h h'))
      (\<lambda>e. vc (f e) (\<lambda>_ h' ob'. ob' = ob \<and> extends P h h') (\<lambda>_ h' ob'. ob' = ob \<and> extends P h h')) h ob"
    by (rule vc_only [OF assms(1)]; rule vc_only [OF assms(3)] vc_only [OF assms(2)]) (auto intro: extends_trans)
qed

lemma only_bind [only_intros]: "only_calls P m \<Longrightarrow> (\<And>x. only_calls P (k x)) \<Longrightarrow> only_calls P (bind m k)"
  unfolding bind_handle by (rule only_handle) (auto intro: only_fail)

lemma only_seq [only_intros]: "only_calls P m \<Longrightarrow> only_calls P n \<Longrightarrow> only_calls P (seq m n)"
  unfolding seq_def by (rule only_bind)

lemma only_on_err [only_intros]: "only_calls P m \<Longrightarrow> only_calls P (on_err g m)"
  unfolding on_err_handle by (rule only_handle) (auto intro: only_fail only_ret)

lemma only_if [only_intros]: "only_calls P m \<Longrightarrow> only_calls P n \<Longrightarrow> only_calls P (if c then m else n)"
  by simp

lemma only_case_option [only_intros]:
  "only_calls P m \<Longrightarrow> (\<And>y. only_calls P (n y)) \<Longrightarrow> only_calls P (case x of None \<Rightarrow> m | Some y \<Rightarrow> n y)"
  by (cases x) simp_all

lemma only_case_sum [only_intros]:
  "(\<And>e. only_calls P (m e)) \<Longrightarrow> (\<And>y. only_calls P (n y)) \<Longrightarrow> only_calls P (case x of Inl e \<Rightarrow> m e | Inr y \<Rightarrow> n y)"
  by (cases x) simp_all

lemma only_case_prod [only_intros]: "(\<And>a b. only_calls P (m a b)) \<Longrightarrow> only_calls P (case p of (a, b) \<Rightarrow> m a b)"
  by (cases p) simp

lemma only_case_prod_app [only_intros]:
  "(\<And>a b. only_calls P (m a b y)) \<Longrightarrow> only_calls P ((case p of (a, b) \<Rightarrow> m a b) y)"
  by (cases p) simp

lemma only_foldM [only_intros]: "(\<And>x acc. only_calls P (f x acc)) \<Longrightarrow> only_calls P (foldM f xs acc)"
  by (induction xs arbitrary: acc) (auto intro: only_intros)

end
