(* ===== verification/Access_Flow.thy ===== *)
theory Access_Flow
  imports Access_Sidecar Calls_Made
begin

text \<open>
  What the two reconcilers of BucketAccess do with the BucketAccess object itself, in the order of its
  reads and writes: every write is based on the newest version the run has seen. The policies of the
  reconcilers justify a write by what was read of other objects; here only the BucketAccess and its
  class are looked at (the \<open>view\<close> of a history), which is what the composition of the two programs
  rests on.
\<close>

subsection \<open>The view\<close>

fun about_access :: "call \<Rightarrow> bool" where
  "about_access (GetAccess _ _) = True"
| "about_access (GetAccessClass _ _) = True"
| "about_access (UpdateAccess _ _) = True"
| "about_access (StatusAccess _ _) = True"
| "about_access _ = False"

abbreviation other_call :: "call \<Rightarrow> bool" where
  "other_call c \<equiv> \<not> about_access c"

definition view :: "call list \<Rightarrow> call list" where
  "view h = filter about_access h"

lemma view_simps [simp]: "view [] = []" "view (c # h) = (if about_access c then c # view h else view h)"
  by (simp_all add: view_def)

text \<open>The newest version of the BucketAccess that was seen.\<close>

fun newest :: "call list \<Rightarrow> BucketAccess option" where
  "newest [] = None"
| "newest (c # h) = (case seen_access c of Some a \<Rightarrow> Some a | None \<Rightarrow> newest h)"

definition flow :: "(call list \<Rightarrow> call \<Rightarrow> bool) \<Rightarrow> call list \<Rightarrow> bool" where
  "flow R h = allowed (\<lambda>t c. about_access c \<longrightarrow> R (view t) c) h"

lemma flow_simps [simp]: "flow R []" "flow R (c # h) \<longleftrightarrow> (about_access c \<longrightarrow> R (view h) c) \<and> flow R h"
  by (simp_all add: flow_def)

lemma extends_view: "extends other_call h h' \<Longrightarrow> view h' = view h"
  unfolding view_def by (erule extends_filter) simp

lemma extends_flow: "extends other_call h h' \<Longrightarrow> flow R h \<Longrightarrow> flow R h'"
  unfolding flow_def by (erule extends_allowed) auto

lemma access_selector_simps [simp]:
  "got_access (GetAccess k r) = good r" "got_access (UpdateAccess x r) = None" "got_access (StatusAccess x r) = None"
  "stored_access (GetAccess k r) = None" "stored_access (UpdateAccess x r) = good r" "stored_access (StatusAccess x r) = None"
  "stored_status (GetAccess k r) = None" "stored_status (UpdateAccess x r) = None" "stored_status (StatusAccess x r) = good r"
  by (simp_all add: got_access_def stored_access_def stored_status_def)

subsection \<open>Steps that leave the BucketAccess alone\<close>

text \<open>The loops read and write claims, Buckets and Secrets only.\<close>

fun about_parts :: "call \<Rightarrow> bool" where
  "about_parts (GetClaim _ _) = True"
| "about_parts (UpdateClaim _ _) = True"
| "about_parts (GetBucket _ _) = True"
| "about_parts (GetSecret _ _) = True"
| "about_parts (CreateSecret _ _) = True"
| "about_parts (UpdateSecret _ _) = True"
| "about_parts (DeleteSecret _ _) = True"
| "about_parts _ = False"

lemma only_parts:
  "only_calls about_parts (getAllBucketClaims E ns refs)"
  "only_calls about_parts (markAllBucketClaimsAsAccessed E m)"
  "only_calls about_parts (unmarkUnaccessedBucketClaims E m l self)"
  "only_calls about_parts (getBucketsForClaims E m)"
  "only_calls about_parts (reserveAccessSecrets E)"
  "only_calls about_parts (updateSecretsWithGrantedInfo E g details)"
  "only_calls about_parts (getAndValidateAllAccessedBuckets E)"
  "only_calls about_parts (deleteOwnedAccessSecrets E)"
  unfolding getAllBucketClaims_def markAllBucketClaimsAsAccessed_def unmarkUnaccessedBucketClaims_def getBucketsForClaims_def
    reserveAccessSecrets_def createNewOwnedAccessSecret_def updateExistingAccessSecretMetadata_def
    updateSecretsWithGrantedInfo_def fill_secret_def getAndValidateAllAccessedBuckets_def deleteOwnedAccessSecrets_def Let_def
  by (intro only_intros; simp)+

lemma parts_other: "about_parts c \<Longrightarrow> other_call c"
  by (cases c) simp_all

lemma only_revoke: "only_calls other_call (driverRevokeAccess E)"
  unfolding driverRevokeAccess_def Let_def by (intro only_intros; simp)

lemma parts_only_other: "only_calls about_parts m \<Longrightarrow> only_calls other_call m"
  by (erule only_mono) (rule parts_other)

lemmas only_others = only_parts [THEN parts_only_other] only_revoke

text \<open>Such a step keeps everything that depends on the view only.\<close>

definition stable :: "(call list \<Rightarrow> bool) \<Rightarrow> bool" where
  "stable K \<longleftrightarrow> (\<forall>h h'. extends other_call h h' \<longrightarrow> K h \<longrightarrow> K h')"

lemma stableI: "(\<And>h h'. view h' = view h \<Longrightarrow> (\<And>R. flow R h \<Longrightarrow> flow R h') \<Longrightarrow> K h \<Longrightarrow> K h') \<Longrightarrow> stable K"
  unfolding stable_def by (blast intro: extends_view extends_flow)

lemma vc_other:
  assumes "only_calls other_call m" and "stable K" and "K h" and "\<And>x h'. K h' \<Longrightarrow> set h \<subseteq> set h' \<Longrightarrow> N x h' ob"
    and "\<And>e h'. K h' \<Longrightarrow> set h \<subseteq> set h' \<Longrightarrow> X e h' ob"
  shows "vc m N X h ob"
proof (rule vc_only [OF assms(1)])
  fix h' assume e: "extends other_call h h'"
  have k: "K h'" using assms(2,3) e by (auto simp: stable_def)
  have s: "set h \<subseteq> set h'" using e by (auto simp: extends_def)
  show "N x h' ob" for x using k s by (rule assms(4))
  show "X x h' ob" for x using k s by (rule assms(5))
qed

lemmas vc_others = only_others [THEN vc_other]

subsection \<open>The flow of the Controller\<close>

definition with_finalizer :: "BucketAccess \<Rightarrow> BucketAccess" where
  "with_finalizer a = a\<lparr>ba_meta := snd (AddFinalizer (ba_meta a) ProtectionFinalizer)\<rparr>"

definition without_finalizer :: "BucketAccess \<Rightarrow> BucketAccess" where
  "without_finalizer a = a\<lparr>ba_meta := RemoveFinalizer (ba_meta a) ProtectionFinalizer\<rparr>"

text \<open>Of the metadata only finalizers and annotations differ, and the spec not at all; in particular the
  resource version is the same.\<close>

definition same_version :: "BucketAccess \<Rightarrow> BucketAccess \<Rightarrow> bool" where
  "same_version a b \<longleftrightarrow> ba_Spec b = ba_Spec a \<and>
     (ba_meta b)\<lparr>Finalizers := [], Annotations := []\<rparr> = (ba_meta a)\<lparr>Finalizers := [], Annotations := []\<rparr>"

lemma same_version_refl [simp]: "same_version a a"
  by (simp add: same_version_def)

lemma same_version_simps [simp]:
  "same_version a (access_status f b) = same_version a b"
  "same_version a (access_ready_default b) = same_version a b"
  "same_version a (with_finalizer b) = same_version a b"
  "same_version a (without_finalizer b) = same_version a b"
  "same_version a (mark_cleanup_finished b) = same_version a b"
  by (simp_all add: same_version_def access_status_def access_ready_default_def with_finalizer_def without_finalizer_def
      mark_cleanup_finished_def AddFinalizer_def RemoveFinalizer_def)

text \<open>What the Sidecar needs, all at once and from the class the BucketAccess names.\<close>

definition hands_over :: "call list \<Rightarrow> BucketAccess \<Rightarrow> BucketAccess \<Rightarrow> bool" where
  "hands_over V a a' \<longleftrightarrow> baStatus_AccessedBuckets (ba_Status a) = [] \<and>
     map ab_BucketClaimName (baStatus_AccessedBuckets (ba_Status a')) = map bca_BucketClaimName (baSpec_BucketClaims (ba_Spec a)) \<and>
     saw (got_access_class_at (global (baSpec_BucketAccessClassName (ba_Spec a)))) (\<lambda>cls.
       baStatus_DriverName (ba_Status a') = baclSpec_DriverName (bacl_Spec cls) \<and>
       baStatus_AuthenticationType (ba_Status a') = baclSpec_AuthenticationType (bacl_Spec cls)) V"

definition controller_write :: "call list \<Rightarrow> bool \<Rightarrow> BucketAccess \<Rightarrow> BucketAccess \<Rightarrow> bool" where
  "controller_write V del a a' \<longleftrightarrow> same_version a a' \<and>
     baStatus_AccountID (ba_Status a') = baStatus_AccountID (ba_Status a) \<and>
     (baStatus_ReadyToUse (ba_Status a') = Some True \<longrightarrow> baStatus_ReadyToUse (ba_Status a) = Some True) \<and>
     (same_handoff (ba_Status a) (ba_Status a') \<or> \<not> del \<and> hands_over V a a')"

definition controller_flow :: "call list \<Rightarrow> call \<Rightarrow> bool" where
  "controller_flow V c =
     (case c of
        GetAccess _ _ \<Rightarrow> V = []
      | GetAccessClass _ _ \<Rightarrow> True
      | UpdateAccess a' _ \<Rightarrow> (\<exists>k a. V = [GetAccess k (Inr a)] \<and> \<not> ManagedBySidecar a \<and>
          a' = (if deleting (ba_meta a) then without_finalizer a else with_finalizer a))
      | StatusAccess a' _ \<Rightarrow> \<not> saw stored_status (\<lambda>_. True) V \<and>
          saw got_access (\<lambda>a0. \<not> ManagedBySidecar a0 \<and>
            (deleting (ba_meta a0) \<longrightarrow> \<not> saw stored_access (\<lambda>_. True) V) \<and>
            (case newest V of None \<Rightarrow> False | Some a \<Rightarrow> controller_write V (deleting (ba_meta a0)) a a')) V
      | _ \<Rightarrow> False)"

text \<open>The invariant of a run: how the object in memory differs from the newest version seen.\<close>

definition controller_at :: "BucketAccess \<Rightarrow> call list \<Rightarrow> BucketAccess \<Rightarrow> bool" where
  "controller_at a0 h ob \<longleftrightarrow> flow controller_flow h \<and> saw got_access ((=) a0) (view h) \<and> \<not> ManagedBySidecar a0 \<and>
     \<not> saw stored_status (\<lambda>_. True) (view h) \<and> (deleting (ba_meta a0) \<longrightarrow> \<not> saw stored_access (\<lambda>_. True) (view h)) \<and>
     (\<exists>a. newest (view h) = Some a \<and> controller_write (view h) (deleting (ba_meta a0)) a ob)"

lemma controller_write_simps [simp]:
  "controller_write V del a a"
  "controller_write V del a b \<Longrightarrow> controller_write V del a (access_ready_default b)"
  "controller_write V del a b \<Longrightarrow> controller_write V del a (access_status (baStatus_Error_update g) b)"
  "controller_write V del a (with_finalizer b) = controller_write V del a b"
  "controller_write V del a (without_finalizer b) = controller_write V del a b"
  by (auto simp: controller_write_def same_handoff_def hands_over_def access_ready_default_def access_status_def
      with_finalizer_def without_finalizer_def same_version_simps [unfolded access_ready_default_def access_status_def
        with_finalizer_def without_finalizer_def] split: option.splits)

lemma controller_write_class [simp]:
  "controller_write V del a b \<Longrightarrow> controller_write (GetAccessClass k r # V) del a b"
  by (auto simp: controller_write_def hands_over_def)

lemma controller_at_status:
  "controller_at a0 h ob \<Longrightarrow> controller_flow (view h) (StatusAccess ob r) \<and> flow controller_flow h"
  by (auto simp: controller_at_def controller_flow_def elim!: know_saw)

text \<open>A run right after the read.\<close>

definition just_read :: "BucketAccess \<Rightarrow> call list \<Rightarrow> bool" where
  "just_read a h \<longleftrightarrow> (\<exists>k. view h = [GetAccess k (Inr a)])"

lemma just_read_controller_at: "just_read a h \<Longrightarrow> flow controller_flow h \<Longrightarrow> \<not> ManagedBySidecar a \<Longrightarrow> controller_at a h a"
  by (auto simp: just_read_def controller_at_def seen_access_def got_access_def stored_status_def stored_access_def)

text \<open>The finalizer, for both reconcilers.\<close>

lemma vc_ensure_finalizer_cases:
  assumes "N () h ob" and "\<And>ob'. N () (UpdateAccess (with_finalizer ob) (Inr ob') # h) ob'"
    and "\<And>e e'. X e (UpdateAccess (with_finalizer ob) (Inl e') # h) (with_finalizer ob)"
  shows "vc (ensure_access_finalizer E) N X h ob"
  unfolding ensure_access_finalizer_def Let_def
  using assms by (intro vc_intros) (auto simp: with_finalizer_def AddFinalizer_def split: if_splits)

lemma stable_controller [simp]:
  "stable (\<lambda>h. just_read a h \<and> flow controller_flow h)"
  "stable (\<lambda>h. controller_at a0 h ob \<and> newest (view h) = Some ob)"
  by (auto intro!: stableI simp: controller_at_def just_read_def)

lemma controller_at_class [simp]: "controller_at a0 h ob \<Longrightarrow> controller_at a0 (GetAccessClass k r # h) ob"
  by (auto simp: controller_at_def controller_flow_def seen_access_def got_access_def stored_status_def stored_access_def)

lemma controller_at_other [simp]: "other_call c \<Longrightarrow> controller_at a0 (c # h) ob = controller_at a0 h ob"
  by (simp add: controller_at_def)

lemma controller_at_failed [simp]:
  "controller_at a0 h ob \<Longrightarrow> controller_at a0 (StatusAccess ob (Inl e) # h) ob"
  by (auto simp: controller_at_def controller_flow_def seen_access_def got_access_def stored_status_def stored_access_def
    controller_write_def hands_over_def got_access_class_at_def elim!: know_saw)

lemma controller_deletion_flow:
  assumes "just_read a h" and "flow controller_flow h" and "\<not> ManagedBySidecar a" and "deleting (ba_meta a)"
  shows "vc (access_controller_reconcileDelete E) (\<lambda>_ h' _. flow controller_flow h') (\<lambda>_. controller_at a) h a"
  unfolding access_controller_reconcileDelete_def
  using assms by (intro vc_intros vc_others [where K = "\<lambda>h. just_read a h \<and> flow controller_flow h", OF stable_controller(1)])
    (auto simp: without_finalizer_def [symmetric] just_read_def controller_at_def controller_flow_def
      seen_access_def got_access_def stored_status_def stored_access_def)

lemma controller_handoff:
  assumes "controller_at a0 h ob" and "newest (view h) = Some ob" and "\<not> deleting (ba_meta a0)"
    and "baStatus_AccessedBuckets (ba_Status ob) = []" and "GetAccessClass (global (baSpec_BucketAccessClassName (ba_Spec ob))) (Inr cls) \<in> set h"
    and "compileAccessedBuckets (baSpec_BucketClaims (ba_Spec ob)) bs = Inr acc_bs"
  shows "controller_at a0 h (access_status (\<lambda>st. st\<lparr>baStatus_AccessedBuckets := acc_bs,
       baStatus_DriverName := baclSpec_DriverName (bacl_Spec cls),
       baStatus_AuthenticationType := baclSpec_AuthenticationType (bacl_Spec cls),
       baStatus_Parameters := baclSpec_Parameters (bacl_Spec cls), baStatus_Error := None\<rparr>) (access_ready_default ob))"
    (is "controller_at a0 h ?new")
proof -
  have "GetAccessClass (global (baSpec_BucketAccessClassName (ba_Spec ob))) (Inr cls) \<in> set (view h)"
    using assms(5) by (simp add: view_def)
  then have "hands_over (view h) ob ?new"
    using assms(4) compileAccessedBuckets_Inr [OF assms(6)]
    by (force simp: hands_over_def saw_iff got_access_class_at_def access_status_def)
  then have "controller_write (view h) False ob ?new"
    by (auto simp: controller_write_def access_status_def access_ready_default_def same_version_def split: option.splits)
  then show ?thesis using assms(1-3) by (simp add: controller_at_def)
qed

lemma controller_initialize_flow:
  assumes "controller_at a0 h ob" and "newest (view h) = Some ob" and "\<not> deleting (ba_meta a0)"
    and "baStatus_AccessedBuckets (ba_Status ob) = []"
  shows "vc (access_initialize E m) (\<lambda>_ h' _. flow controller_flow h') (\<lambda>_. controller_at a0) h ob"
  unfolding access_initialize_def Let_def global_def [symmetric]
  using assms by (intro vc_intros vc_others [where K = "\<lambda>h. controller_at a0 h ob \<and> newest (view h) = Some ob"])
    (auto simp: seen_access_def controller_handoff dest: controller_handoff [THEN controller_at_status] controller_at_status)

lemma controller_at_updated:
  assumes "just_read a h" and "flow controller_flow h" and "\<not> ManagedBySidecar a" and "\<not> deleting (ba_meta a)"
  shows "controller_at a (UpdateAccess (with_finalizer a) (Inr ob') # h) ob'"
    and "controller_at a (UpdateAccess (with_finalizer a) (Inl e) # h) (with_finalizer a)"
  using assms by (auto simp: just_read_def controller_at_def controller_flow_def
      seen_access_def got_access_def stored_status_def stored_access_def)

lemma controller_reconcile_flow:
  assumes "just_read a h" and "flow controller_flow h" and "\<not> ManagedBySidecar a"
  shows "vc (access_controller_reconcile E) (\<lambda>_ h' _. flow controller_flow h') (\<lambda>_. controller_at a) h a"
proof -
  have "newest (view h) = Some a" using assms(1) by (auto simp: just_read_def seen_access_def)
  then show ?thesis
    unfolding access_controller_reconcile_def
    using assms just_read_controller_at [OF assms]
    by (intro vc_intros controller_deletion_flow vc_ensure_finalizer_cases controller_initialize_flow
        vc_others [where K = "\<lambda>h. controller_at a h ob \<and> newest (view h) = Some ob" for ob, OF stable_controller(2)])
      (auto simp: deleting_def seen_access_def controller_at_updated dest: controller_at_status)
qed

lemma controller_at_error:
  "controller_at a0 h ob \<Longrightarrow> controller_at a0 h (access_status (baStatus_Error_update g) (access_ready_default ob))"
  by (auto simp: controller_at_def)

lemma controller_flow_first [simp]: "controller_flow V (GetAccess k r) \<longleftrightarrow> V = []"
  by (simp add: controller_flow_def)

lemma controller_Reconcile_flow: "flow controller_flow (trace (access_controller_Reconcile E req) (start ob w))"
  unfolding flow_def access_controller_Reconcile_def Let_def
  by (rule trace_allowedI, fold flow_def, intro vc_intros controller_reconcile_flow [THEN vc_mono])
    (auto simp: just_read_def dest: controller_at_error [THEN controller_at_status])

subsection \<open>The flow of the Sidecar\<close>

definition sidecar_write :: "bool \<Rightarrow> BucketAccess \<Rightarrow> BucketAccess \<Rightarrow> bool" where
  "sidecar_write del a a' \<longleftrightarrow> same_version a a' \<and> same_handoff (ba_Status a) (ba_Status a') \<and>
     (baStatus_AccountID (ba_Status a') = baStatus_AccountID (ba_Status a) \<and>
        (baStatus_ReadyToUse (ba_Status a') = Some True \<longrightarrow> baStatus_ReadyToUse (ba_Status a) = Some True) \<or>
      \<not> del \<and> baStatus_AccountID (ba_Status a') \<noteq> '''' \<and> set (map bca_BucketClaimName (baSpec_BucketClaims (ba_Spec a))) \<subseteq>
        set (map ab_BucketClaimName (baStatus_AccessedBuckets (ba_Status a))))"

definition sidecar_flow :: "DriverInfo \<Rightarrow> call list \<Rightarrow> call \<Rightarrow> bool" where
  "sidecar_flow d V c =
     (case c of
        GetAccess _ _ \<Rightarrow> V = []
      | UpdateAccess a' _ \<Rightarrow> saw got_access (\<lambda>a0. ManagedBySidecar a0 \<and> baStatus_DriverName (ba_Status a0) = di_Name d \<and>
          (if deleting (ba_meta a0)
           then \<not> saw stored_access (\<lambda>_. True) V \<and> saw stored_status (\<lambda>_. True) V \<and>
             (case newest V of None \<Rightarrow> False | Some a \<Rightarrow> a' = mark_cleanup_finished a)
           else newest V = Some a0 \<and> a' = with_finalizer a0)) V
      | StatusAccess a' _ \<Rightarrow> saw got_access (\<lambda>a0. ManagedBySidecar a0 \<and> baStatus_DriverName (ba_Status a0) = di_Name d \<and>
          (deleting (ba_meta a0) \<longrightarrow> \<not> saw stored_access (\<lambda>_. True) V) \<and>
          (case newest V of None \<Rightarrow> False | Some a \<Rightarrow> sidecar_write (deleting (ba_meta a0)) a a')) V
      | _ \<Rightarrow> False)"

definition sidecar_at :: "DriverInfo \<Rightarrow> BucketAccess \<Rightarrow> call list \<Rightarrow> BucketAccess \<Rightarrow> bool" where
  "sidecar_at d a0 h ob \<longleftrightarrow> flow (sidecar_flow d) h \<and> saw got_access ((=) a0) (view h) \<and> ManagedBySidecar a0 \<and>
     baStatus_DriverName (ba_Status a0) = di_Name d \<and>
     (deleting (ba_meta a0) \<longrightarrow> \<not> saw stored_access (\<lambda>_. True) (view h)) \<and>
     (\<exists>a. newest (view h) = Some a \<and> sidecar_write (deleting (ba_meta a0)) a ob)"

lemma sidecar_write_simps [simp]:
  "sidecar_write del a a"
  "sidecar_write del a b \<Longrightarrow> sidecar_write del a (access_ready_default b)"
  "sidecar_write del a b \<Longrightarrow> sidecar_write del a (access_status (baStatus_Error_update g) b)"
  "sidecar_write del a b \<Longrightarrow>
     sidecar_write del a (access_status (\<lambda>st. st\<lparr>baStatus_ReadyToUse := Some False, baStatus_Error := None\<rparr>) b)"
  "sidecar_write del a (with_finalizer b) = sidecar_write del a b"
  "sidecar_write del a (mark_cleanup_finished b) = sidecar_write del a b"
proof -
  show "sidecar_write del a a" by (simp add: sidecar_write_def same_handoff_def)
  show "sidecar_write del a (with_finalizer b) = sidecar_write del a b"
    "sidecar_write del a (mark_cleanup_finished b) = sidecar_write del a b"
    unfolding sidecar_write_def same_version_simps by (simp_all add: with_finalizer_def mark_cleanup_finished_def)
qed (auto simp: sidecar_write_def same_handoff_def access_ready_default_def access_status_def same_version_def split: option.splits)

lemma sidecar_at_status:
  "sidecar_at d a0 h ob \<Longrightarrow> sidecar_flow d (view h) (StatusAccess ob r) \<and> flow (sidecar_flow d) h"
  by (auto simp: sidecar_at_def sidecar_flow_def elim!: know_saw)

lemma stable_sidecar [simp]:
  "stable (\<lambda>h. sidecar_at d a0 h ob \<and> newest (view h) = Some ob)"
  "stable (\<lambda>h. sidecar_at d a0 h ob \<and> newest (view h) = Some ob \<and> saw stored_status (\<lambda>_. True) (view h))"
  by (auto intro!: stableI simp: sidecar_at_def)

lemma sidecar_at_other [simp]: "other_call c \<Longrightarrow> sidecar_at d a0 (c # h) ob = sidecar_at d a0 h ob"
  by (simp add: sidecar_at_def)

lemma sidecar_at_error:
  "sidecar_at d a0 h ob \<Longrightarrow> sidecar_at d a0 h (access_status (baStatus_Error_update g) (access_ready_default ob))"
  by (auto simp: sidecar_at_def)

lemma sidecar_at_after_status:
  assumes "sidecar_at d a0 h ob"
  shows "sidecar_at d a0 (StatusAccess ob (Inr ob') # h) ob'" and "sidecar_at d a0 (StatusAccess ob (Inl e) # h) ob"
  using assms sidecar_at_status [OF assms]
  by (auto simp: sidecar_at_def seen_access_def got_access_def stored_access_def)

lemma sidecar_at_handback:
  assumes "sidecar_at d a0 h ob" and "newest (view h) = Some ob" and "saw stored_status (\<lambda>_. True) (view h)" and "deleting (ba_meta a0)"
  shows "sidecar_flow d (view h) (UpdateAccess (mark_cleanup_finished ob) r)"
    and "sidecar_at d a0 (UpdateAccess (mark_cleanup_finished ob) (Inl e) # h) (mark_cleanup_finished ob)"
  using assms
  by (auto simp: sidecar_at_def sidecar_flow_def seen_access_def got_access_def stored_access_def elim!: know_saw)

abbreviation claims_covered :: "BucketAccess \<Rightarrow> bool" where
  "claims_covered a \<equiv> set (map bca_BucketClaimName (baSpec_BucketClaims (ba_Spec a))) \<subseteq>
     set (map ab_BucketClaimName (baStatus_AccessedBuckets (ba_Status a)))"

lemma grant_config_covers:
  assumes "newInternalGrantAccessConfig rank a m = Inr g"
  shows "claims_covered a"
proof -
  obtain configs where "generateInternalAccessedBucketConfigs a = Inr configs"
    using assms by (auto simp: newInternalGrantAccessConfig_def split: sum.splits)
  from generateInternalAccessedBucketConfigs_Inr(1) [OF this] show ?thesis by force
qed

lemma sidecar_write_grant:
  "claims_covered a \<Longrightarrow> i \<noteq> '''' \<Longrightarrow> sidecar_write False a (access_status (\<lambda>st. st\<lparr>baStatus_AccountID := i,
     baStatus_ReadyToUse := Some True, baStatus_Error := None\<rparr>) a)"
  by (simp add: sidecar_write_def same_handoff_def access_status_def same_version_def)

lemma sidecar_at_granted:
  assumes "sidecar_at d a0 h ob" and "newest (view h) = Some ob" and "\<not> deleting (ba_meta a0)" and "claims_covered ob"
    and "translateDriverGrantBucketAccessResponseToApi rank resp v = Inr details"
  shows "sidecar_at d a0 h (access_status (\<lambda>st. st\<lparr>baStatus_AccountID := gd_AccountId details,
     baStatus_ReadyToUse := Some True, baStatus_Error := None\<rparr>) ob)"
  using assms(1-3) sidecar_write_grant [OF assms(4)] translateDriverGrantBucketAccessResponseToApi_Inr(1) [OF assms(5)]
  by (simp add: sidecar_at_def)

lemma sidecar_grant_flow:
  assumes "sidecar_at d a0 h ob" and "newest (view h) = Some ob" and "\<not> deleting (ba_meta a0)" and "claims_covered ob"
  shows "vc (grant_access E g) (\<lambda>_ h' _. flow (sidecar_flow d) h') (\<lambda>_. sidecar_at d a0) h ob"
  unfolding grant_access_def Let_def
  using assms by (intro vc_intros vc_others [where K = "\<lambda>h. sidecar_at d a0 h ob \<and> newest (view h) = Some ob", OF stable_sidecar(1)])
    (auto simp: sidecar_at_granted sidecar_at_after_status dest: sidecar_at_granted [THEN sidecar_at_status] simp del: set_map)

lemma sidecar_deletion_flow:
  assumes "sidecar_at d a h a" and "newest (view h) = Some a" and "deleting (ba_meta a)"
  shows "vc (access_sidecar_reconcileDelete E) (\<lambda>_ h' _. flow (sidecar_flow d) h') (\<lambda>_. sidecar_at d a) h a"
proof -
  let ?new = "access_status (\<lambda>st. st\<lparr>baStatus_ReadyToUse := Some False, baStatus_Error := None\<rparr>) a"
  have new: "sidecar_at d a h ?new" using assms(1) by (auto simp: sidecar_at_def)
  show ?thesis
    unfolding access_sidecar_reconcileDelete_def
    using assms sidecar_at_after_status [OF new]
    by (intro vc_intros vc_others [where K = "\<lambda>h. sidecar_at d a h ob \<and> newest (view h) = Some ob \<and>
          saw stored_status (\<lambda>_. True) (view h)" for ob, OF stable_sidecar(2)])
      (auto simp: seen_access_def stored_status_def sidecar_at_handback dest: sidecar_at_status)
qed

lemma sidecar_at_updated:
  assumes "sidecar_at d a h a" and "newest (view h) = Some a" and "\<not> deleting (ba_meta a)"
  shows "sidecar_at d a (UpdateAccess (with_finalizer a) (Inr ob') # h) ob'"
    and "sidecar_at d a (UpdateAccess (with_finalizer a) (Inl e) # h) (with_finalizer a)"
  using assms
  by (auto simp: sidecar_at_def sidecar_flow_def seen_access_def got_access_def stored_access_def elim!: know_saw)

lemma sidecar_reconcile_flow:
  assumes "flow (sidecar_flow d) h" and "just_read a h" and "ManagedBySidecar a"
  shows "vc (access_sidecar_reconcile d E) (\<lambda>_ h' _. flow (sidecar_flow d) h') (\<lambda>_. sidecar_at d a) h a"
proof -
  have n: "newest (view h) = Some a" using assms(2) by (auto simp: just_read_def seen_access_def)
  have at: "sidecar_at d a h a" if "baStatus_DriverName (ba_Status a) = di_Name d"
    using assms that by (auto simp: sidecar_at_def just_read_def seen_access_def got_access_def stored_access_def)
  show ?thesis
    unfolding access_sidecar_reconcile_def
    using assms n at
    by (intro vc_intros sidecar_deletion_flow vc_ensure_finalizer_cases sidecar_grant_flow
        vc_others [where K = "\<lambda>h. sidecar_at d a h ob \<and> newest (view h) = Some ob" for ob, OF stable_sidecar(1)])
      (auto simp: deleting_def seen_access_def sidecar_at_updated grant_config_covers simp del: set_map dest: sidecar_at_status)
qed

lemma sidecar_flow_first [simp]: "sidecar_flow d V (GetAccess k r) \<longleftrightarrow> V = []"
  by (simp add: sidecar_flow_def)

lemma sidecar_Reconcile_flow: "flow (sidecar_flow d) (trace (access_sidecar_Reconcile d E req) (start ob w))"
  unfolding flow_def access_sidecar_Reconcile_def Let_def
  by (rule trace_allowedI, fold flow_def, intro vc_intros sidecar_reconcile_flow [THEN vc_mono])
    (auto simp: just_read_def dest: sidecar_at_error [THEN sidecar_at_status])

subsection \<open>What a write of a run says\<close>

lemma saw_obtain: "saw sel P h \<Longrightarrow> \<exists>x. saw sel ((=) x) h \<and> P x"
  by (auto simp: saw_iff)

lemma controller_flow_status:
  assumes "controller_flow V (StatusAccess new r)"
  shows "\<exists>a0 a. saw got_access ((=) a0) V \<and> \<not> ManagedBySidecar a0 \<and> \<not> saw stored_status (\<lambda>_. True) V \<and>
     (deleting (ba_meta a0) \<longrightarrow> \<not> saw stored_access (\<lambda>_. True) V) \<and> newest V = Some a \<and> controller_write V (deleting (ba_meta a0)) a new"
  using assms by (cases "newest V") (auto simp: controller_flow_def dest!: saw_obtain)

lemma sidecar_flow_status:
  assumes "sidecar_flow d V (StatusAccess new r)"
  shows "\<exists>a0 a. saw got_access ((=) a0) V \<and> ManagedBySidecar a0 \<and> baStatus_DriverName (ba_Status a0) = di_Name d \<and>
     (deleting (ba_meta a0) \<longrightarrow> \<not> saw stored_access (\<lambda>_. True) V) \<and> newest V = Some a \<and> sidecar_write (deleting (ba_meta a0)) a new"
  using assms by (cases "newest V") (auto simp: sidecar_flow_def dest!: saw_obtain)

lemma sidecar_flow_update:
  assumes "sidecar_flow d V (UpdateAccess new r)"
  shows "\<exists>a0 a. saw got_access ((=) a0) V \<and> ManagedBySidecar a0 \<and> baStatus_DriverName (ba_Status a0) = di_Name d \<and>
     (deleting (ba_meta a0) \<longrightarrow> \<not> saw stored_access (\<lambda>_. True) V) \<and> newest V = Some a \<and>
     (if deleting (ba_meta a0) then new = mark_cleanup_finished a else a = a0 \<and> new = with_finalizer a)"
  using saw_obtain [OF assms [unfolded sidecar_flow_def call.case]]
  by (cases "newest V") (auto split: if_splits)

end
