(* ===== verification/Version_History.thy ===== *)
theory Version_History
  imports Main
begin

text \<open>
  The contract between the versions of an object that the API server stores, the newest first, and an
  abstract machine its life follows: the first version is in the initial state and each version is
  one step after the one before. What follows for any two versions is proved once.
\<close>

locale version_history =
  fixes history :: "'a list \<Rightarrow> bool" and state :: "'a \<Rightarrow> 'b" and step :: "'b \<Rightarrow> 'b \<Rightarrow> bool" and initial :: 'b
  assumes begins: "history H \<Longrightarrow> H \<noteq> [] \<and> state (last H) = initial"
    and follows: "history H \<Longrightarrow> successively (\<lambda>x y. step (state y) (state x)) H"
begin

lemma later_reaches:
  assumes "history (newer @ x # older)" and "y \<in> set (x # older)"
  shows "step\<^sup>*\<^sup>* (state y) (state x)"
proof -
  have "successively (\<lambda>x y. step (state y) (state x)) (x # older)"
    using follows [OF assms(1)] by (simp add: successively_append_iff)
  then show ?thesis using assms(2)
  proof (induction older arbitrary: x)
    case (Cons z older)
    have s: "step (state z) (state x)" and t: "successively (\<lambda>x y. step (state y) (state x)) (z # older)"
      using Cons.prems(1) by simp_all
    show ?case
    proof (cases "y = x")
      case False
      then have "step\<^sup>*\<^sup>* (state y) (state z)" using Cons.IH [OF t] Cons.prems(2) by simp
      then show ?thesis using s by (rule rtranclp.rtrancl_into_rtrancl)
    qed simp
  qed simp
qed

lemma reachable:
  assumes "history H" and "x \<in> set H"
  shows "step\<^sup>*\<^sup>* initial (state x)"
proof -
  obtain newer older where H: "H = newer @ x # older" using assms(2) by (meson split_list)
  have "last H = last (x # older)" unfolding H by simp
  then have "state (last (x # older)) = initial" using begins [OF assms(1)] by simp
  then show ?thesis using later_reaches [of newer x older "last (x # older)"] assms(1) H by (metis last_in_set list.distinct(1))
qed

end

end
