(* ===== verification/Access_Lifecycle.thy ===== *)
theory Access_Lifecycle
  imports Access_Flow Version_History Bucket_Sidecar Predicates
begin

text \<open>
  The life of one BucketAccess in the API server, with the Controller, the Sidecars of any drivers and other
  clients working on it at the same time. The state is the list of all versions the server has stored,
  the newest first. A run of a reconciler may have read any of them (caches are stale), and its
  writes are interleaved with those of the others in any order; the server accepts a write only
  when it names the newest version (optimistic concurrency). What is proved holds for all such
  histories.
\<close>

subsection \<open>The API server\<close>

abbreviation version :: "BucketAccess \<Rightarrow> nat" where
  "version a \<equiv> ResourceVersion (ba_meta a)"

text \<open>The status is a subresource: a write of the status stores the status only, a write of the object
  everything but the status. The server owns the deletion timestamp.\<close>

definition status_stored :: "BucketAccess \<Rightarrow> BucketAccess \<Rightarrow> nat \<Rightarrow> BucketAccess" where
  "status_stored cur new v = cur\<lparr>ba_meta := (ba_meta cur)\<lparr>ResourceVersion := v\<rparr>, ba_Status := ba_Status new\<rparr>"

definition update_stored :: "BucketAccess \<Rightarrow> BucketAccess \<Rightarrow> nat \<Rightarrow> BucketAccess" where
  "update_stored cur new v = cur\<lparr>ba_Spec := ba_Spec new,
     ba_meta := (ba_meta cur)\<lparr>Finalizers := Finalizers (ba_meta new), Annotations := Annotations (ba_meta new),
       ResourceVersion := v\<rparr>\<rparr>"

text \<open>What admission guarantees of a class: \<open>driverName\<close> and \<open>authenticationType\<close> are required.\<close>

definition well_formed_class :: "BucketAccessClass \<Rightarrow> bool" where
  "well_formed_class cls \<longleftrightarrow> baclSpec_DriverName (bacl_Spec cls) \<noteq> '''' \<and> baclSpec_AuthenticationType (bacl_Spec cls) \<noteq> ''''"

text \<open>The answers of the server to a run: a read gives a stored version, and an accepted write gives what was
  stored for it.\<close>

fun honest :: "BucketAccess list \<Rightarrow> call \<Rightarrow> bool" where
  "honest H (GetAccess _ (Inr a)) \<longleftrightarrow> a \<in> set H"
| "honest H (UpdateAccess x (Inr y)) \<longleftrightarrow> y \<in> set H \<and> (\<exists>z \<in> set H. version z = version x \<and> y = update_stored z x (version y))"
| "honest H (StatusAccess x (Inr y)) \<longleftrightarrow> y \<in> set H \<and> (\<exists>z \<in> set H. version z = version x \<and> y = status_stored z x (version y))"
| "honest H (GetAccessClass _ (Inr cls)) \<longleftrightarrow> well_formed_class cls"
| "honest H _ \<longleftrightarrow> True"

text \<open>A new BucketAccess, and what any other client may do to it: request the deletion, and change its metadata,
  but not set or remove the mark that is the Sidecar's.\<close>

definition new_access :: "BucketAccess \<Rightarrow> bool" where
  "new_access a \<longleftrightarrow> baSpec_BucketClaims (ba_Spec a) \<noteq> [] \<and> \<not> deleting (ba_meta a) \<and>
     \<not> ghas (Annotations (ba_meta a)) SidecarCleanupFinishedAnnotation \<and>
     ba_Status a = \<lparr>baStatus_ReadyToUse = None, baStatus_AccountID = '''', baStatus_AccessedBuckets = [],
       baStatus_DriverName = '''', baStatus_AuthenticationType = '''', baStatus_Parameters = [], baStatus_Error = None\<rparr>"

definition client_change :: "BucketAccess \<Rightarrow> BucketAccess \<Rightarrow> bool" where
  "client_change cur new \<longleftrightarrow> ba_Spec new = ba_Spec cur \<and> ba_Status new = ba_Status cur \<and>
     UID (ba_meta new) = UID (ba_meta cur) \<and> (deleting (ba_meta cur) \<longrightarrow> deleting (ba_meta new)) \<and>
     ghas (Annotations (ba_meta new)) SidecarCleanupFinishedAnnotation =
       ghas (Annotations (ba_meta cur)) SidecarCleanupFinishedAnnotation"

text \<open>The histories. A write is taken from any run of a reconciler, with the calls made before it.\<close>

inductive access_history :: "'w env \<Rightarrow> 'v env \<Rightarrow> BucketAccess list \<Rightarrow> bool" for Ec :: "'w env" and Es :: "'v env" where
  created: "new_access a \<Longrightarrow> access_history Ec Es [a]"
| controller_status:
    "access_history Ec Es (cur # H) \<Longrightarrow>
     trace (access_controller_Reconcile Ec req) (start ob w) = later @ StatusAccess new r # h \<Longrightarrow>
     list_all (honest (cur # H)) h \<Longrightarrow> version new = version cur \<Longrightarrow> version cur < v \<Longrightarrow>
     access_history Ec Es (status_stored cur new v # cur # H)"
| controller_update:
    "access_history Ec Es (cur # H) \<Longrightarrow>
     trace (access_controller_Reconcile Ec req) (start ob w) = later @ UpdateAccess new r # h \<Longrightarrow>
     list_all (honest (cur # H)) h \<Longrightarrow> version new = version cur \<Longrightarrow> version cur < v \<Longrightarrow>
     access_history Ec Es (update_stored cur new v # cur # H)"
| sidecar_status:
    "access_history Ec Es (cur # H) \<Longrightarrow>
     trace (access_sidecar_Reconcile d Es req) (start ob w') = later @ StatusAccess new r # h \<Longrightarrow>
     list_all (honest (cur # H)) h \<Longrightarrow> version new = version cur \<Longrightarrow> version cur < v \<Longrightarrow>
     access_history Ec Es (status_stored cur new v # cur # H)"
| sidecar_update:
    "access_history Ec Es (cur # H) \<Longrightarrow>
     trace (access_sidecar_Reconcile d Es req) (start ob w') = later @ UpdateAccess new r # h \<Longrightarrow>
     list_all (honest (cur # H)) h \<Longrightarrow> version new = version cur \<Longrightarrow> version cur < v \<Longrightarrow>
     access_history Ec Es (update_stored cur new v # cur # H)"
| client:
    "access_history Ec Es (cur # H) \<Longrightarrow> client_change cur new \<Longrightarrow> version cur < version new \<Longrightarrow>
     access_history Ec Es (new # cur # H)"

lemma stored_version [simp]: "version (status_stored cur new v) = v" "version (update_stored cur new v) = v"
  by (simp_all add: status_stored_def update_stored_def)

text \<open>A version identifies what was stored.\<close>

lemma history_versions: "access_history Ec Es H \<Longrightarrow> sorted_wrt (\<lambda>x y. version y < version x) H"
  by (induction rule: access_history.induct) fastforce+

lemma version_unique:
  assumes "sorted_wrt (\<lambda>x y. version y < version x) H" and "x \<in> set H" and "y \<in> set H" and "version x = version y"
  shows "x = y"
  using assms by (induction H) auto

subsection \<open>What a run has seen\<close>

text \<open>The same object up to its finalizers and what the Sidecar writes into the status.\<close>

definition kin :: "BucketAccess \<Rightarrow> BucketAccess \<Rightarrow> bool" where
  "kin a b \<longleftrightarrow> ba_Spec b = ba_Spec a \<and> same_handoff (ba_Status a) (ba_Status b) \<and>
     (ba_meta b)\<lparr>Finalizers := [], ResourceVersion := 0\<rparr> = (ba_meta a)\<lparr>Finalizers := [], ResourceVersion := 0\<rparr>"

lemma kin_refl [simp]: "kin a a"
  by (simp add: kin_def same_handoff_def)

lemma kin_meta: "kin a b \<Longrightarrow> Annotations (ba_meta b) = Annotations (ba_meta a) \<and> DeletionTimestamp (ba_meta b) = DeletionTimestamp (ba_meta a)"
  unfolding kin_def by (cases "ba_meta a"; cases "ba_meta b") simp

lemma kin_manager:
  assumes "kin a b"
  shows "ManagedBySidecar b = ManagedBySidecar a" and "deleting (ba_meta b) = deleting (ba_meta a)"
    and "baStatus_DriverName (ba_Status b) = baStatus_DriverName (ba_Status a)"
proof -
  show d: "baStatus_DriverName (ba_Status b) = baStatus_DriverName (ba_Status a)"
    using assms by (simp add: kin_def same_handoff_def)
  show "deleting (ba_meta b) = deleting (ba_meta a)" using kin_meta [OF assms] by (simp add: deleting_def)
  then show "ManagedBySidecar b = ManagedBySidecar a" using kin_meta [OF assms] d by (simp add: ManagedBySidecar_iff)
qed

lemma same_version_version: "same_version a b \<Longrightarrow> version b = version a"
  unfolding same_version_def by (cases "ba_meta a"; cases "ba_meta b") simp

lemma kin_finalizer: "kin a (update_stored a (with_finalizer a) v)"
  by (simp add: kin_def same_handoff_def update_stored_def with_finalizer_def AddFinalizer_def)

lemma kin_status: "kin a0 a \<Longrightarrow> same_handoff (ba_Status a) (ba_Status x) \<Longrightarrow> kin a0 (status_stored a x v)"
  by (simp add: kin_def same_handoff_def status_stored_def)

lemma newest_seen: "newest h = Some a \<Longrightarrow> \<exists>c \<in> set h. seen_access c = Some a"
  by (induction h) (auto split: option.splits)

lemma view_subset: "set (view h) \<subseteq> set h"
  by (auto simp: view_def)

lemma newest_view_seen: "newest (view h) = Some a \<Longrightarrow> \<exists>c \<in> set h. seen_access c = Some a"
  using newest_seen [of "view h" a] view_subset [of h] by blast

lemma seen_in_view: "seen_access c = Some a \<Longrightarrow> about_access c"
  by (cases c) (simp_all add: seen_access_def)

lemma seen_cases:
  assumes "seen_access c = Some a"
  obtains k where "c = GetAccess k (Inr a)" | x where "c = UpdateAccess x (Inr a)" | x where "c = StatusAccess x (Inr a)"
  using assms that by (cases c) (auto simp: seen_access_def good_def split: sum.splits)

lemma honest_seen: "honest H c \<Longrightarrow> seen_access c = Some a \<Longrightarrow> a \<in> set H"
  by (erule seen_cases) auto

lemma read_first:
  assumes "flow R h" and "\<And>V k r. R V (GetAccess k r) \<Longrightarrow> V = []" and "saw got_access ((=) a) (view h)" and "saw got_access ((=) b) (view h)"
  shows "a = b"
  using assms(1,3,4)
proof (induction h)
  case (Cons c h)
  show ?case
  proof (cases "got_access c")
    case None
    then show ?thesis using Cons by (auto split: if_splits)
  next
    case (Some x)
    then obtain k where c: "c = GetAccess k (Inr x)"
      by (cases c) (auto simp: got_access_def good_def split: sum.splits)
    then have "view h = []" using Cons.prems(1) assms(2) by auto
    then show ?thesis using Cons.prems c by (simp add: got_access_def)
  qed
qed simp


text \<open>What the server stores for the two kinds of writes of a run.\<close>

lemma finalizer_stored:
  assumes "honest H (UpdateAccess (with_finalizer a0) (Inr a))" and "a0 \<in> set H" and "sorted_wrt (\<lambda>x y. version y < version x) H"
  shows "kin a0 a"
proof -
  obtain z where z: "z \<in> set H" "version z = version (with_finalizer a0)" "a = update_stored z (with_finalizer a0) (version a)"
    using assms(1) by auto
  have "version (with_finalizer a0) = version a0" by (rule same_version_version) simp
  then have "z = a0" using version_unique [OF assms(3) z(1) assms(2)] z(2) by simp
  then show ?thesis using z(3) kin_finalizer by metis
qed

lemma status_written:
  assumes "honest H (StatusAccess x (Inr y))" and "a \<in> set H" and "sorted_wrt (\<lambda>x y. version y < version x) H"
    and "kin a0 a" and "sidecar_write del a x"
  shows "kin a0 y"
proof -
  have x: "same_version a x" "same_handoff (ba_Status a) (ba_Status x)" using assms(5) by (auto simp: sidecar_write_def)
  obtain z where z: "z \<in> set H" "version z = version x" "y = status_stored z x (version y)"
    using assms(1) by auto
  have "z = a" using version_unique [OF assms(3) z(1) assms(2)] z(2) same_version_version [OF x(1)] by simp
  then show ?thesis using z(3) kin_status [OF assms(4) x(2)] by metis
qed

lemma read_in_history: "list_all (honest H) h \<Longrightarrow> GetAccess k (Inr a) \<in> set h \<Longrightarrow> a \<in> set H"
  by (auto simp: list_all_iff)

text \<open>Everything a run of the Controller has seen is the object it read, until it stores a status.\<close>

lemma controller_seen:
  assumes "flow controller_flow h" and "list_all (honest H) h" and "sorted_wrt (\<lambda>x y. version y < version x) H"
    and "saw got_access ((=) a0) (view h)" and "\<not> saw stored_status (\<lambda>_. True) (view h)"
    and "deleting (ba_meta a0) \<longrightarrow> \<not> saw stored_access (\<lambda>_. True) (view h)"
    and "c \<in> set h" and "seen_access c = Some a"
  shows "kin a0 a"
  using assms(1,2,4-8)
proof (induction h arbitrary: a c)
  case (Cons x h)
  show ?case
  proof (cases "c = x \<and> seen_access x \<noteq> None")
    case False
    then have c: "c \<in> set h" using Cons.prems by auto
    then have "view h \<noteq> []" using seen_in_view [OF Cons.prems(7)] by (auto simp: view_def filter_empty_conv)
    then have "got_access x = None" using Cons.prems(1) by (cases x) (auto simp: got_access_def)
    then show ?thesis using Cons.IH [OF _ _ _ _ _ c] Cons.prems by (auto split: if_splits option.splits)
  next
    case True
    then have x: "seen_access x = Some a" using Cons.prems by simp
    then show ?thesis
    proof (cases rule: seen_cases)
      case (1 k)
      then show ?thesis using Cons.prems(1,3) by (auto simp: got_access_def)
    next
      case (2 y)
      then obtain k where k: "view h = [GetAccess k (Inr a0)]" "y = (if deleting (ba_meta a0) then without_finalizer a0 else with_finalizer a0)"
        using Cons.prems(1,3) by (auto simp: controller_flow_def got_access_def)
      then have y: "y = with_finalizer a0" using Cons.prems(5) 2 by (auto simp: stored_access_def)
      have "GetAccess k (Inr a0) \<in> set (view h)" using k(1) by simp
      then have "a0 \<in> set H" using read_in_history [of H h k a0] Cons.prems(2) view_subset [of h] by auto
      then show ?thesis using finalizer_stored [OF _ _ assms(3)] Cons.prems(2) 2 y by auto
    next
      case (3 y)
      then show ?thesis using Cons.prems(4) by (simp add: stored_status_def)
    qed
  qed
qed simp

text \<open>Everything a run of a Sidecar has seen is the object it read, up to the status, until it hands it back.\<close>

lemma sidecar_seen:
  assumes "flow (sidecar_flow d) h" and "list_all (honest H) h" and "sorted_wrt (\<lambda>x y. version y < version x) H"
    and "saw got_access ((=) a0) (view h)" and "deleting (ba_meta a0) \<longrightarrow> \<not> saw stored_access (\<lambda>_. True) (view h)"
    and "c \<in> set h" and "seen_access c = Some a"
  shows "kin a0 a"
  using assms(1,2,4-7)
proof (induction h arbitrary: a c)
  case (Cons x h)
  have IH: "kin a0 b" if "c' \<in> set h" "seen_access c' = Some b" for c' b
  proof -
    have "view h \<noteq> []" using that seen_in_view [OF that(2)] by (auto simp: view_def filter_empty_conv)
    then have "got_access x = None" using Cons.prems(1) by (cases x) (auto simp: got_access_def)
    then show ?thesis using Cons.IH [OF _ _ _ _ that] Cons.prems by (auto split: if_splits option.splits)
  qed
  have old: "kin a0 b \<and> b \<in> set H" if "newest (view h) = Some b" for b
    using newest_view_seen [OF that] IH honest_seen Cons.prems(2) by (fastforce simp: list_all_iff)
  have got: "a0' = a0" if "saw got_access ((=) a0') (view h)" "saw got_access ((=) a0) (view h)" for a0'
    by (rule read_first [where R = "sidecar_flow d", OF _ _ that]) (use Cons.prems(1) in auto)
  show ?case
  proof (cases "c = x \<and> seen_access x \<noteq> None")
    case False
    then show ?thesis using Cons.prems IH by auto
  next
    case True
    then have x: "seen_access x = Some a" using Cons.prems by simp
    then show ?thesis
    proof (cases rule: seen_cases)
      case (1 k)
      then show ?thesis using Cons.prems(1,3) by (auto simp: got_access_def)
    next
      case (2 y)
      then have "sidecar_flow d (view h) (UpdateAccess y (Inr a))" using Cons.prems(1) by simp
      from sidecar_flow_update [OF this] obtain a0' b where b: "saw got_access ((=) a0') (view h)" "newest (view h) = Some b"
          "if deleting (ba_meta a0') then y = mark_cleanup_finished b else b = a0' \<and> y = with_finalizer b" by blast
      have "a0' = a0" "\<not> deleting (ba_meta a0)" using got [OF b(1)] Cons.prems(3,4) 2 by auto
      then have "newest (view h) = Some a0" "y = with_finalizer a0" using b by auto
      then show ?thesis using finalizer_stored [OF _ _ assms(3)] old Cons.prems(2) 2 by auto
    next
      case (3 y)
      then obtain b del where "newest (view h) = Some b" "sidecar_write del b y"
        using Cons.prems(1) by (auto dest: sidecar_flow_status)
      moreover have "honest H (StatusAccess y (Inr a))" using Cons.prems(2) 3 by simp
      ultimately show ?thesis using old status_written [OF _ _ assms(3)] by blast
    qed
  qed
qed simp

subsection \<open>Accepted writes\<close>

text \<open>A write that names the newest version is based on it.\<close>

lemma write_split:
  assumes "flow R (later @ c # h)" and "about_access c"
  shows "R (view h) c" and "flow R h"
  using assms by (induction later) auto

lemma based_on_newest:
  assumes "access_history Ec Es (cur # H)" and "list_all (honest (cur # H)) h" and "newest (view h) = Some a" and "version a = version cur"
  shows "a = cur"
proof -
  obtain c where "c \<in> set h" "seen_access c = Some a" using newest_view_seen [OF assms(3)] by blast
  then have "a \<in> set (cur # H)" using honest_seen assms(2) by (fastforce simp: list_all_iff)
  then show ?thesis using version_unique [OF history_versions [OF assms(1)] _ _ assms(4)] by simp
qed

lemma controller_status_accepted:
  assumes "access_history Ec Es (cur # H)"
    and "trace (access_controller_Reconcile Ec req) (start ob w) = later @ StatusAccess new r # h"
    and "list_all (honest (cur # H)) h" and "version new = version cur"
  shows "\<not> ManagedBySidecar cur \<and> controller_write (view h) (deleting (ba_meta cur)) cur new"
proof -
  have "flow controller_flow (later @ StatusAccess new r # h)"
    using controller_Reconcile_flow [of Ec req ob w] assms(2) by simp
  note f = write_split [OF this]
  obtain a0 a where a0: "saw got_access ((=) a0) (view h)" "\<not> ManagedBySidecar a0" "\<not> saw stored_status (\<lambda>_. True) (view h)"
      "deleting (ba_meta a0) \<longrightarrow> \<not> saw stored_access (\<lambda>_. True) (view h)"
    and a: "newest (view h) = Some a" "controller_write (view h) (deleting (ba_meta a0)) a new"
    using controller_flow_status [OF f(1)] by auto
  have "version a = version cur"
    using a(2) assms(4) same_version_version [of a new] by (simp add: controller_write_def)
  then have cur: "a = cur" using based_on_newest [OF assms(1,3) a(1)] by simp
  obtain c where "c \<in> set h" "seen_access c = Some a" using newest_view_seen [OF a(1)] by blast
  then have "kin a0 cur"
    using controller_seen [OF _ assms(3) history_versions [OF assms(1)] a0(1,3,4)] f(2) cur by auto
  then show ?thesis using a0(2) a(2) cur kin_manager by auto
qed

lemma controller_update_accepted:
  assumes "access_history Ec Es (cur # H)"
    and "trace (access_controller_Reconcile Ec req) (start ob w) = later @ UpdateAccess new r # h"
    and "list_all (honest (cur # H)) h" and "version new = version cur"
  shows "\<not> ManagedBySidecar cur \<and> new = (if deleting (ba_meta cur) then without_finalizer cur else with_finalizer cur)"
proof -
  have "flow controller_flow (later @ UpdateAccess new r # h)"
    using controller_Reconcile_flow [of Ec req ob w] assms(2) by simp
  note f = write_split [OF this]
  obtain k a where a: "view h = [GetAccess k (Inr a)]" "\<not> ManagedBySidecar a"
      "new = (if deleting (ba_meta a) then without_finalizer a else with_finalizer a)"
    using f(1) by (auto simp: controller_flow_def)
  have "newest (view h) = Some a" using a(1) by (simp add: seen_access_def)
  moreover have "version a = version cur" using a(3) assms(4) same_version_version [of a new] by (simp split: if_splits)
  ultimately have "a = cur" using based_on_newest [OF assms(1,3)] by simp
  then show ?thesis using a by simp
qed

lemma sidecar_accepted:
  assumes "access_history Ec Es (cur # H)" and "flow (sidecar_flow d) h" and "list_all (honest (cur # H)) h"
    and "saw got_access ((=) a0) (view h)" and "deleting (ba_meta a0) \<longrightarrow> \<not> saw stored_access (\<lambda>_. True) (view h)"
    and "newest (view h) = Some a" and "same_version a new" and "version new = version cur"
  shows "a = cur \<and> kin a0 cur"
proof -
  have cur: "a = cur"
    using based_on_newest [OF assms(1,3,6)] same_version_version [OF assms(7)] assms(8) by simp
  obtain c where "c \<in> set h" "seen_access c = Some a" using newest_view_seen [OF assms(6)] by blast
  then have "kin a0 a" using sidecar_seen [OF assms(2,3) history_versions [OF assms(1)] assms(4,5)] by blast
  then show ?thesis using cur by simp
qed

lemma sidecar_status_accepted:
  assumes "access_history Ec Es (cur # H)"
    and "trace (access_sidecar_Reconcile d Es req) (start ob w) = later @ StatusAccess new r # h"
    and "list_all (honest (cur # H)) h" and "version new = version cur"
  shows "ManagedBySidecar cur \<and> baStatus_DriverName (ba_Status cur) = di_Name d \<and> sidecar_write (deleting (ba_meta cur)) cur new"
proof -
  have "flow (sidecar_flow d) (later @ StatusAccess new r # h)"
    using sidecar_Reconcile_flow [of d Es req ob w] assms(2) by simp
  note f = write_split [OF this]
  obtain a0 a where a: "saw got_access ((=) a0) (view h)" "deleting (ba_meta a0) \<longrightarrow> \<not> saw stored_access (\<lambda>_. True) (view h)"
      "newest (view h) = Some a" "sidecar_write (deleting (ba_meta a0)) a new"
    and m: "ManagedBySidecar a0" "baStatus_DriverName (ba_Status a0) = di_Name d"
    using sidecar_flow_status [OF f(1)] by auto
  have "same_version a new" using a(4) by (simp add: sidecar_write_def)
  then have "a = cur \<and> kin a0 cur" using sidecar_accepted [OF assms(1) _ assms(3) a(1-3) _ assms(4)] f(2) by simp
  then show ?thesis using a(4) m kin_manager by auto
qed

lemma sidecar_update_accepted:
  assumes "access_history Ec Es (cur # H)"
    and "trace (access_sidecar_Reconcile d Es req) (start ob w) = later @ UpdateAccess new r # h"
    and "list_all (honest (cur # H)) h" and "version new = version cur"
  shows "ManagedBySidecar cur \<and> baStatus_DriverName (ba_Status cur) = di_Name d \<and>
    new = (if deleting (ba_meta cur) then mark_cleanup_finished cur else with_finalizer cur)"
proof -
  have "flow (sidecar_flow d) (later @ UpdateAccess new r # h)"
    using sidecar_Reconcile_flow [of d Es req ob w] assms(2) by simp
  note f = write_split [OF this]
  obtain a0 a where a: "saw got_access ((=) a0) (view h)" "deleting (ba_meta a0) \<longrightarrow> \<not> saw stored_access (\<lambda>_. True) (view h)"
      "newest (view h) = Some a" "if deleting (ba_meta a0) then new = mark_cleanup_finished a else a = a0 \<and> new = with_finalizer a"
    and m: "ManagedBySidecar a0" "baStatus_DriverName (ba_Status a0) = di_Name d"
    using sidecar_flow_update [OF f(1)] by auto
  have "same_version a new" using a(4) by (simp split: if_splits)
  then have "a = cur \<and> kin a0 cur" using sidecar_accepted [OF assms(1) _ assms(3) a(1-3) _ assms(4)] f(2) by simp
  then show ?thesis using a(4) m kin_manager by auto
qed

subsection \<open>The life of a BucketAccess\<close>

definition handed_off :: "BucketAccess \<Rightarrow> bool" where
  "handed_off a \<longleftrightarrow> baStatus_DriverName (ba_Status a) \<noteq> '''' \<and> baStatus_AuthenticationType (ba_Status a) \<noteq> '''' \<and>
     map ab_BucketClaimName (baStatus_AccessedBuckets (ba_Status a)) = map bca_BucketClaimName (baSpec_BucketClaims (ba_Spec a))"

definition untouched :: "BucketAccess \<Rightarrow> bool" where
  "untouched a \<longleftrightarrow> baStatus_DriverName (ba_Status a) = '''' \<and> baStatus_AuthenticationType (ba_Status a) = '''' \<and>
     baStatus_AccessedBuckets (ba_Status a) = [] \<and> baStatus_Parameters (ba_Status a) = []"

abbreviation cleaned_up :: "BucketAccess \<Rightarrow> bool" where
  "cleaned_up a \<equiv> ghas (Annotations (ba_meta a)) SidecarCleanupFinishedAnnotation"

text \<open>Every version is handed over as a whole or not at all, has an account only if it is handed over, is ready
  only with an account, and is marked as cleaned up only if it is deleting and was handed over.\<close>

definition lifecycle_ok :: "BucketAccess \<Rightarrow> bool" where
  "lifecycle_ok a \<longleftrightarrow> baSpec_BucketClaims (ba_Spec a) \<noteq> [] \<and> (untouched a \<or> handed_off a) \<and>
     (baStatus_AccountID (ba_Status a) \<noteq> '''' \<longrightarrow> handed_off a) \<and>
     (baStatus_ReadyToUse (ba_Status a) = Some True \<longrightarrow> baStatus_AccountID (ba_Status a) \<noteq> '''') \<and>
     (cleaned_up a \<longrightarrow> deleting (ba_meta a) \<and> handed_off a)"

text \<open>The abstract life: how far the access has come, and how far its deletion.\<close>

datatype stage = Requested | HandedOver | Granted

datatype ending = Live | Deleting | CleanedUp

definition phase :: "BucketAccess \<Rightarrow> stage \<times> ending" where
  "phase a =
     (if baStatus_AccountID (ba_Status a) \<noteq> '''' then Granted
      else if baStatus_DriverName (ba_Status a) \<noteq> '''' then HandedOver else Requested,
      if \<not> deleting (ba_meta a) then Live else if cleaned_up a then CleanedUp else Deleting)"

inductive phase_step :: "stage \<times> ending \<Rightarrow> stage \<times> ending \<Rightarrow> bool" where
  stay: "phase_step p p"
| hand_over: "phase_step (Requested, Live) (HandedOver, Live)"
| grant: "phase_step (HandedOver, Live) (Granted, Live)"
| request_deletion: "phase_step (s, Live) (s, Deleting)"
| clean_up: "s \<noteq> Requested \<Longrightarrow> phase_step (s, Deleting) (s, CleanedUp)"

text \<open>One version and the next.\<close>

definition next_version :: "BucketAccess \<Rightarrow> BucketAccess \<Rightarrow> bool" where
  "next_version a a' \<longleftrightarrow> ba_Spec a' = ba_Spec a \<and> UID (ba_meta a') = UID (ba_meta a) \<and> lifecycle_ok a' \<and>
     phase_step (phase a) (phase a') \<and> (handed_off a \<longrightarrow> same_handoff (ba_Status a) (ba_Status a'))"

lemma stored_meta [simp]:
  "deleting (ba_meta (status_stored a x v)) = deleting (ba_meta a)" "cleaned_up (status_stored a x v) = cleaned_up a"
  "deleting (ba_meta (update_stored a x v)) = deleting (ba_meta a)" "cleaned_up (update_stored a x v) = cleaned_up x"
  "ba_Status (status_stored a x v) = ba_Status x" "ba_Status (update_stored a x v) = ba_Status a"
  "ba_Spec (status_stored a x v) = ba_Spec a" "ba_Spec (update_stored a x v) = ba_Spec x"
  "UID (ba_meta (status_stored a x v)) = UID (ba_meta a)" "UID (ba_meta (update_stored a x v)) = UID (ba_meta a)"
  by (simp_all add: status_stored_def update_stored_def deleting_def)

lemma finalizer_changes [simp]:
  "cleaned_up (with_finalizer a) = cleaned_up a" "cleaned_up (without_finalizer a) = cleaned_up a"
  "cleaned_up (mark_cleanup_finished a)" "ba_Spec (mark_cleanup_finished a) = ba_Spec a"
  "ba_Spec (with_finalizer a) = ba_Spec a" "ba_Spec (without_finalizer a) = ba_Spec a"
  by (simp_all add: with_finalizer_def without_finalizer_def mark_cleanup_finished_def AddFinalizer_def RemoveFinalizer_def)

lemma got_access_class_call: "got_access_class_at key c = Some cls \<Longrightarrow> c = GetAccessClass key (Inr cls)"
  by (cases c) (auto simp: got_access_class_at_def good_def split: if_splits sum.splits)

lemma hands_over_class:
  assumes "hands_over V a x" and "\<And>k cls. GetAccessClass k (Inr cls) \<in> set V \<Longrightarrow> well_formed_class cls"
  shows "baStatus_DriverName (ba_Status x) \<noteq> '''' \<and> baStatus_AuthenticationType (ba_Status x) \<noteq> ''''"
proof -
  obtain cls where "saw (got_access_class_at (global (baSpec_BucketAccessClassName (ba_Spec a)))) ((=) cls) V"
    and s: "baStatus_DriverName (ba_Status x) = baclSpec_DriverName (bacl_Spec cls)"
      "baStatus_AuthenticationType (ba_Status x) = baclSpec_AuthenticationType (bacl_Spec cls)"
    using assms(1) saw_obtain by (fastforce simp: hands_over_def)
  then have "well_formed_class cls" using assms(2) by (auto simp: saw_iff dest!: got_access_class_call)
  then show ?thesis using s by (simp add: well_formed_class_def)
qed

lemma controller_status_next:
  assumes "lifecycle_ok a" and "controller_write V (deleting (ba_meta a)) a x"
    and "\<And>k cls. GetAccessClass k (Inr cls) \<in> set V \<Longrightarrow> well_formed_class cls"
  shows "next_version a (status_stored a x v)"
proof (cases "same_handoff (ba_Status a) (ba_Status x)")
  case True
  then show ?thesis using assms(1,2)
    by (auto simp: next_version_def controller_write_def lifecycle_ok_def handed_off_def untouched_def same_handoff_def phase_def
        intro: stay)
next
  case False
  then have l: "\<not> deleting (ba_meta a)" and h: "hands_over V a x" using assms(2) by (auto simp: controller_write_def)
  then have u: "untouched a" "baStatus_AccountID (ba_Status a) = ''''"
    using assms(1) by (auto simp: lifecycle_ok_def handed_off_def hands_over_def)
  have "handed_off (status_stored a x v)"
    using h hands_over_class [OF h assms(3)] by (simp add: handed_off_def hands_over_def)
  then show ?thesis using assms(1,2) u l hand_over
    by (auto simp: next_version_def controller_write_def lifecycle_ok_def handed_off_def untouched_def phase_def)
qed

lemma sidecar_status_next:
  assumes "lifecycle_ok a" and "ManagedBySidecar a" and "sidecar_write (deleting (ba_meta a)) a x"
  shows "next_version a (status_stored a x v)"
proof -
  have h: "handed_off a" using assms(1,2) by (auto simp: lifecycle_ok_def untouched_def ManagedBySidecar_iff)
  have s: "same_handoff (ba_Status a) (ba_Status x)" using assms(3) by (simp add: sidecar_write_def)
  have "phase_step (phase a) (phase (status_stored a x v))"
    using assms h s by (auto simp: phase_def sidecar_write_def handed_off_def same_handoff_def lifecycle_ok_def intro: phase_step.intros)
  then show ?thesis using assms h s
    by (auto simp: next_version_def sidecar_write_def lifecycle_ok_def handed_off_def same_handoff_def)
qed

lemma update_next:
  assumes "lifecycle_ok a" and "ba_Spec x = ba_Spec a"
    and "cleaned_up x \<noteq> cleaned_up a \<Longrightarrow> deleting (ba_meta a) \<and> ManagedBySidecar a"
  shows "next_version a (update_stored a x v)"
proof -
  have m: "handed_off a \<and> \<not> cleaned_up a" if "deleting (ba_meta a)" "ManagedBySidecar a"
    using assms(1) that by (auto simp: lifecycle_ok_def untouched_def ManagedBySidecar_iff)
  have h: "handed_off (update_stored a x v) = handed_off a" "untouched (update_stored a x v) = untouched a"
    using assms(2) by (simp_all add: handed_off_def untouched_def)
  have d: "deleting (ba_meta a) \<and> handed_off a" if "cleaned_up x"
    using that assms(1) assms(3) m by (cases "cleaned_up a") (simp_all add: lifecycle_ok_def)
  have p: "phase_step (phase a) (phase (update_stored a x v))"
  proof (cases "cleaned_up x = cleaned_up a")
    case True
    then have "phase (update_stored a x v) = phase a" by (simp add: phase_def)
    then show ?thesis by (simp add: stay)
  next
    case False
    then have "deleting (ba_meta a)" "handed_off a" "\<not> cleaned_up a" "cleaned_up x" using assms(3) m by auto
    then show ?thesis by (simp add: phase_def handed_off_def clean_up)
  qed
  show ?thesis using assms(1,2) h d p by (simp add: next_version_def lifecycle_ok_def same_handoff_def)
qed

lemma client_next:
  assumes "lifecycle_ok a" and "client_change a x"
  shows "next_version a x"
  using assms by (auto simp: next_version_def client_change_def lifecycle_ok_def handed_off_def untouched_def same_handoff_def
      phase_def intro: stay request_deletion)

lemma new_access_ok: "new_access a \<Longrightarrow> lifecycle_ok a \<and> phase a = (Requested, Live)"
  by (simp add: new_access_def lifecycle_ok_def untouched_def phase_def)

lemma honest_classes:
  "list_all (honest H) h \<Longrightarrow> GetAccessClass k (Inr cls) \<in> set (view h) \<Longrightarrow> well_formed_class cls"
  using view_subset [of h] by (fastforce simp: list_all_iff)

text \<open>Each version of a history follows from the one before.\<close>

lemma history_next:
  "access_history Ec Es H \<Longrightarrow> H \<noteq> [] \<and> lifecycle_ok (hd H) \<and> successively (\<lambda>x y. next_version y x) H \<and> new_access (last H)"
proof (induction rule: access_history.induct)
  case (created a)
  then show ?case using new_access_ok by simp
next
  case (controller_status cur H req ob w later new r h v)
  have "next_version cur (status_stored cur new v)"
    using controller_status_next [of cur "view h" new v] controller_status(6) controller_status_accepted [OF controller_status(1-4)]
      honest_classes [OF controller_status(3)] by simp
  then show ?case using controller_status by (simp add: next_version_def)
next
  case (controller_update cur H req ob w later new r h v)
  have "next_version cur (update_stored cur new v)"
    by (rule update_next) (use controller_update controller_update_accepted [OF controller_update(1-4)] in \<open>auto split: if_splits\<close>)
  then show ?case using controller_update by (simp add: next_version_def)
next
  case (sidecar_status cur H d req ob w' later new r h v)
  have "next_version cur (status_stored cur new v)"
    by (rule sidecar_status_next) (use sidecar_status sidecar_status_accepted [OF sidecar_status(1-4)] in auto)
  then show ?case using sidecar_status by (simp add: next_version_def)
next
  case (sidecar_update cur H d req ob w' later new r h v)
  have "next_version cur (update_stored cur new v)"
    by (rule update_next) (use sidecar_update sidecar_update_accepted [OF sidecar_update(1-4)] in \<open>auto split: if_splits\<close>)
  then show ?case using sidecar_update by (simp add: next_version_def)
next
  case (client cur H new)
  then show ?case using client_next [of cur new] by (simp add: next_version_def)
qed

lemma history_phases:
  assumes "access_history Ec Es H"
  shows "successively (\<lambda>a' a. phase_step (phase a) (phase a')) H" and "H \<noteq> []" and "phase (last H) = (Requested, Live)"
proof -
  have n: "successively (\<lambda>x y. next_version y x) H" "H \<noteq> []" "new_access (last H)" using history_next [OF assms] by auto
  show "successively (\<lambda>a' a. phase_step (phase a) (phase a')) H" by (rule successively_mono [OF n(1)]) (simp add: next_version_def)
  show "H \<noteq> []" "phase (last H) = (Requested, Live)" using n(2,3) new_access_ok by auto
qed

interpretation access_life: version_history "access_history Ec Es" phase phase_step "(Requested, Live)"
  by unfold_locales (simp_all add: history_phases)

text \<open>What does not change: the spec, the identity and, once it is handed over, what was handed over.\<close>

definition kept :: "BucketAccess \<Rightarrow> BucketAccess \<Rightarrow> bool" where
  "kept a a' \<longleftrightarrow> ba_Spec a' = ba_Spec a \<and> UID (ba_meta a') = UID (ba_meta a) \<and>
     (handed_off a \<longrightarrow> handed_off a' \<and> same_handoff (ba_Status a) (ba_Status a'))"

lemma kept_trans: "kept\<^sup>*\<^sup>* a b \<Longrightarrow> kept a b"
  by (induction rule: rtranclp_induct) (auto simp: kept_def same_handoff_def)

lemma next_kept: "next_version a a' \<Longrightarrow> kept a a'"
  by (auto simp: next_version_def kept_def handed_off_def same_handoff_def)

interpretation access_identity: version_history "\<lambda>H. access_history Ec Es H \<and> last H = a" id kept a
proof unfold_locales
  fix H assume "access_history Ec Es H \<and> last H = a"
  then have "successively (\<lambda>x y. next_version y x) H" "H \<noteq> []" "last H = a" using history_next by auto
  then show "H \<noteq> [] \<and> id (last H) = a" and "successively (\<lambda>x y. kept (id y) (id x)) H"
    by (auto elim: successively_mono intro: next_kept)
qed


subsection \<open>A sample life\<close>

text \<open>A cluster in which the world of a run is the version it reads: one claim, bound to a ready Bucket, its class,
  no Secrets, and a driver that grants one Azure bucket.\<close>

definition life_claim :: BucketClaim where
  "life_claim =
     \<lparr>bc_meta = sample_meta ''ns'' ''c'',
      bc_Spec = \<lparr>bcSpec_BucketClassName = ''class'', bcSpec_Protocols = [ObjectProtocolAzure], bcSpec_ExistingBucketName = ''''\<rparr>,
      bc_Status = \<lparr>bcStatus_BoundBucketName = ''bc-1'', bcStatus_ReadyToUse = Some True,
        bcStatus_Protocols = [ObjectProtocolAzure], bcStatus_Error = None\<rparr>\<rparr>"

definition life_bucket :: Bucket where
  "life_bucket = sample_bucket\<lparr>b_Status := (b_Status sample_bucket)\<lparr>bStatus_BucketID := ''bkt'', bStatus_ReadyToUse := Some True,
     bStatus_Protocols := [ObjectProtocolAzure]\<rparr>\<rparr>"

definition life_class :: BucketAccessClass where
  "life_class =
     \<lparr>bacl_meta = sample_meta '''' ''class'',
      bacl_Spec = \<lparr>baclSpec_DriverName = ''driver'', baclSpec_AuthenticationType = BucketAccessAuthenticationTypeKey,
        baclSpec_Parameters = [], baclSpec_DisallowedBucketAccessModes = [], baclSpec_MultiBucketAccess = MultiBucketAccessSingleBucket\<rparr>\<rparr>"

definition bumped :: "BucketAccess \<Rightarrow> BucketAccess" where
  "bumped a = a\<lparr>ba_meta := (ba_meta a)\<lparr>ResourceVersion := Suc (version a)\<rparr>\<rparr>"

definition life_env :: "BucketAccess env" where
  "life_env =
     \<lparr>e_GetClaim = (\<lambda>_ w. (Inr life_claim, w)), e_GetBucket = (\<lambda>_ w. (Inr life_bucket, w)),
      e_GetClass = (\<lambda>_ w. (Inl (StatusError ReasonNotFound ''not found''), w)),
      e_GetAccess = (\<lambda>_ w. (Inr w, w)), e_GetAccessClass = (\<lambda>_ w. (Inr life_class, w)),
      e_GetSecret = (\<lambda>_ w. (Inl (StatusError ReasonNotFound ''not found''), w)),
      e_UpdateClaim = (\<lambda>x w. (Inr x, w)), e_UpdateBucket = (\<lambda>x w. (Inr x, w)), e_UpdateAccess = (\<lambda>x w. (Inr (bumped x), w)),
      e_UpdateSecret = (\<lambda>x w. (Inr x, w)), e_StatusClaim = (\<lambda>x w. (Inr x, w)), e_StatusBucket = (\<lambda>x w. (Inr x, w)),
      e_StatusAccess = (\<lambda>x w. (Inr (bumped x), w)), e_CreateBucket = (\<lambda>x w. (Inr x, w)), e_CreateSecret = (\<lambda>x w. (Inr x, w)),
      e_DeleteBucket = (\<lambda>_ w. (Inr (), w)), e_DeleteSecret = (\<lambda>_ w. (Inr (), w)), e_ListAccesses = (\<lambda>_ w. (Inr [w], w)),
      e_DriverCreateBucket = (\<lambda>_ w. (Inl (RpcError codes_NotFound ''''), w)),
      e_DriverGetExistingBucket = (\<lambda>_ w. (Inl (RpcError codes_NotFound ''''), w)),
      e_DriverGrantBucketAccess = (\<lambda>_ w. (Inr sample_grant, w)),
      e_DriverRevokeBucketAccess = (\<lambda>_ w. (Inr (), w)),
      e_Now = (\<lambda>w. (1, w)), e_Order = (\<lambda>w. (\<lambda>_. 0, w)), e_ProtoOrder = (\<lambda>w. (\<lambda>_. 0, w))\<rparr>"

definition life_req :: NamespacedName where
  "life_req = \<lparr>nn_Namespace = ''ns'', nn_Name = ''a''\<rparr>"

definition controller_run :: "BucketAccess \<Rightarrow> call list" where
  "controller_run a = trace (access_controller_Reconcile life_env life_req) (start a a)"

definition sidecar_run :: "BucketAccess \<Rightarrow> call list" where
  "sidecar_run a = trace (access_sidecar_Reconcile sample_driver life_env life_req) (start a a)"

definition written :: "call \<Rightarrow> BucketAccess" where
  "written c = (case c of StatusAccess x _ \<Rightarrow> x | UpdateAccess x _ \<Rightarrow> x | _ \<Rightarrow> access_requested)"

text \<open>The write at a position of a run, with the calls before it, is one the server accepts.\<close>

definition accepted :: "BucketAccess list \<Rightarrow> call list \<Rightarrow> nat \<Rightarrow> bool" where
  "accepted H t i \<longleftrightarrow> i < length t \<and> H \<noteq> [] \<and> version (written (t ! i)) = version (hd H) \<and> list_all (honest H) (drop (Suc i) t)"

definition is_status :: "call \<Rightarrow> bool" where
  "is_status c = (case c of StatusAccess _ _ \<Rightarrow> True | _ \<Rightarrow> False)"

definition is_update :: "call \<Rightarrow> bool" where
  "is_update c = (case c of UpdateAccess _ _ \<Rightarrow> True | _ \<Rightarrow> False)"

lemma is_writeD:
  "is_status c \<Longrightarrow> \<exists>r. c = StatusAccess (written c) r" "is_update c \<Longrightarrow> \<exists>r. c = UpdateAccess (written c) r"
  by (cases c; simp add: is_status_def is_update_def written_def)+


lemma accepted_split:
  assumes "accepted H t i"
  shows "is_status (t ! i) \<Longrightarrow> \<exists>later r h. t = later @ StatusAccess (written (t ! i)) r # h \<and> list_all (honest H) h"
    and "is_update (t ! i) \<Longrightarrow> \<exists>later r h. t = later @ UpdateAccess (written (t ! i)) r # h \<and> list_all (honest H) h"
proof -
  have t: "t = take i t @ t ! i # drop (Suc i) t" "list_all (honest H) (drop (Suc i) t)"
    using assms by (simp_all add: accepted_def id_take_nth_drop)
  show "is_status (t ! i) \<Longrightarrow> \<exists>later r h. t = later @ StatusAccess (written (t ! i)) r # h \<and> list_all (honest H) h"
    "is_update (t ! i) \<Longrightarrow> \<exists>later r h. t = later @ UpdateAccess (written (t ! i)) r # h \<and> list_all (honest H) h"
    using t is_writeD [of "t ! i"] by metis+
qed


definition life_next :: "BucketAccess list \<Rightarrow> call list \<Rightarrow> nat \<Rightarrow> BucketAccess \<Rightarrow> bool" where
  "life_next H t i a \<longleftrightarrow> accepted H t i \<and>
     (is_status (t ! i) \<and> a = status_stored (hd H) (written (t ! i)) (Suc (version (hd H))) \<or>
      is_update (t ! i) \<and> a = update_stored (hd H) (written (t ! i)) (Suc (version (hd H))))"

lemma life_step:
  assumes "access_history life_env life_env (cur # H)" and "life_next (cur # H) t i a" and "t \<in> {controller_run b, sidecar_run b}"
  shows "access_history life_env life_env (a # cur # H)"
proof -
  have acc: "accepted (cur # H) t i" and v: "version (written (t ! i)) = version cur" "version cur < Suc (version cur)"
    using assms(2) by (simp_all add: life_next_def accepted_def)
  consider (status) "is_status (t ! i)" "a = status_stored cur (written (t ! i)) (Suc (version cur))"
    | (update) "is_update (t ! i)" "a = update_stored cur (written (t ! i)) (Suc (version cur))"
    using assms(2) by (auto simp: life_next_def)
  then show ?thesis
  proof cases
    case status
    obtain later r h where w: "t = later @ StatusAccess (written (t ! i)) r # h" "list_all (honest (cur # H)) h"
      using accepted_split(1) [OF acc status(1)] by blast
    show ?thesis using assms(3) w(1) status(2) access_history.controller_status [OF assms(1) _ w(2) v]
        access_history.sidecar_status [OF assms(1) _ w(2) v] by (auto simp: controller_run_def sidecar_run_def)
  next
    case update
    obtain later r h where w: "t = later @ UpdateAccess (written (t ! i)) r # h" "list_all (honest (cur # H)) h"
      using accepted_split(2) [OF acc update(1)] by blast
    show ?thesis using assms(3) w(1) update(2) access_history.controller_update [OF assms(1) _ w(2) v]
        access_history.sidecar_update [OF assms(1) _ w(2) v] by (auto simp: controller_run_def sidecar_run_def)
  qed
qed

text \<open>The versions: requested, handed over, granted, deleting (requested and then announced in the status), cleaned
  up, and released.\<close>

definition life1 :: BucketAccess where
  "life1 =
     \<lparr>ba_meta = \<lparr>Name = ''a'', Namespace = ''ns'', UID = ''u1'', ResourceVersion = 1, Generation = 1, DeletionTimestamp = None,
        Finalizers = [ProtectionFinalizer], Annotations = [], OwnerReferences = []\<rparr>,
      ba_Spec = \<lparr>baSpec_BucketClaims = [\<lparr>bca_BucketClaimName = ''c'', bca_AccessMode = ''ReadWrite'', bca_AccessSecretName = ''s''\<rparr>],
        baSpec_BucketAccessClassName = ''class'', baSpec_Protocol = ObjectProtocolAzure, baSpec_ServiceAccountName = ''''\<rparr>,
      ba_Status = \<lparr>baStatus_ReadyToUse = None, baStatus_AccountID = '''', baStatus_AccessedBuckets = [], baStatus_DriverName = '''',
        baStatus_AuthenticationType = '''', baStatus_Parameters = [], baStatus_Error = None\<rparr>\<rparr>"

definition life2 :: BucketAccess where
  "life2 = life1\<lparr>ba_meta := (ba_meta life1)\<lparr>ResourceVersion := 2\<rparr>,
     ba_Status := \<lparr>baStatus_ReadyToUse = Some False, baStatus_AccountID = '''',
       baStatus_AccessedBuckets = [\<lparr>ab_BucketName = ''bc-1'', ab_BucketID = ''bkt'', ab_BucketClaimName = ''c''\<rparr>],
       baStatus_DriverName = ''driver'', baStatus_AuthenticationType = BucketAccessAuthenticationTypeKey, baStatus_Parameters = [],
       baStatus_Error = None\<rparr>\<rparr>"

definition life3 :: BucketAccess where
  "life3 = life2\<lparr>ba_meta := (ba_meta life2)\<lparr>ResourceVersion := 3\<rparr>,
     ba_Status := (ba_Status life2)\<lparr>baStatus_ReadyToUse := Some True, baStatus_AccountID := ''acct''\<rparr>\<rparr>"

definition life4 :: BucketAccess where
  "life4 = life3\<lparr>ba_meta := (ba_meta life3)\<lparr>DeletionTimestamp := Some 9, ResourceVersion := 4\<rparr>\<rparr>"

definition life5 :: BucketAccess where
  "life5 = life4\<lparr>ba_meta := (ba_meta life4)\<lparr>ResourceVersion := 5\<rparr>,
     ba_Status := (ba_Status life4)\<lparr>baStatus_ReadyToUse := Some False\<rparr>\<rparr>"

definition life6 :: BucketAccess where
  "life6 = life5\<lparr>ba_meta := (ba_meta life5)\<lparr>Annotations := [(SidecarCleanupFinishedAnnotation, '''')], ResourceVersion := 6\<rparr>\<rparr>"

definition life7 :: BucketAccess where
  "life7 = life6\<lparr>ba_meta := (ba_meta life6)\<lparr>Finalizers := [], ResourceVersion := 7\<rparr>\<rparr>"

lemma life1_new: "new_access life1"
  by code_simp

lemma life2_next: "life_next [life1] (controller_run life1) 0 life2"
  by code_simp

lemma life3_next: "life_next [life2, life1] (sidecar_run life2) 0 life3"
  by code_simp

lemma life4_next: "client_change life3 life4 \<and> version life3 < version life4"
  by code_simp

lemma life5_next: "life_next [life4, life3, life2, life1] (sidecar_run life4) 3 life5"
  by code_simp

lemma life6_next: "life_next [life5, life4, life3, life2, life1] (sidecar_run life4) 0 life6"
  by code_simp

lemma life7_next: "life_next [life6, life5, life4, life3, life2, life1] (controller_run life6) 0 life7"
  by code_simp

definition life :: "BucketAccess list" where
  "life = [life7, life6, life5, life4, life3, life2, life1]"

lemma life_history: "access_history life_env life_env life"
proof -
  have "access_history life_env life_env [life1]" by (rule access_history.created [OF life1_new])
  from life_step [OF this life2_next] have "access_history life_env life_env [life2, life1]" by blast
  from life_step [OF this life3_next] have "access_history life_env life_env [life3, life2, life1]" by blast
  from access_history.client [OF this] have "access_history life_env life_env [life4, life3, life2, life1]"
    using life4_next by simp
  from life_step [OF this life5_next] have "access_history life_env life_env [life5, life4, life3, life2, life1]" by blast
  from life_step [OF this life6_next] have "access_history life_env life_env [life6, life5, life4, life3, life2, life1]" by blast
  from life_step [OF this life7_next] show ?thesis unfolding life_def by blast
qed

lemma life_phases:
  "map phase life = [(Granted, CleanedUp), (Granted, CleanedUp), (Granted, Deleting), (Granted, Deleting),
     (Granted, Live), (HandedOver, Live), (Requested, Live)]"
  by code_simp

lemma history_ok:
  assumes "access_history Ec Es H"
  shows "list_all lifecycle_ok H"
proof -
  have "successively (\<lambda>x y. next_version y x) H" and "new_access (last H)" using history_next [OF assms] by auto
  then show ?thesis
  proof (induction H)
    case (Cons x H)
    then show ?case by (cases H) (auto simp: next_version_def new_access_ok)
  qed simp
qed

text \<open>The immutability rules of the status: a version that was not handed over has nothing the rules protect, and
  the others keep what was handed over.\<close>

lemma next_version_rules:
  assumes "lifecycle_ok a" and "next_version a a'"
  shows "BucketAccessStatus_rules (ba_Status a) (ba_Status a') \<longleftrightarrow>
    baStatus_AccountID (ba_Status a) \<in> {'''', baStatus_AccountID (ba_Status a')}"
proof -
  have "untouched a \<or> same_handoff (ba_Status a) (ba_Status a')"
    using assms unfolding lifecycle_ok_def next_version_def by metis
  then show ?thesis
    by (elim disjE; simp add: BucketAccessStatus_rules_def immutable_once_set_def untouched_def same_handoff_def) metis+
qed

subsection \<open>Properties\<close>

text \<open>C4. Optimistic concurrency and the handoff keep the two programs apart: with stale reads, lost
  answers and any interleaving, a write of the Controller that the API server accepts changes a version that is not the
  Sidecar's, and a write of a Sidecar changes one that is the Sidecar's and names its driver.\<close>

theorem accepted_writes_by_manager:
  assumes "access_history Ec Es (cur # H)" and "list_all (honest (cur # H)) h"
    and "c \<in> {StatusAccess new r, UpdateAccess new r}" and "version new = version cur"
  shows "(trace (access_controller_Reconcile Ec req) (start ob w) = later @ c # h \<longrightarrow> \<not> ManagedBySidecar cur) \<and>
    (trace (access_sidecar_Reconcile d Es req) (start ob w') = later @ c # h \<longrightarrow>
       ManagedBySidecar cur \<and> baStatus_DriverName (ba_Status cur) = di_Name d)"
  using assms controller_status_accepted [OF assms(1) _ assms(2,4)] controller_update_accepted [OF assms(1) _ assms(2,4)]
    sidecar_status_accepted [OF assms(1) _ assms(2,4)] sidecar_update_accepted [OF assms(1) _ assms(2,4)]
  by auto

lemma life2_write: "is_status (sidecar_run life2 ! 0) \<and> accepted [life2, life1] (sidecar_run life2) 0"
  by code_simp

theorem accepted_writes_by_manager_witness:
  "\<exists>later new r h. sidecar_run life2 = later @ StatusAccess new r # h \<and> version new = version life2 \<and>
     ManagedBySidecar life2 \<and> baStatus_DriverName (ba_Status life2) = di_Name sample_driver"
proof -
  let ?new = "written (sidecar_run life2 ! 0)"
  have h: "access_history life_env life_env [life2, life1]"
    using life_step [OF access_history.created [OF life1_new] life2_next] by blast
  have v: "version ?new = version life2" using life2_write by (simp add: accepted_def)
  obtain later r h where w: "sidecar_run life2 = later @ StatusAccess ?new r # h" "list_all (honest [life2, life1]) h"
    using accepted_split(1) life2_write by blast
  have "ManagedBySidecar life2 \<and> baStatus_DriverName (ba_Status life2) = di_Name sample_driver"
    using accepted_writes_by_manager [OF h w(2) _ v, of "StatusAccess ?new r" r life_req life2 life2 later sample_driver life2] w(1)
    by (simp add: sidecar_run_def)
  then show ?thesis using w(1) v by blast
qed

text \<open>C3. Every version of a BucketAccess that the API server ever stores is well-formed: it is handed over as a
  whole or not at all, has an account only if it is handed over, is ready only with an account, and is
  marked as cleaned up only if it is deleting and was handed over.\<close>

theorem lifecycle_invariant:
  assumes "access_history Ec Es H" and "a \<in> set H"
  shows "lifecycle_ok a"
  using history_ok [OF assms(1)] assms(2) by (simp add: list_all_iff)

theorem lifecycle_invariant_witness: "list_all lifecycle_ok life"
  using lifecycle_invariant [OF life_history] by (auto simp: list_all_iff)

text \<open>C2. The stored versions refine the abstract life: the first is requested and live, and each later one is
  one abstract step after the version before it, so an access is handed over and granted only while it
  is live, in this order, and cleaned up only after its deletion was requested and if it was handed over.\<close>

theorem lifecycle_refines:
  assumes "access_history Ec Es H"
  shows "phase (last H) = (Requested, Live) \<and> successively (\<lambda>a' a. phase_step (phase a) (phase a')) H"
  using history_phases [OF assms] by simp

theorem lifecycle_refines_witness:
  "map phase life = [(Granted, CleanedUp), (Granted, CleanedUp), (Granted, Deleting), (Granted, Deleting),
     (Granted, Live), (HandedOver, Live), (Requested, Live)] \<and>
   successively (\<lambda>a' a. phase_step (phase a) (phase a')) life"
  using lifecycle_refines [OF life_history] life_phases by simp

text \<open>C12. The abstract life only goes forward, and what was handed over stays: from any version to any later
  one, the spec and the identity are the same, the phase is reached by abstract steps, and if the
  earlier one was handed over, so is the later one, to the same driver, with the same Buckets,
  authentication type and parameters.\<close>

theorem handover_is_permanent:
  assumes "access_history Ec Es (newer @ a' # older)" and "a \<in> set older"
  shows "phase_step\<^sup>*\<^sup>* (phase a) (phase a') \<and> kept a a'"
proof -
  have "kept\<^sup>*\<^sup>* (id a) (id a')"
    by (rule access_identity.later_reaches [of Ec Es newer a' older "last (newer @ a' # older)"]) (use assms in auto)
  then have "kept a a'" using kept_trans by simp
  then show ?thesis using access_life.later_reaches [OF assms(1), of a] assms(2) by simp
qed

lemma life2_handed_off: "handed_off life2"
  by code_simp

theorem handover_is_permanent_witness: "kept life2 life7 \<and> handed_off life2"
  using handover_is_permanent [of life_env life_env "[]" life7 "[life6, life5, life4, life3, life2, life1]" life2] life_history
    life2_handed_off by (simp add: life_def)

text \<open>C13. The statuses the programs write obey the immutability rules of the API type, but for the account: of two
  versions that follow each other, the rules accept the second exactly if the first has no account or
  the second has the same. Once set, neither driver, Buckets, authentication type nor parameters are written anew.\<close>

theorem status_writes_obey_rules:
  assumes "access_history Ec Es H"
  shows "successively (\<lambda>a' a. BucketAccessStatus_rules (ba_Status a) (ba_Status a') \<longleftrightarrow>
    baStatus_AccountID (ba_Status a) \<in> {'''', baStatus_AccountID (ba_Status a')}) H"
proof -
  have "successively (\<lambda>x y. next_version y x) H" and "list_all lifecycle_ok H"
    using history_next [OF assms] history_ok [OF assms] by auto
  then show ?thesis by (induction H rule: induct_list012) (simp_all add: next_version_rules)
qed

lemma successively_meet:
  "successively P xs \<Longrightarrow> successively Q xs \<Longrightarrow> (\<And>x y. P x y \<Longrightarrow> Q x y \<Longrightarrow> R x y) \<Longrightarrow> successively R xs"
  by (induction xs rule: induct_list012) simp_all

lemma life_accounts:
  "successively (\<lambda>a' a. baStatus_AccountID (ba_Status a) \<in> {'''', baStatus_AccountID (ba_Status a')}) life"
  by code_simp

theorem status_writes_obey_rules_witness:
  "successively (\<lambda>a' a. BucketAccessStatus_rules (ba_Status a) (ba_Status a')) life"
  by (rule successively_meet [OF status_writes_obey_rules [OF life_history] life_accounts]) simp

end
