(* ===== verification/Call_Bounds.thy ===== *)
theory Call_Bounds
  imports Access_Flow Claim_Controller Bucket_Sidecar
begin

text \<open>
  How many calls a run makes. The work queue runs a reconciler again after an error, so a run itself never
  retries: at most one RPC, and where nothing is ranged over a fixed number of calls.
\<close>

fun is_rpc :: "call \<Rightarrow> bool" where
  "is_rpc (DriverCreateBucket _ _) = True"
| "is_rpc (DriverGetExistingBucket _ _) = True"
| "is_rpc (DriverGrantBucketAccess _ _) = True"
| "is_rpc (DriverRevokeBucketAccess _ _) = True"
| "is_rpc _ = False"

definition rpcs :: "call list \<Rightarrow> nat" where
  "rpcs h = length (filter is_rpc h)"

lemma rpcs_simps [simp]: "rpcs [] = 0" "rpcs (c # h) = (if is_rpc c then Suc (rpcs h) else rpcs h)"
  by (simp_all add: rpcs_def)

lemma parts_no_rpc: "about_parts c \<Longrightarrow> \<not> is_rpc c"
  by (cases c) simp_all

lemma extends_rpcs: "extends about_parts h h' \<Longrightarrow> rpcs h' = rpcs h"
  unfolding rpcs_def by (simp add: extends_filter [of about_parts] parts_no_rpc)

lemma vc_trace:
  assumes "vc m (\<lambda>_ h _. P h) (\<lambda>_ h _. P h) [] ob"
  shows "P (trace m (start ob w))"
  using vc_run [of m "\<lambda>_ h _. P h" "\<lambda>_ h _. P h" "start ob w" "fst (m (start ob w))" "snd (m (start ob w))"] assms
  by (simp add: trace_def split: sum.splits)

lemmas vc_parts = only_parts [THEN vc_only]

lemma claim_calls: "length (trace (claim_Reconcile E req) (start ob w)) \<le> 8 \<and> rpcs (trace (claim_Reconcile E req) (start ob w)) = 0"
  unfolding claim_Reconcile_def claim_reconcile_def claim_reconcileDelete_def removeClaimFinalizer_def
    applyBucketClaimIsDeletingAnnotation_def createIntermediateBucket_def ensureStaticBucketBound_def ensure_claim_finalizer_def
    claim_bucket_def Let_def
  by (rule vc_trace, intro vc_intros) simp_all

lemma bucket_calls:
  "length (trace (bucket_sidecar_Reconcile d E req) (start ob w)) \<le> 5 \<and> rpcs (trace (bucket_sidecar_Reconcile d E req) (start ob w)) \<le> 1"
  unfolding bucket_sidecar_Reconcile_def bucket_sidecar_reconcile_def ensure_bucket_finalizer_def dynamicProvision_def
      staticProvision_def check_provisioned_def record_provisioned_def bucket_sidecar_delete_def Let_def
  by (rule vc_trace, intro vc_intros) simp_all

lemma access_controller_calls: "rpcs (trace (access_controller_Reconcile E req) (start ob w)) = 0"
  unfolding access_controller_Reconcile_def access_controller_reconcile_def access_controller_reconcileDelete_def
    access_initialize_def ensure_access_finalizer_def Let_def
  by (rule vc_trace, intro vc_intros vc_parts) (simp_all add: extends_rpcs)

lemma access_sidecar_calls: "rpcs (trace (access_sidecar_Reconcile d E req) (start ob w)) \<le> 1"
  unfolding access_sidecar_Reconcile_def access_sidecar_reconcile_def access_sidecar_reconcileDelete_def grant_access_def
    driverRevokeAccess_def ensure_access_finalizer_def Let_def
  by (rule vc_trace, intro vc_intros vc_parts) (simp_all add: extends_rpcs)

text \<open>C24. A run never retries by itself: whatever the API server and the driver answer, a reconciler of the Controller
  makes no RPC, a reconciler of the Sidecar at most one; the BucketClaim reconciler makes at most eight calls
  and the Bucket reconciler at most five.\<close>

theorem run_call_bounds:
  "rpcs (trace (claim_Reconcile E req) (start c w)) = 0 \<and> length (trace (claim_Reconcile E req) (start c w)) \<le> 8 \<and>
   rpcs (trace (access_controller_Reconcile E req) (start a w)) = 0 \<and>
   rpcs (trace (bucket_sidecar_Reconcile d E req) (start b w)) \<le> 1 \<and>
   length (trace (bucket_sidecar_Reconcile d E req) (start b w)) \<le> 5 \<and>
   rpcs (trace (access_sidecar_Reconcile d E req) (start a w)) \<le> 1"
  by (intro conjI claim_calls [THEN conjunct1] claim_calls [THEN conjunct2] bucket_calls [THEN conjunct1]
      bucket_calls [THEN conjunct2] access_controller_calls access_sidecar_calls)

end
