(* ===== verification/Entry_Points.thy ===== *)
theory Entry_Points
  imports Driver
begin

text \<open>
  The two programs from their start to the running manager: \<open>sidecar/cmd/main.go\<close> and
  \<open>controller/cmd/main.go\<close>. The command line is parsed as Go's package \<open>flag\<close> does it; the manager of
  \<open>controller-runtime\<close>, the connection and the flags of other packages are outside, and what they answer
  is an argument. A start gives the steps it took and the exit code of the process.
\<close>

subsection \<open>Flags\<close>

record Flags =
  metricsAddr :: string
  probeAddr :: string
  enableLeaderElection :: bool
  secureMetrics :: bool
  metricsCertPath :: string
  metricsCertName :: string
  metricsCertKey :: string
  enableHTTP2 :: bool

definition flag_defaults :: Flags where
  "flag_defaults = \<lparr>metricsAddr = ''0'', probeAddr = '':8081'', enableLeaderElection = False, secureMetrics = True,
     metricsCertPath = '''', metricsCertName = ''tls.crt'', metricsCertKey = ''tls.key'', enableHTTP2 = False\<rparr>"

text \<open>\<open>strconv.ParseBool\<close>.\<close>

definition ParseBool :: "string \<Rightarrow> bool option" where
  "ParseBool s =
     (if s \<in> {''1'', ''t'', ''T'', ''TRUE'', ''true'', ''True''} then Some True
      else if s \<in> {''0'', ''f'', ''F'', ''FALSE'', ''false'', ''False''} then Some False else None)"

text \<open>A defined flag: whether it may stand without a value, and how a value is stored, if it can be.\<close>

type_synonym flag = "bool \<times> (string \<Rightarrow> Flags \<Rightarrow> Flags option)"

definition StringVar :: "(string \<Rightarrow> Flags \<Rightarrow> Flags) \<Rightarrow> flag" where
  "StringVar upd = (False, \<lambda>v f. Some (upd v f))"

definition BoolVar :: "(bool \<Rightarrow> Flags \<Rightarrow> Flags) \<Rightarrow> flag" where
  "BoolVar upd = (True, \<lambda>v f. map_option (\<lambda>b. upd b f) (ParseBool v))"

definition CommandLine :: "(string \<times> flag) list" where
  "CommandLine =
     [(''metrics-bind-address'', StringVar (\<lambda>v f. f\<lparr>metricsAddr := v\<rparr>)),
      (''health-probe-bind-address'', StringVar (\<lambda>v f. f\<lparr>probeAddr := v\<rparr>)),
      (''leader-elect'', BoolVar (\<lambda>b f. f\<lparr>enableLeaderElection := b\<rparr>)),
      (''metrics-secure'', BoolVar (\<lambda>b f. f\<lparr>secureMetrics := b\<rparr>)),
      (''metrics-cert-path'', StringVar (\<lambda>v f. f\<lparr>metricsCertPath := v\<rparr>)),
      (''metrics-cert-name'', StringVar (\<lambda>v f. f\<lparr>metricsCertName := v\<rparr>)),
      (''metrics-cert-key'', StringVar (\<lambda>v f. f\<lparr>metricsCertKey := v\<rparr>)),
      (''enable-http2'', BoolVar (\<lambda>b f. f\<lparr>enableHTTP2 := b\<rparr>))]"

text \<open>The flags other packages define on the same command line (those of the logger by \<open>BindFlags\<close>): whether one may
  stand without a value, and which values it takes.\<close>

type_synonym other_flags = "string \<Rightarrow> (bool \<times> (string \<Rightarrow> bool)) option"

definition find_flag :: "other_flags \<Rightarrow> string \<Rightarrow> flag option" where
  "find_flag other name =
     (case map_of CommandLine name of
        Some fl \<Rightarrow> Some fl
      | None \<Rightarrow> map_option (\<lambda>(b, ok). (b, \<lambda>v f. if ok v then Some f else None)) (other name))"

text \<open>An argument that is not a flag ends the parsing; the name and the value of one that is. One or two dashes,
  and a value after the first equals sign that does not start the name.\<close>

datatype argument = NoFlag | Malformed | FlagArg string "string option"

definition split_value :: "string \<Rightarrow> string \<times> string option" where
  "split_value s = (let name = hd s # takeWhile (\<lambda>c. c \<noteq> CHR ''='') (tl s)
     in (name, if length name < length s then Some (drop (Suc (length name)) s) else None))"

definition parse_argument :: "string \<Rightarrow> argument" where
  "parse_argument s =
     (if length s < 2 \<or> hd s \<noteq> CHR ''-'' \<or> s = ''--'' then NoFlag
      else let name = (if hd (tl s) = CHR ''-'' then tl (tl s) else tl s)
        in if name = [] \<or> hd name = CHR ''-'' \<or> hd name = CHR ''='' then Malformed
           else (case split_value name of (n, v) \<Rightarrow> FlagArg n v))"

datatype flag_error = ErrHelp | ErrFlag

text \<open>\<open>flag.Parse\<close>.\<close>

fun parse_flags :: "other_flags \<Rightarrow> string list \<Rightarrow> Flags \<Rightarrow> flag_error + Flags" where
  "parse_flags other [] f = Inr f"
| "parse_flags other (s # args) f =
     (case parse_argument s of
        NoFlag \<Rightarrow> Inr f
      | Malformed \<Rightarrow> Inl ErrFlag
      | FlagArg name val \<Rightarrow>
          (case find_flag other name of
             None \<Rightarrow> Inl (if name \<in> {''help'', ''h''} then ErrHelp else ErrFlag)
           | Some (isBool, setv) \<Rightarrow>
               (case val of
                  Some v \<Rightarrow> (case setv v f of None \<Rightarrow> Inl ErrFlag | Some f' \<Rightarrow> parse_flags other args f')
                | None \<Rightarrow>
                    if isBool then (case setv ''true'' f of None \<Rightarrow> Inl ErrFlag | Some f' \<Rightarrow> parse_flags other args f')
                    else (case args of
                            [] \<Rightarrow> Inl ErrFlag
                          | v # args' \<Rightarrow> (case setv v f of None \<Rightarrow> Inl ErrFlag | Some f' \<Rightarrow> parse_flags other args' f')))))"

subsection \<open>Options of the manager\<close>

datatype tls_opt = disableHTTP2

datatype filter_provider = WithAuthenticationAndAuthorization

text \<open>What an option does to the protocols a TLS server offers.\<close>

fun apply_tls_opt :: "tls_opt \<Rightarrow> string list \<Rightarrow> string list" where
  "apply_tls_opt disableHTTP2 NextProtos = [''http/1.1'']"

record MetricsOptions =
  mo_BindAddress :: string
  mo_SecureServing :: bool
  mo_TLSOpts :: "tls_opt list"
  mo_FilterProvider :: "filter_provider option"
  mo_CertDir :: string
  mo_CertName :: string
  mo_KeyName :: string

definition metricsServerOptions :: "Flags \<Rightarrow> MetricsOptions" where
  "metricsServerOptions f =
     (let tlsOpts = (if \<not> enableHTTP2 f then [disableHTTP2] else []);
          o1 = \<lparr>mo_BindAddress = metricsAddr f, mo_SecureServing = secureMetrics f, mo_TLSOpts = tlsOpts,
                mo_FilterProvider = None, mo_CertDir = '''', mo_CertName = '''', mo_KeyName = ''''\<rparr>;
          o2 = (if secureMetrics f then o1\<lparr>mo_FilterProvider := Some WithAuthenticationAndAuthorization\<rparr> else o1)
      in if length (metricsCertPath f) > 0
         then o2\<lparr>mo_CertDir := metricsCertPath f, mo_CertName := metricsCertName f, mo_KeyName := metricsCertKey f\<rparr>
         else o2)"

record ManagerOptions =
  mgr_Metrics :: MetricsOptions
  mgr_HealthProbeBindAddress :: string
  mgr_LeaderElection :: bool
  mgr_LeaderElectionID :: string
  mgr_LeaderElectionReleaseOnCancel :: bool

definition manager_options :: "Flags \<Rightarrow> string \<Rightarrow> ManagerOptions" where
  "manager_options f leader =
     \<lparr>mgr_Metrics = metricsServerOptions f, mgr_HealthProbeBindAddress = probeAddr f,
      mgr_LeaderElection = enableLeaderElection f, mgr_LeaderElectionID = leader, mgr_LeaderElectionReleaseOnCancel = True\<rparr>"

subsection \<open>The start\<close>

text \<open>The steps of a start. A reconciler of the Sidecar is set up with the driver's info.\<close>

datatype startup =
    AddToScheme string
  | ConnectDriver string
  | GetConfigOrDie
  | NewManager ManagerOptions
  | SetupBucketClaimReconciler
  | SetupBucketReconciler "DriverInfo option"
  | SetupBucketAccessReconciler "DriverInfo option"
  | AddHealthzCheck
  | AddReadyzCheck
  | StartManager

record startup_env =
  su_args :: "string list"
  su_LookupEnv :: "string \<Rightarrow> string option"
  su_other_flags :: other_flags
  su_client :: "string \<Rightarrow> gerror + connectivity"
  su_states :: "string \<Rightarrow> connectivity list"
  su_DriverGetInfo :: "string \<Rightarrow> gerror + DriverGetInfoResponse"
  su_step :: "startup \<Rightarrow> gerror option"

text \<open>A step that ends the process with the given code when it fails.\<close>

definition step_or_exit :: "startup_env \<Rightarrow> nat \<Rightarrow> startup \<Rightarrow> startup list \<times> nat \<Rightarrow> startup list \<times> nat" where
  "step_or_exit E code s rest = (case su_step E s of Some _ \<Rightarrow> ([s], code) | None \<Rightarrow> (s # fst rest, snd rest))"

text \<open>\<open>init\<close> (a failure panics, exit code 2) and \<open>flag.Parse\<close> on the process's arguments.\<close>

definition init_scheme :: "startup_env \<Rightarrow> startup list \<times> nat \<Rightarrow> startup list \<times> nat" where
  "init_scheme E rest = step_or_exit E 2 (AddToScheme ''clientgo'') (step_or_exit E 2 (AddToScheme ''objectstorage'') rest)"

definition with_flags :: "startup_env \<Rightarrow> (Flags \<Rightarrow> startup list \<times> nat) \<Rightarrow> startup list \<times> nat" where
  "with_flags E k =
     (case parse_flags (su_other_flags E) (su_args E) flag_defaults of
        Inl ErrHelp \<Rightarrow> ([], 0)
      | Inl ErrFlag \<Rightarrow> ([], 2)
      | Inr f \<Rightarrow> k f)"

definition serve :: "startup_env \<Rightarrow> startup list \<times> nat" where
  "serve E = step_or_exit E 1 AddHealthzCheck (step_or_exit E 1 AddReadyzCheck (step_or_exit E 1 StartManager ([], 0)))"

definition RpcEndpointEnvVarName :: string where "RpcEndpointEnvVarName = ''COSI_ENDPOINT''"

definition RpcEndpointDefault :: string where "RpcEndpointDefault = ''unix:///var/lib/cosi/cosi.sock''"

definition rpc_endpoint :: "startup_env \<Rightarrow> string" where
  "rpc_endpoint E = (case su_LookupEnv E RpcEndpointEnvVarName of Some ep \<Rightarrow> ep | None \<Rightarrow> RpcEndpointDefault)"

definition sidecar_main :: "startup_env \<Rightarrow> startup list \<times> nat" where
  "sidecar_main E = init_scheme E (with_flags E (\<lambda>f.
     let rpcEndpoint = rpc_endpoint E in
     case connectRpcAndGetDriverInfo rpcEndpoint (su_client E rpcEndpoint) (su_states E rpcEndpoint) (su_DriverGetInfo E rpcEndpoint) of
       Inl _ \<Rightarrow> ([ConnectDriver rpcEndpoint], 1)
     | Inr driverInfo \<Rightarrow>
         (let rest =
            step_or_exit E 1 GetConfigOrDie
             (step_or_exit E 1 (NewManager (manager_options f (''cosi-sidecar-leader-'' @ di_Name driverInfo)))
              (step_or_exit E 1 (SetupBucketReconciler (Some driverInfo))
               (step_or_exit E 1 (SetupBucketAccessReconciler (Some driverInfo)) (serve E))))
          in (ConnectDriver rpcEndpoint # fst rest, snd rest))))"

definition controller_main :: "startup_env \<Rightarrow> startup list \<times> nat" where
  "controller_main E = init_scheme E (with_flags E (\<lambda>f.
     step_or_exit E 1 GetConfigOrDie
      (step_or_exit E 1 (NewManager (manager_options f ''cosi-controller-leader''))
       (step_or_exit E 1 SetupBucketClaimReconciler
        (step_or_exit E 1 (SetupBucketReconciler None)
         (step_or_exit E 1 (SetupBucketAccessReconciler None) (serve E)))))))"

subsection \<open>Lemmas\<close>

text \<open>The steps of a successful start, in order, before the manager runs.\<close>

definition scheme_steps :: "startup list" where
  "scheme_steps = [AddToScheme ''clientgo'', AddToScheme ''objectstorage'']"

definition sidecar_startup :: "string \<Rightarrow> Flags \<Rightarrow> DriverInfo \<Rightarrow> startup list" where
  "sidecar_startup ep f d = scheme_steps @ [ConnectDriver ep, GetConfigOrDie,
     NewManager (manager_options f (''cosi-sidecar-leader-'' @ di_Name d)),
     SetupBucketReconciler (Some d), SetupBucketAccessReconciler (Some d), AddHealthzCheck, AddReadyzCheck]"

definition controller_startup :: "Flags \<Rightarrow> startup list" where
  "controller_startup f = scheme_steps @ [GetConfigOrDie, NewManager (manager_options f ''cosi-controller-leader''),
     SetupBucketClaimReconciler, SetupBucketReconciler None, SetupBucketAccessReconciler None, AddHealthzCheck, AddReadyzCheck]"

definition succeeded :: "startup_env \<Rightarrow> startup \<Rightarrow> bool" where
  "succeeded E s \<longleftrightarrow> (\<exists>ep. s = ConnectDriver ep) \<or> su_step E s = None"

abbreviation sidecar_driver :: "startup_env \<Rightarrow> gerror + DriverInfo" where
  "sidecar_driver E \<equiv> connectRpcAndGetDriverInfo (rpc_endpoint E) (su_client E (rpc_endpoint E)) (su_states E (rpc_endpoint E))
     (su_DriverGetInfo E (rpc_endpoint E))"

abbreviation parsed :: "startup_env \<Rightarrow> flag_error + Flags" where
  "parsed E \<equiv> parse_flags (su_other_flags E) (su_args E) flag_defaults"

named_theorems startup_simps

lemma step_or_exit_log [startup_simps]:
  "fst (step_or_exit E code s rest) = (if su_step E s = None then s # fst rest else [s])"
  by (simp add: step_or_exit_def split: option.splits)

lemma step_or_exit_code [startup_simps]:
  "snd (step_or_exit E code s rest) = (if su_step E s = None then snd rest else code)"
  by (simp add: step_or_exit_def split: option.splits)

lemma with_flags_log [startup_simps]:
  "fst (with_flags E k) = (case parsed E of Inl _ \<Rightarrow> [] | Inr f \<Rightarrow> fst (k f))"
  by (simp add: with_flags_def split: sum.splits flag_error.splits)

lemma with_flags_code [startup_simps]:
  "parsed E = Inr f \<Longrightarrow> snd (with_flags E k) = snd (k f)"
  by (simp add: with_flags_def)

lemmas startup_defs = init_scheme_def serve_def scheme_steps_def sidecar_startup_def controller_startup_def succeeded_def

lemma connected_driver_valid:
  assumes "connectRpcAndGetDriverInfo ep client states resp = Inr d"
  shows "validateDriverName (di_Name d) = None \<and> di_SupportedProtocols d \<noteq> []"
proof -
  have "validateDriverName (di_Name d) = None \<and> (\<exists>ops. validateAndParseProtocols ops = Inr (di_SupportedProtocols d))"
    using assms by (auto simp: connectRpcAndGetDriverInfo_def ValidateAndSetDriverConnectionInfo_def
        split: if_splits sum.splits option.splits)
  then show ?thesis by (auto simp: validateAndParseProtocols_def parse_protocols_Inr split: if_splits)
qed

text \<open>A start whose steps all succeed, and one in which a step fails.\<close>

lemma controller_starts:
  assumes "parsed E = Inr f" and "list_all (succeeded E) (controller_startup f)"
  shows "fst (controller_main E) = controller_startup f @ [StartManager]"
    and "snd (controller_main E) = (if su_step E StartManager = None then 0 else 1)"
  using assms by (simp_all add: controller_main_def startup_simps startup_defs)

lemma controller_fails:
  assumes "parsed E = Inr f" and "\<not> list_all (succeeded E) (controller_startup f)"
  shows "StartManager \<notin> set (fst (controller_main E))"
  using assms by (simp add: controller_main_def startup_simps startup_defs del: not_None_eq)

lemma sidecar_starts:
  assumes "parsed E = Inr f" and "sidecar_driver E = Inr d" and "list_all (succeeded E) (sidecar_startup (rpc_endpoint E) f d)"
  shows "fst (sidecar_main E) = sidecar_startup (rpc_endpoint E) f d @ [StartManager]"
    and "snd (sidecar_main E) = (if su_step E StartManager = None then 0 else 1)"
  using assms by (simp_all add: sidecar_main_def startup_simps startup_defs Let_def)

lemma sidecar_fails:
  assumes "parsed E = Inr f" and "sidecar_driver E = Inr d" and "\<not> list_all (succeeded E) (sidecar_startup (rpc_endpoint E) f d)"
  shows "StartManager \<notin> set (fst (sidecar_main E))"
  using assms by (simp add: sidecar_main_def startup_simps startup_defs Let_def del: not_None_eq)

text \<open>The flags an argument list does not name keep their values.\<close>

lemma find_flag_bool:
  assumes "find_flag other name = Some (b, setv)" and "setv v f = Some f'"
  shows "name \<noteq> ''metrics-secure'' \<Longrightarrow> secureMetrics f' = secureMetrics f"
    and "name \<noteq> ''enable-http2'' \<Longrightarrow> enableHTTP2 f' = enableHTTP2 f"
  using assms unfolding find_flag_def CommandLine_def
  by (auto simp: StringVar_def BoolVar_def split: if_splits option.splits prod.splits)

fun argument_name :: "argument \<Rightarrow> string" where
  "argument_name (FlagArg n _) = n"
| "argument_name _ = ''''"

definition names :: "string list \<Rightarrow> string \<Rightarrow> bool" where
  "names args n \<longleftrightarrow> list_ex (\<lambda>s. argument_name (parse_argument s) = n) args"

declare parse_flags.simps(2) [simp del]

lemma parse_flags_step:
  assumes "parse_flags other (s # args) f = Inr f'"
  shows "f' = f \<or> (\<exists>b setv v f1 args'. find_flag other (argument_name (parse_argument s)) = Some (b, setv) \<and> setv v f = Some f1 \<and>
    args' \<in> {args, tl args} \<and> length args' \<le> length args \<and> parse_flags other args' f1 = Inr f')"
proof (cases "parse_argument s")
  case (FlagArg name val)
  then obtain b setv where fl: "find_flag other name = Some (b, setv)"
    using assms by (auto simp: parse_flags.simps(2) split: option.splits)
  have "\<exists>v f1 args'. setv v f = Some f1 \<and> args' \<in> {args, tl args} \<and> length args' \<le> length args \<and> parse_flags other args' f1 = Inr f'"
    using assms FlagArg fl
    by (simp add: parse_flags.simps(2) split: option.splits if_splits list.splits)
      (metis insertCI le_SucI list.sel(3) order_refl length_Cons)+
  then show ?thesis using FlagArg fl by simp
qed (use assms in \<open>simp_all add: parse_flags.simps(2)\<close>)

lemma parse_flags_keeps_field:
  assumes "parse_flags other args f = Inr f'" and "\<not> names args n"
    and "\<And>name b setv v f f'. find_flag other name = Some (b, setv) \<Longrightarrow> setv v f = Some f' \<Longrightarrow> name \<noteq> n \<Longrightarrow> g f' = g f"
  shows "g f' = g f"
  using assms(1,2)
proof (induction "length args" arbitrary: args f rule: less_induct)
  case less
  show ?case
  proof (cases args)
    case (Cons s as)
    have n: "argument_name (parse_argument s) \<noteq> n" "\<not> names as n" "\<not> names (tl as) n"
      using less.prems(2) Cons by (cases as; simp add: names_def)+
    show ?thesis
      using parse_flags_step [of other s as f f'] less.prems(1) less.hyps n assms(3) Cons
      by (metis (no_types, lifting) insertE length_Cons less_Suc_eq_le singletonD)
  qed (use less in simp)
qed

lemmas parse_flags_keeps =
  parse_flags_keeps_field [where g = secureMetrics, OF _ _ find_flag_bool(1)]
  parse_flags_keeps_field [where g = enableHTTP2, OF _ _ find_flag_bool(2)]

subsection \<open>Properties\<close>

text \<open>C32. A program starts its manager exactly when the flags parse and every step before it succeeds, and then it has taken
  these steps in one order, and its exit code is that of the manager's run. For the Sidecar the driver must moreover have been
  connected and validated before anything is asked of the cluster; both of its reconcilers serve the driver that answered, and
  the leader election is the driver's own. In all other cases the manager is never started.\<close>

theorem programs_start:
  "(case (parsed E, sidecar_driver E) of
      (Inr f, Inr d) \<Rightarrow> validateDriverName (di_Name d) = None \<and> di_SupportedProtocols d \<noteq> [] \<and>
        (if list_all (succeeded E) (sidecar_startup (rpc_endpoint E) f d)
         then sidecar_main E = (sidecar_startup (rpc_endpoint E) f d @ [StartManager], if su_step E StartManager = None then 0 else 1)
         else StartManager \<notin> set (fst (sidecar_main E)))
    | _ \<Rightarrow> StartManager \<notin> set (fst (sidecar_main E))) \<and>
   (case parsed E of
      Inr f \<Rightarrow>
        (if list_all (succeeded E) (controller_startup f)
         then controller_main E = (controller_startup f @ [StartManager], if su_step E StartManager = None then 0 else 1)
         else StartManager \<notin> set (fst (controller_main E)))
    | _ \<Rightarrow> StartManager \<notin> set (fst (controller_main E)))"
  (is "?sidecar \<and> ?controller")
proof
  show ?controller
  proof (cases "parsed E")
    case (Inr f)
    then show ?thesis using controller_starts [OF Inr] controller_fails [OF Inr] by (simp add: prod_eq_iff)
  qed (simp add: controller_main_def startup_simps startup_defs)
  show ?sidecar
  proof (cases "parsed E")
    case f: (Inr f)
    show ?thesis
    proof (cases "sidecar_driver E")
      case (Inr d)
      then show ?thesis
        using f sidecar_starts [OF f Inr] sidecar_fails [OF f Inr] connected_driver_valid [OF Inr] by (simp add: prod_eq_iff)
    qed (simp add: f sidecar_main_def startup_simps startup_defs Let_def)
  qed (simp add: sidecar_main_def startup_simps startup_defs)
qed

text \<open>A start of both programs in which every step succeeds.\<close>

definition sample_startup_env :: startup_env where
  "sample_startup_env = \<lparr>su_args = [''--leader-elect''], su_LookupEnv = (\<lambda>_. None), su_other_flags = (\<lambda>_. None),
     su_client = (\<lambda>_. Inr Idle), su_states = (\<lambda>_. [Connecting, Ready]),
     su_DriverGetInfo = (\<lambda>_. Inr \<lparr>gi_Name = ''cosi.example.com'', gi_SupportedProtocols = [\<lparr>op_Type = ObjectProtocol_S3\<rparr>]\<rparr>),
     su_step = (\<lambda>_. None)\<rparr>"

theorem programs_start_witness:
  "StartManager \<in> set (fst (sidecar_main sample_startup_env)) \<and> StartManager \<in> set (fst (controller_main sample_startup_env))"
proof -
  have f: "parsed sample_startup_env = Inr (flag_defaults\<lparr>enableLeaderElection := True\<rparr>)" by code_simp
  have d: "sidecar_driver sample_startup_env =
      Inr \<lparr>di_Name = ''cosi.example.com'', di_SupportedProtocols = [ObjectProtocol_S3]\<rparr>" by code_simp
  have all: "list_all (succeeded sample_startup_env) steps" for steps
    by (simp add: succeeded_def sample_startup_env_def list_all_iff)
  show ?thesis using programs_start [of sample_startup_env] unfolding f d by (simp add: all)
qed

text \<open>C33. Protection of the metrics endpoint is on unless it is switched off by name: when no argument names
  the flag metrics-secure, the endpoint is served by HTTPS with authentication and authorization, and when none
  names enable-http2, HTTP/2 is not offered, whatever the TLS server offered before.\<close>

theorem metrics_protected:
  assumes "parse_flags other args flag_defaults = Inr f"
  shows "(\<not> names args ''metrics-secure'' \<longrightarrow>
      mo_SecureServing (metricsServerOptions f) \<and> mo_FilterProvider (metricsServerOptions f) = Some WithAuthenticationAndAuthorization) \<and>
    (\<not> names args ''enable-http2'' \<longrightarrow> fold apply_tls_opt (mo_TLSOpts (metricsServerOptions f)) protos = [''http/1.1''])"
  using parse_flags_keeps(1) [OF assms] parse_flags_keeps(2) [OF assms] by (simp add: metricsServerOptions_def flag_defaults_def Let_def)

theorem metrics_protected_witness:
  "\<exists>f. parse_flags (\<lambda>_. None) [''-metrics-bind-address'', '':8443'', ''--metrics-cert-path=/certs'', ''--leader-elect''] flag_defaults = Inr f \<and>
     mo_CertDir (metricsServerOptions f) = ''/certs'' \<and> mo_FilterProvider (metricsServerOptions f) = Some WithAuthenticationAndAuthorization \<and>
     fold apply_tls_opt (mo_TLSOpts (metricsServerOptions f)) [''h2'', ''http/1.1''] = [''http/1.1'']"
proof -
  let ?args = "[''-metrics-bind-address'', '':8443'', ''--metrics-cert-path=/certs'', ''--leader-elect'']"
  let ?f = "flag_defaults\<lparr>metricsAddr := '':8443'', metricsCertPath := ''/certs'', enableLeaderElection := True\<rparr>"
  have p: "parse_flags (\<lambda>_. None) ?args flag_defaults = Inr ?f" by code_simp
  have n: "\<not> names ?args ''metrics-secure''" "\<not> names ?args ''enable-http2''" by code_simp+
  have c: "mo_CertDir (metricsServerOptions ?f) = ''/certs''" by code_simp
  show ?thesis using metrics_protected [OF p] p n c by blast
qed

end
