(* ===== verification/Claim_Life.thy ===== *)
theory Claim_Life
  imports Claim_Controller Bucket_Sidecar Access_Controller
begin

text \<open>
  BucketClaims and Buckets through both programs on one API server. The server is a store of objects with
  resource versions, status subresources, finalizers and deletion timestamps; the driver is a function of
  its requests. On it, runs of the Controller's BucketClaim reconciler and of the Sidecar's Bucket reconciler
  follow each other, each starting from what the one before left in the store.
\<close>

subsection \<open>The API server\<close>

record store =
  claims :: "NamespacedName \<Rightarrow> BucketClaim option"
  buckets :: "NamespacedName \<Rightarrow> Bucket option"
  classes :: "NamespacedName \<Rightarrow> BucketClass option"
  clock :: time

definition key_of :: "ObjectMeta \<Rightarrow> NamespacedName" where
  "key_of m = \<lparr>nn_Namespace = Namespace m, nn_Name = Name m\<rparr>"

definition not_found :: gerror where
  "not_found = StatusError ReasonNotFound ''not found''"

definition conflict :: gerror where
  "conflict = StatusError ReasonConflict ''the object has been modified''"

definition found :: "'o option \<Rightarrow> gerror + 'o" where
  "found r = (case r of None \<Rightarrow> Inl not_found | Some x \<Rightarrow> Inr x)"

text \<open>What the server makes of the metadata of a write: finalizers and annotations are the client's, the version
  and the deletion timestamp its own. A deleting object is gone with its last finalizer.\<close>

definition next_meta :: "ObjectMeta \<Rightarrow> ObjectMeta \<Rightarrow> ObjectMeta" where
  "next_meta cur new = cur\<lparr>Finalizers := Finalizers new, Annotations := Annotations new, ResourceVersion := Suc (ResourceVersion cur)\<rparr>"

definition bumped :: "ObjectMeta \<Rightarrow> ObjectMeta" where
  "bumped m = m\<lparr>ResourceVersion := Suc (ResourceVersion m)\<rparr>"

definition gone :: "ObjectMeta \<Rightarrow> bool" where
  "gone m \<longleftrightarrow> deleting m \<and> Finalizers m = []"

text \<open>A write goes through when it names the current version.\<close>

definition write_checked :: "'o option \<Rightarrow> ('o \<Rightarrow> ObjectMeta) \<Rightarrow> 'o \<Rightarrow> ('o \<Rightarrow> 'o) \<Rightarrow> gerror + 'o" where
  "write_checked cur meta new f =
     (case cur of
        None \<Rightarrow> Inl not_found
      | Some old \<Rightarrow> if ResourceVersion (meta old) \<noteq> ResourceVersion (meta new) then Inl conflict else Inr (f old))"

definition claim_put :: "gerror + BucketClaim \<Rightarrow> store \<Rightarrow> (gerror + BucketClaim) \<times> store" where
  "claim_put r w = (r, case r of Inl _ \<Rightarrow> w
     | Inr c \<Rightarrow> w\<lparr>claims := (claims w)(key_of (bc_meta c) := if gone (bc_meta c) then None else Some c)\<rparr>)"

definition bucket_put :: "gerror + Bucket \<Rightarrow> store \<Rightarrow> (gerror + Bucket) \<times> store" where
  "bucket_put r w = (r, case r of Inl _ \<Rightarrow> w
     | Inr b \<Rightarrow> w\<lparr>buckets := (buckets w)(key_of (b_meta b) := if gone (b_meta b) then None else Some b)\<rparr>)"

definition update_claim :: "BucketClaim \<Rightarrow> store \<Rightarrow> (gerror + BucketClaim) \<times> store" where
  "update_claim new w = claim_put (write_checked (claims w (key_of (bc_meta new))) bc_meta new
     (\<lambda>old. old\<lparr>bc_meta := next_meta (bc_meta old) (bc_meta new), bc_Spec := bc_Spec new\<rparr>)) w"

definition status_claim :: "BucketClaim \<Rightarrow> store \<Rightarrow> (gerror + BucketClaim) \<times> store" where
  "status_claim new w = claim_put (write_checked (claims w (key_of (bc_meta new))) bc_meta new
     (\<lambda>old. old\<lparr>bc_meta := bumped (bc_meta old), bc_Status := bc_Status new\<rparr>)) w"

definition update_bucket :: "Bucket \<Rightarrow> store \<Rightarrow> (gerror + Bucket) \<times> store" where
  "update_bucket new w = bucket_put (write_checked (buckets w (key_of (b_meta new))) b_meta new
     (\<lambda>old. old\<lparr>b_meta := next_meta (b_meta old) (b_meta new), b_Spec := b_Spec new\<rparr>)) w"

definition status_bucket :: "Bucket \<Rightarrow> store \<Rightarrow> (gerror + Bucket) \<times> store" where
  "status_bucket new w = bucket_put (write_checked (buckets w (key_of (b_meta new))) b_meta new
     (\<lambda>old. old\<lparr>b_meta := bumped (b_meta old), b_Status := b_Status new\<rparr>)) w"

definition create_bucket :: "Bucket \<Rightarrow> store \<Rightarrow> (gerror + Bucket) \<times> store" where
  "create_bucket b w = bucket_put
     (if buckets w (key_of (b_meta b)) \<noteq> None then Inl (StatusError ReasonAlreadyExists ''already exists'')
      else Inr (b\<lparr>b_meta := (b_meta b)\<lparr>UID := ''uid-'' @ Name (b_meta b), ResourceVersion := 1\<rparr>\<rparr>)) w"

text \<open>A deletion sets the timestamp and leaves an object with finalizers in place.\<close>

definition delete_bucket :: "Bucket \<Rightarrow> store \<Rightarrow> (gerror + unit) \<times> store" where
  "delete_bucket b w =
     (case bucket_put (case buckets w (key_of (b_meta b)) of None \<Rightarrow> Inl not_found
        | Some old \<Rightarrow> Inr (old\<lparr>b_meta := (bumped (b_meta old))\<lparr>DeletionTimestamp := Some (clock w)\<rparr>\<rparr>)) w
      of (Inl e, w') \<Rightarrow> (Inl e, w') | (Inr _, w') \<Rightarrow> (Inr (), w'))"

type_synonym create_driver = "DriverCreateBucketRequest \<Rightarrow> gerror + DriverCreateBucketResponse"

text \<open>The environment of a run: the store, a driver, and anything else for the calls these programs do not make.\<close>

definition on_store :: "store env \<Rightarrow> create_driver \<Rightarrow> (string \<Rightarrow> nat) \<Rightarrow> (ObjectProtocol_Type \<Rightarrow> nat) \<Rightarrow> store env" where
  "on_store R drv order proto_order = R\<lparr>
     e_GetClaim := (\<lambda>k w. (found (claims w k), w)), e_GetBucket := (\<lambda>k w. (found (buckets w k), w)),
     e_GetClass := (\<lambda>k w. (found (classes w k), w)), e_UpdateClaim := update_claim, e_UpdateBucket := update_bucket,
     e_StatusClaim := status_claim, e_StatusBucket := status_bucket, e_CreateBucket := create_bucket, e_DeleteBucket := delete_bucket,
     e_DriverCreateBucket := (\<lambda>q w. (drv q, w)), e_Now := (\<lambda>w. (clock w, w)), e_Order := (\<lambda>w. (order, w)),
     e_ProtoOrder := (\<lambda>w. (proto_order, w))\<rparr>"

text \<open>One run on the store: the outcome and the store after it.\<close>

definition run_on :: "((store, 'o) st, outcome) prog \<Rightarrow> 'o \<Rightarrow> store \<Rightarrow> (gerror + outcome) \<times> store" where
  "run_on m ob w = (outcome_of m (start ob w), world (snd (m (start ob w))))"

subsection \<open>Symbolic execution\<close>

text \<open>What holds after a run that starts in a given state, world included; the rules compute it.\<close>

definition wp ::
  "(('w, 'o) st, 'a) prog \<Rightarrow> ('a \<Rightarrow> ('w, 'o) st \<Rightarrow> bool) \<Rightarrow> (gerror \<Rightarrow> ('w, 'o) st \<Rightarrow> bool) \<Rightarrow> ('w, 'o) st \<Rightarrow> bool" where
  "wp m N X s = (case m s of (Inl e, s') \<Rightarrow> X e s' | (Inr x, s') \<Rightarrow> N x s')"

named_theorems wp_simps

lemma wp_ret [wp_simps]: "wp (ret x) N X s = N x s"
  by (simp add: wp_def ret_def)

lemma wp_fail [wp_simps]: "wp (fail e) N X s = X e s"
  by (simp add: wp_def fail_def)

lemma wp_upd_obj [wp_simps]: "wp (upd_obj f) N X s = N () (s\<lparr>obj := f (obj s)\<rparr>)"
  by (simp add: wp_def upd_obj_def modify_def)

lemma wp_gets [wp_simps]: "wp (gets g) N X s = N (g s) s"
  by (simp add: wp_def gets_def)

lemma wp_handle [wp_simps]: "wp (handle m g f) N X s = wp m (\<lambda>x. wp (f x) N X) (\<lambda>e. wp (g e) N X) s"
  by (auto simp: wp_def handle_def split: prod.splits sum.splits)

lemma wp_bind [wp_simps]: "wp (bind m f) N X s = wp m (\<lambda>x. wp (f x) N X) X s"
  by (auto simp: wp_def bind_def split: prod.splits sum.splits)

lemma wp_on_err [wp_simps]: "wp (on_err g m) N X s = wp m N (\<lambda>e. X (g e)) s"
  by (auto simp: wp_def on_err_def split: prod.splits sum.splits)

lemma wp_seq [wp_simps]: "wp (seq m n) N X s = wp m (\<lambda>_. wp n N X) X s"
  by (simp add: seq_def wp_bind)

lemma wp_when [wp_simps]: "wp (when_cond c m) N X s = (if c then wp m N X s else N () s)"
  by (simp add: when_cond_def wp_ret)

lemma wp_ask [wp_simps]:
  "wp (ask f mk) N X s = (case f (world s) of (r, w') \<Rightarrow>
     (case r of Inl e \<Rightarrow> X e (s\<lparr>world := w', calls := mk r # calls s\<rparr>) | Inr x \<Rightarrow> N x (s\<lparr>world := w', calls := mk r # calls s\<rparr>)))"
  by (auto simp: wp_def ask_def split: prod.splits sum.splits)

lemma wp_observe [wp_simps]: "wp (observe g) N X s = (case g (world s) of (x, w') \<Rightarrow> N x (s\<lparr>world := w'\<rparr>))"
  by (auto simp: wp_def observe_def split: prod.splits)

lemma wp_write [wp_simps]:
  "wp (write_obj f mk) N X s = (case f (obj s) (world s) of (r, w') \<Rightarrow>
     (case r of Inl e \<Rightarrow> X e (s\<lparr>world := w', calls := mk (obj s) r # calls s\<rparr>)
      | Inr x \<Rightarrow> N () (s\<lparr>world := w', calls := mk (obj s) r # calls s, obj := x\<rparr>)))"
  by (auto simp: write_obj_def wp_bind wp_gets wp_ask wp_upd_obj split: prod.splits sum.splits)

lemma wp_if [wp_simps]: "wp (if c then m else n) N X s = (if c then wp m N X s else wp n N X s)"
  by simp

lemma wp_case_sum [wp_simps]:
  "wp (case r of Inl a \<Rightarrow> m a | Inr b \<Rightarrow> n b) N X s = (case r of Inl a \<Rightarrow> wp (m a) N X s | Inr b \<Rightarrow> wp (n b) N X s)"
  by (simp split: sum.splits)

lemma wp_case_prod [wp_simps]: "wp (case p of (a, b) \<Rightarrow> m a b) N X s = (case p of (a, b) \<Rightarrow> wp (m a b) N X s)"
  by (simp split: prod.splits)

lemma wp_case_option [wp_simps]:
  "wp (case q of None \<Rightarrow> m | Some c \<Rightarrow> n c) N X s = (case q of None \<Rightarrow> wp m N X s | Some c \<Rightarrow> wp (n c) N X s)"
  by (simp split: option.splits)

lemma on_store_ops [wp_simps]:
  "e_GetClaim (on_store R drv o1 o2) k w = (found (claims w k), w)"
  "e_GetBucket (on_store R drv o1 o2) k w = (found (buckets w k), w)"
  "e_GetClass (on_store R drv o1 o2) k w = (found (classes w k), w)"
  "e_UpdateClaim (on_store R drv o1 o2) = update_claim" "e_UpdateBucket (on_store R drv o1 o2) = update_bucket"
  "e_StatusClaim (on_store R drv o1 o2) = status_claim" "e_StatusBucket (on_store R drv o1 o2) = status_bucket"
  "e_CreateBucket (on_store R drv o1 o2) = create_bucket" "e_DeleteBucket (on_store R drv o1 o2) = delete_bucket"
  "e_DriverCreateBucket (on_store R drv o1 o2) q w = (drv q, w)"
  "e_Now (on_store R drv o1 o2) w = (clock w, w)" "e_Order (on_store R drv o1 o2) w = (o1, w)"
  "e_ProtoOrder (on_store R drv o1 o2) w = (o2, w)"
  by (simp_all add: on_store_def)

subsection \<open>Claims and their Buckets\<close>

text \<open>The Bucket of a claim that is provisioned dynamically, and such a claim.\<close>

definition bucket_name :: "BucketClaim \<Rightarrow> string" where
  "bucket_name c = ''bc-'' @ UID (bc_meta c)"

definition dynamic_claim :: "BucketClaim \<Rightarrow> bool" where
  "dynamic_claim c \<longleftrightarrow> bcSpec_ExistingBucketName (bc_Spec c) = '''' \<and> bcSpec_BucketClassName (bc_Spec c) \<noteq> '''' \<and>
     Name (bc_meta c) \<noteq> '''' \<and> Namespace (bc_meta c) \<noteq> '''' \<and> UID (bc_meta c) \<noteq> '''' \<and>
     bcStatus_BoundBucketName (bc_Status c) \<in> {'''', bucket_name c}"

text \<open>The same claim with the finalizer, at another version and with another status.\<close>

definition same_claim :: "BucketClaim \<Rightarrow> BucketClaim \<Rightarrow> bool" where
  "same_claim c c' \<longleftrightarrow> key_of (bc_meta c') = key_of (bc_meta c) \<and> UID (bc_meta c') = UID (bc_meta c) \<and>
     DeletionTimestamp (bc_meta c') = DeletionTimestamp (bc_meta c) \<and> bc_Spec c' = bc_Spec c \<and>
     ContainsFinalizer (bc_meta c') ProtectionFinalizer"

lemma determineBucketName_dynamic:
  "dynamic_claim c \<Longrightarrow> determineBucketName c = Inr (bucket_name c)"
  by (auto simp: dynamic_claim_def determineBucketName_def bucket_name_def Let_def)

lemma wp_finalizer:
  assumes "claims (world s) k = Some (obj s)" and "k = key_of (bc_meta (obj s))" and "\<not> deleting (bc_meta (obj s))"
    and "\<And>c' s'. same_claim (obj s) c' \<Longrightarrow> bc_Status c' = bc_Status (obj s) \<Longrightarrow> obj s' = c' \<Longrightarrow>
        world s' = (world s)\<lparr>claims := (claims (world s))(k \<mapsto> c')\<rparr> \<Longrightarrow> N () s'"
  shows "wp (ensure_claim_finalizer (on_store R drv o1 o2)) N X s"
proof (cases "ContainsFinalizer (bc_meta (obj s)) ProtectionFinalizer")
  case True
  have "claims (world s) = (claims (world s))(k \<mapsto> obj s)" using assms(1) by auto
  then have "world s = (world s)\<lparr>claims := (claims (world s))(k \<mapsto> obj s)\<rparr>" by (cases "world s") simp
  then have "N () s" using assms(4) [of "obj s" s] True by (simp add: same_claim_def)
  then show ?thesis
    using True unfolding ensure_claim_finalizer_def by (simp add: wp_simps AddFinalizer_def ContainsFinalizer_def)
next
  case False
  then show ?thesis
    using assms(1-3) unfolding ensure_claim_finalizer_def
    by (simp add: wp_simps AddFinalizer_def ContainsFinalizer_def update_claim_def write_checked_def claim_put_def
        next_meta_def gone_def deleting_def key_of_def, intro assms(4))
     (simp_all add: same_claim_def key_of_def ContainsFinalizer_def)
qed

text \<open>A status write of the claim in memory, when the store holds the same version of it.\<close>

definition stored_claim :: "store \<Rightarrow> BucketClaim \<Rightarrow> bool" where
  "stored_claim w c \<longleftrightarrow> (\<exists>c0. claims w (key_of (bc_meta c)) = Some c0 \<and> bc_meta c0 = bc_meta c \<and> bc_Spec c0 = bc_Spec c)"

definition bumped_claim :: "BucketClaim \<Rightarrow> BucketClaim" where
  "bumped_claim c = c\<lparr>bc_meta := bumped (bc_meta c)\<rparr>"

lemma status_claim_stored:
  assumes "stored_claim w c" and "\<not> deleting (bc_meta c) \<or> ContainsFinalizer (bc_meta c) ProtectionFinalizer"
  shows "status_claim c w = (Inr (bumped_claim c), w\<lparr>claims := (claims w)(key_of (bc_meta c) \<mapsto> bumped_claim c)\<rparr>)"
proof -
  obtain c0 where c0: "claims w (key_of (bc_meta c)) = Some c0" "bc_meta c0 = bc_meta c" "bc_Spec c0 = bc_Spec c"
    using assms(1) by (auto simp: stored_claim_def)
  have "c0\<lparr>bc_meta := bumped (bc_meta c), bc_Status := bc_Status c\<rparr> = bumped_claim c"
    using c0(2,3) by (cases c0; cases c) (simp add: bumped_claim_def)
  then have "status_claim c w = claim_put (Inr (bumped_claim c)) w"
    using c0 by (simp add: status_claim_def write_checked_def)
  moreover have "\<not> gone (bc_meta (bumped_claim c))"
    using assms(2) by (auto simp: gone_def bumped_claim_def bumped_def deleting_def ContainsFinalizer_def)
  moreover have "key_of (bc_meta (bumped_claim c)) = key_of (bc_meta c)" by (simp add: bumped_claim_def bumped_def key_of_def)
  ultimately show ?thesis by (simp add: claim_put_def)
qed

lemma claim_objects [simp]:
  "key_of (bc_meta (bumped_claim c)) = key_of (bc_meta c)" "bc_Spec (bumped_claim c) = bc_Spec c" "bc_Status (bumped_claim c) = bc_Status c"
  "UID (bc_meta (bumped_claim c)) = UID (bc_meta c)" "deleting (bc_meta (bumped_claim c)) = deleting (bc_meta c)"
  "DeletionTimestamp (bc_meta (bumped_claim c)) = DeletionTimestamp (bc_meta c)"
  "ContainsFinalizer (bc_meta (bumped_claim c)) f = ContainsFinalizer (bc_meta c) f"
  by (simp_all add: bumped_claim_def bumped_def key_of_def deleting_def ContainsFinalizer_def)

lemma claim_status_objects [simp]:
  "bc_meta (claim_status f c) = bc_meta c" "bc_Spec (claim_status f c) = bc_Spec c" "bc_Status (claim_status f c) = f (bc_Status c)"
  by (simp_all add: claim_status_def)

lemma stored_claim_upd [simp]: "stored_claim (w\<lparr>claims := F(k \<mapsto> c)\<rparr>) c' \<longleftrightarrow>
   (if k = key_of (bc_meta c') then bc_meta c = bc_meta c' \<and> bc_Spec c = bc_Spec c' else stored_claim (w\<lparr>claims := F\<rparr>) c')"
  by (auto simp: stored_claim_def)

lemma stored_claim_other [simp]: "stored_claim (w\<lparr>buckets := B\<rparr>) c = stored_claim w c"
  by (simp add: stored_claim_def)

definition bucket_created :: "BucketClaim \<Rightarrow> BucketClass \<Rightarrow> Bucket" where
  "bucket_created c cls = (let b = generateIntermediateBucket c cls (bucket_name c) in
     b\<lparr>b_meta := (b_meta b)\<lparr>UID := ''uid-'' @ Name (b_meta b), ResourceVersion := 1\<rparr>\<rparr>)"

lemma create_bucket_new:
  assumes "buckets w (global (bucket_name c)) = None"
  shows "create_bucket (generateIntermediateBucket c cls (bucket_name c)) w =
    (Inr (bucket_created c cls), w\<lparr>buckets := (buckets w)(global (bucket_name c) \<mapsto> bucket_created c cls)\<rparr>)"
  using assms by (simp add: create_bucket_def bucket_created_def bucket_put_def key_of_def generateIntermediateBucket_def new_meta_def
      global_def gone_def deleting_def IsZero_def Let_def)

text \<open>What is left of a store after a run for the claim: only this claim and its Bucket may have changed.\<close>

definition only_changes :: "BucketClaim \<Rightarrow> store \<Rightarrow> store \<Rightarrow> bool" where
  "only_changes c w w' \<longleftrightarrow> classes w' = classes w \<and> clock w' = clock w \<and>
     (\<forall>k. k \<noteq> key_of (bc_meta c) \<longrightarrow> claims w' k = claims w k) \<and>
     (\<forall>k. k \<noteq> global (bucket_name c) \<longrightarrow> buckets w' k = buckets w k)"

definition holds_claim :: "store \<Rightarrow> NamespacedName \<Rightarrow> (BucketClaim \<Rightarrow> bool) \<Rightarrow> bool" where
  "holds_claim w k P \<longleftrightarrow> (case claims w k of None \<Rightarrow> False | Some c \<Rightarrow> P c)"

definition holds_bucket :: "store \<Rightarrow> NamespacedName \<Rightarrow> (Bucket \<Rightarrow> bool) \<Rightarrow> bool" where
  "holds_bucket w k P \<longleftrightarrow> (case buckets w k of None \<Rightarrow> False | Some b \<Rightarrow> P b)"

lemma bucket_name_set [simp]: "bucket_name c \<noteq> []"
  by (simp add: bucket_name_def)

lemma same_claim_facts:
  assumes "same_claim c c'"
  shows "bucket_name c' = bucket_name c" "generateIntermediateBucket c' cls n = generateIntermediateBucket c cls n"
    "key_of (bc_meta c') = key_of (bc_meta c)" "bc_Spec c' = bc_Spec c" "ContainsFinalizer (bc_meta c') ProtectionFinalizer"
    "DeletionTimestamp (bc_meta c') = DeletionTimestamp (bc_meta c)" "UID (bc_meta c') = UID (bc_meta c)"
  using assms by (simp_all add: same_claim_def bucket_name_def generateIntermediateBucket_def key_of_def)

lemma same_claim_upd [simp]:
  "same_claim c (bumped_claim x) = same_claim c x" "same_claim c (claim_status f x) = same_claim c x"
  by (simp_all add: same_claim_def)

lemma claim_ready_default_objects [simp]:
  "bc_meta (claim_ready_default c) = bc_meta c" "bc_Spec (claim_ready_default c) = bc_Spec c"
  "bcStatus_BoundBucketName (bc_Status (claim_ready_default c)) = bcStatus_BoundBucketName (bc_Status c)"
  "same_claim c0 (claim_ready_default c) = same_claim c0 c"
  by (simp_all add: claim_ready_default_def same_claim_def split: option.splits)

lemma bucket_created_facts [simp]:
  "b_Status (bucket_created c cls) =
     \<lparr>bStatus_ReadyToUse = None, bStatus_BucketID = '''', bStatus_Protocols = [], bStatus_BucketInfo = [], bStatus_Error = None\<rparr>"
  "b_Spec (bucket_created c cls) = b_Spec (generateIntermediateBucket c cls (bucket_name c))"
  "key_of (b_meta (bucket_created c cls)) = global (bucket_name c)" "\<not> deleting (b_meta (bucket_created c cls))"
  "Name (b_meta (bucket_created c cls)) = bucket_name c"
  by (simp_all add: bucket_created_def generateIntermediateBucket_def new_meta_def key_of_def global_def deleting_def IsZero_def Let_def)

lemma bound_to_same:
  "same_claim c c' \<Longrightarrow> UID (bc_meta c) \<noteq> '''' \<Longrightarrow> b_Spec b = b_Spec (generateIntermediateBucket c cls n) \<Longrightarrow>
   bucketIsBoundToClaim b c' = Inr True"
  by (simp add: same_claim_def bucketIsBoundToClaim_def generateIntermediateBucket_def key_of_def Let_def)

lemmas claim_run_defs = claim_Reconcile_def claim_reconcile_def claim_bucket_def createIntermediateBucket_def Let_def

lemmas store_reads = found_def not_found_def IsNotFound_def

text \<open>The two runs of the Controller: the first creates the Bucket, binds it and waits, the second finds it provisioned.\<close>

lemma claim_first_run:
  assumes "claims w (key_of (bc_meta c)) = Some c" "dynamic_claim c" "\<not> deleting (bc_meta c)" "bcStatus_BoundBucketName (bc_Status c) = ''''"
   "buckets w (global (bucket_name c)) = None" "classes w (global (bcSpec_BucketClassName (bc_Spec c))) = Some cls"
  shows "wp (claim_Reconcile (on_store R drv o1 o2) (key_of (bc_meta c)))
   (\<lambda>r s. (\<exists>e. r = Requeue e) \<and> only_changes c w (world s) \<and>
     holds_claim (world s) (key_of (bc_meta c)) (\<lambda>c'. same_claim c c' \<and> bcStatus_BoundBucketName (bc_Status c') = bucket_name c) \<and>
     holds_bucket (world s) (global (bucket_name c)) ((=) (bucket_created c cls))) (\<lambda>_ _. False) (start ob w)"
  using assms unfolding claim_run_defs
  apply (simp add: wp_simps start_def store_reads determineBucketName_dynamic split del: if_split)
  apply (simp add: wp_simps deleting_def dynamic_claim_def split del: if_split)
  apply (rule wp_finalizer [where k = "key_of (bc_meta c)"])
     apply (simp_all add: deleting_def)
  apply (simp add: wp_simps store_reads same_claim_facts bound_to_same create_bucket_new status_claim_stored
      only_changes_def holds_claim_def holds_bucket_def split del: if_split)
  done

lemma claim_second_run:
  assumes "claims w (key_of (bc_meta c)) = Some c" "dynamic_claim c" "\<not> deleting (bc_meta c)"
    and "bcStatus_BoundBucketName (bc_Status c) = bucket_name c"
    and "buckets w (global (bucket_name c)) = Some b" and "b_Spec b = b_Spec (generateIntermediateBucket c cls (bucket_name c))"
    and "bStatus_BucketID (b_Status b) \<noteq> ''''" "bStatus_Protocols (b_Status b) \<noteq> []"
  shows "wp (claim_Reconcile (on_store R drv o1 o2) (key_of (bc_meta c)))
   (\<lambda>r s. r = Success \<and> only_changes c w (world s) \<and> buckets (world s) = buckets w \<and>
     holds_claim (world s) (key_of (bc_meta c)) (\<lambda>c'. same_claim c c' \<and>
       bcStatus_BoundBucketName (bc_Status c') = bucket_name c \<and> bcStatus_ReadyToUse (bc_Status c') = bStatus_ReadyToUse (b_Status b) \<and>
       bcStatus_Protocols (bc_Status c') = bStatus_Protocols (b_Status b) \<and> bcStatus_Error (bc_Status c') = None)) (\<lambda>_ _. False) (start ob w)"
  using assms unfolding claim_run_defs
  apply (simp add: wp_simps start_def store_reads determineBucketName_dynamic split del: if_split)
  apply (simp add: wp_simps deleting_def dynamic_claim_def split del: if_split)
  apply (rule wp_finalizer [where k = "key_of (bc_meta c)"])
     apply (simp_all add: deleting_def)
  apply (simp add: wp_simps store_reads same_claim_facts bound_to_same create_bucket_new status_claim_stored
      only_changes_def holds_claim_def holds_bucket_def split del: if_split)
  done

subsection \<open>Runs of the Bucket reconciler\<close>

definition same_bucket :: "Bucket \<Rightarrow> Bucket \<Rightarrow> bool" where
  "same_bucket b b' \<longleftrightarrow> key_of (b_meta b') = key_of (b_meta b) \<and> DeletionTimestamp (b_meta b') = DeletionTimestamp (b_meta b) \<and>
     b_Spec b' = b_Spec b \<and> ContainsFinalizer (b_meta b') ProtectionFinalizer"

definition stored_bucket :: "store \<Rightarrow> Bucket \<Rightarrow> bool" where
  "stored_bucket w b \<longleftrightarrow> (\<exists>b0. buckets w (key_of (b_meta b)) = Some b0 \<and> b_meta b0 = b_meta b \<and> b_Spec b0 = b_Spec b)"

definition bumped_bucket :: "Bucket \<Rightarrow> Bucket" where
  "bumped_bucket b = b\<lparr>b_meta := bumped (b_meta b)\<rparr>"

lemma bucket_objects [simp]:
  "key_of (b_meta (bumped_bucket b)) = key_of (b_meta b)" "b_Spec (bumped_bucket b) = b_Spec b" "b_Status (bumped_bucket b) = b_Status b"
  "same_bucket b0 (bumped_bucket b) = same_bucket b0 b"
  "DeletionTimestamp (b_meta (bumped_bucket b)) = DeletionTimestamp (b_meta b)"
  "ContainsFinalizer (b_meta (bumped_bucket b)) f = ContainsFinalizer (b_meta b) f"
  by (simp_all add: bumped_bucket_def bumped_def key_of_def same_bucket_def ContainsFinalizer_def)

lemma bucket_status_objects [simp]:
  "b_meta (bucket_status f b) = b_meta b" "b_Spec (bucket_status f b) = b_Spec b" "b_Status (bucket_status f b) = f (b_Status b)"
  "same_bucket b0 (bucket_status f b) = same_bucket b0 b"
  by (simp_all add: bucket_status_def same_bucket_def)

lemma stored_bucket_upd [simp]: "stored_bucket (w\<lparr>buckets := F(k \<mapsto> b)\<rparr>) b' \<longleftrightarrow>
   (if k = key_of (b_meta b') then b_meta b = b_meta b' \<and> b_Spec b = b_Spec b' else stored_bucket (w\<lparr>buckets := F\<rparr>) b')"
  by (auto simp: stored_bucket_def)

lemma status_bucket_stored:
  assumes "stored_bucket w b" and "\<not> deleting (b_meta b) \<or> ContainsFinalizer (b_meta b) ProtectionFinalizer"
  shows "status_bucket b w = (Inr (bumped_bucket b), w\<lparr>buckets := (buckets w)(key_of (b_meta b) \<mapsto> bumped_bucket b)\<rparr>)"
proof -
  obtain b0 where b0: "buckets w (key_of (b_meta b)) = Some b0" "b_meta b0 = b_meta b" "b_Spec b0 = b_Spec b"
    using assms(1) by (auto simp: stored_bucket_def)
  have "b0\<lparr>b_meta := bumped (b_meta b), b_Status := b_Status b\<rparr> = bumped_bucket b"
    using b0(2,3) by (cases b0; cases b) (simp add: bumped_bucket_def)
  then have "status_bucket b w = bucket_put (Inr (bumped_bucket b)) w"
    using b0 by (simp add: status_bucket_def write_checked_def)
  moreover have "\<not> gone (b_meta (bumped_bucket b))"
    using assms(2) by (auto simp: gone_def bumped_bucket_def bumped_def deleting_def ContainsFinalizer_def)
  ultimately show ?thesis by (simp add: bucket_put_def)
qed

lemma wp_bucket_finalizer:
  assumes "buckets (world s) k = Some (obj s)" and "k = key_of (b_meta (obj s))" and "\<not> deleting (b_meta (obj s))"
    and "\<And>b' s'. same_bucket (obj s) b' \<Longrightarrow> b_Status b' = b_Status (obj s) \<Longrightarrow> obj s' = b' \<Longrightarrow>
        world s' = (world s)\<lparr>buckets := (buckets (world s))(k \<mapsto> b')\<rparr> \<Longrightarrow> N () s'"
  shows "wp (ensure_bucket_finalizer (on_store R drv o1 o2)) N X s"
proof (cases "ContainsFinalizer (b_meta (obj s)) ProtectionFinalizer")
  case True
  have "buckets (world s) = (buckets (world s))(k \<mapsto> obj s)" using assms(1) by auto
  then have "world s = (world s)\<lparr>buckets := (buckets (world s))(k \<mapsto> obj s)\<rparr>" by (cases "world s") simp
  then have "N () s" using assms(4) [of "obj s" s] True by (simp add: same_bucket_def)
  then show ?thesis
    using True unfolding ensure_bucket_finalizer_def by (simp add: wp_simps AddFinalizer_def ContainsFinalizer_def)
next
  case False
  then show ?thesis
    using assms(1-3) unfolding ensure_bucket_finalizer_def
    by (simp add: wp_simps AddFinalizer_def ContainsFinalizer_def update_bucket_def write_checked_def bucket_put_def
        next_meta_def gone_def deleting_def key_of_def, intro assms(4))
     (simp_all add: same_bucket_def key_of_def ContainsFinalizer_def)
qed

definition supports :: "DriverInfo \<Rightarrow> ObjectProtocol list \<Rightarrow> bool" where
  "supports d ps \<longleftrightarrow> (\<forall>p \<in> set ps. \<exists>t \<in> set (di_SupportedProtocols d). ObjectProtocol_RpcToApi t = Inr p)"

lemma supported_protocols:
  assumes "supports d ps"
  obtains out where "objectProtocolListFromApiList rank ps = Inr out" "validateDriverSupportsProtocols d out = None"
  using assms unfolding supports_def
  by (rule objectProtocolListFromApiList_known [of _ _ rank]) (simp add: validateDriverSupportsProtocols_None)

lemma answered_protocols:
  obtains m where "BucketInfoToApi rank (Some info) None = Inr (present_protocols info, m)"
proof (cases "BucketInfoToApi rank (Some info) None")
  case (Inl e)
  then show ?thesis using BucketInfoToApi_succeeds [of rank info None] by (auto simp: acceptable_def)
next
  case (Inr r)
  then show ?thesis using that BucketInfoToApi_exists [of rank info None "fst r"] by (cases r) (auto simp: acceptable_def)
qed

lemma bucket_run:
  assumes "buckets w (key_of (b_meta b)) = Some b" "\<not> deleting (b_meta b)" "bSpec_DriverName (b_Spec b) = di_Name d"
    and "bSpec_ExistingBucketID (b_Spec b) = ''''"
    and "ref_Name (bSpec_BucketClaimRef (b_Spec b)) \<noteq> '''' \<and> ref_Namespace (bSpec_BucketClaimRef (b_Spec b)) \<noteq> '''' \<and>
      ref_UID (bSpec_BucketClaimRef (b_Spec b)) \<noteq> ''''"
    and "supports d (bSpec_Protocols (b_Spec b))"
    and "\<And>q. cbq_Name q = Name (b_meta b) \<Longrightarrow> drv q = Inr \<lparr>cbr_BucketId = i, cbr_Protocols = Some info\<rparr>" and "i \<noteq> ''''"
    and "present_protocols info \<noteq> []" and "set (bSpec_Protocols (b_Spec b)) \<subseteq> set (present_protocols info)"
  shows "wp (bucket_sidecar_Reconcile d (on_store R drv o1 o2) (key_of (b_meta b)))
   (\<lambda>r s. r = Success \<and> claims (world s) = claims w \<and> classes (world s) = classes w \<and> clock (world s) = clock w \<and>
     (\<forall>k. k \<noteq> key_of (b_meta b) \<longrightarrow> buckets (world s) k = buckets w k) \<and>
     holds_bucket (world s) (key_of (b_meta b)) (\<lambda>b'. same_bucket b b' \<and> bStatus_ReadyToUse (b_Status b') = Some True \<and>
       bStatus_BucketID (b_Status b') = i \<and> bStatus_Protocols (b_Status b') = present_protocols info)) (\<lambda>_ _. False) (start ob w)"
proof -
  obtain out where out: "objectProtocolListFromApiList o2 (bSpec_Protocols (b_Spec b)) = Inr out" "validateDriverSupportsProtocols d out = None"
    using supported_protocols [OF assms(6)] .
  obtain m where m: "BucketInfoToApi o1 (Some info) None = Inr (present_protocols info, m)" using answered_protocols .
  have final: "validateBucketSupportsProtocols (present_protocols info) (bSpec_Protocols (b_Spec b)) = None"
    using assms(10) by (simp add: validateBucketSupportsProtocols_None)
  have n: "Name (b_meta b') = Name (b_meta b)" if "same_bucket b b'" for b' using that by (simp add: same_bucket_def key_of_def)
  show ?thesis
    using assms(1-6,8,9) out unfolding bucket_sidecar_Reconcile_def bucket_sidecar_reconcile_def dynamicProvision_def check_provisioned_def
      record_provisioned_def Let_def
    apply (simp add: wp_simps start_def store_reads split del: if_split)
    apply (simp add: wp_simps deleting_def split del: if_split)
    apply (rule wp_bucket_finalizer [where k = "key_of (b_meta b)"])
       apply (simp_all add: deleting_def)
    apply (frule n)
    apply (simp add: wp_simps store_reads same_bucket_def assms(7) m final status_bucket_stored holds_bucket_def split del: if_split)
    done
qed

subsection \<open>Provisioning\<close>

text \<open>The driver answers a request for a Bucket of this name with an ID and the given protocols.\<close>

definition answers :: "create_driver \<Rightarrow> string \<Rightarrow> string \<Rightarrow> ObjectProtocolAndBucketInfo \<Rightarrow> bool" where
  "answers drv n i info \<longleftrightarrow> (\<forall>q. cbq_Name q = n \<longrightarrow> drv q = Inr \<lparr>cbr_BucketId = i, cbr_Protocols = Some info\<rparr>) \<and>
     i \<noteq> '''' \<and> present_protocols info \<noteq> []"

lemma run_onD:
  assumes "wp m (\<lambda>r s. P r (world s)) (\<lambda>_ _. False) (start ob w)"
  obtains r w' where "run_on m ob w = (Inr r, w')" and "P r w'"
  using assms by (auto simp: wp_def run_on_def outcome_of_def split: prod.splits sum.splits)

text \<open>A claim and a Bucket that are provisioned.\<close>

definition claim_ready :: "BucketClaim \<Rightarrow> ObjectProtocol list \<Rightarrow> BucketClaim \<Rightarrow> bool" where
  "claim_ready c ps c' \<longleftrightarrow> same_claim c c' \<and> bcStatus_BoundBucketName (bc_Status c') = bucket_name c \<and>
     bcStatus_ReadyToUse (bc_Status c') = Some True \<and> bcStatus_Protocols (bc_Status c') = ps \<and> bcStatus_Error (bc_Status c') = None"

definition bucket_ready :: "BucketClaim \<Rightarrow> BucketClass \<Rightarrow> string \<Rightarrow> ObjectProtocol list \<Rightarrow> Bucket \<Rightarrow> bool" where
  "bucket_ready c cls i ps b \<longleftrightarrow> key_of (b_meta b) = global (bucket_name c) \<and>
     b_Spec b = b_Spec (generateIntermediateBucket c cls (bucket_name c)) \<and> ContainsFinalizer (b_meta b) ProtectionFinalizer \<and>
     bStatus_ReadyToUse (b_Status b) = Some True \<and> bStatus_BucketID (b_Status b) = i \<and> bStatus_Protocols (b_Status b) = ps"

text \<open>The claim's first run and the Bucket's run.\<close>

lemma first_two_runs:
  assumes "claims w (key_of (bc_meta c)) = Some c" "dynamic_claim c" "\<not> deleting (bc_meta c)"
    and "bcStatus_BoundBucketName (bc_Status c) = ''''" "buckets w (global (bucket_name c)) = None"
    and "classes w (global (bcSpec_BucketClassName (bc_Spec c))) = Some cls"
    and "bclSpec_DriverName (bcl_Spec cls) = di_Name d" "supports d (bcSpec_Protocols (bc_Spec c))"
    and "answers drv (bucket_name c) i info" "set (bcSpec_Protocols (bc_Spec c)) \<subseteq> set (present_protocols info)"
  obtains r1 w1 w2 c1 b2 where "run_on (claim_Reconcile (on_store R drv o1 o2) (key_of (bc_meta c))) ob1 w = (Inr r1, w1)"
    and "run_on (bucket_sidecar_Reconcile d (on_store R drv o1 o2) (global (bucket_name c))) ob2 w1 = (Inr Success, w2)"
    and "only_changes c w w2" and "claims w2 (key_of (bc_meta c)) = Some c1" and "same_claim c c1"
    and "bcStatus_BoundBucketName (bc_Status c1) = bucket_name c"
    and "buckets w2 (global (bucket_name c)) = Some b2" and "bucket_ready c cls i (present_protocols info) b2"
proof -
  let ?E = "on_store R drv o1 o2" and ?k = "key_of (bc_meta c)" and ?kb = "global (bucket_name c)" and ?b = "bucket_created c cls"
  obtain r1 w1 c1 where 1: "run_on (claim_Reconcile ?E ?k) ob1 w = (Inr r1, w1)" "only_changes c w w1"
      "claims w1 ?k = Some c1" "same_claim c c1" "bcStatus_BoundBucketName (bc_Status c1) = bucket_name c" "buckets w1 ?kb = Some ?b"
    by (rule run_onD [OF claim_first_run [OF assms(1-6), of R drv o1 o2 ob1]])
      (auto simp: holds_bucket_def holds_claim_def split: option.splits)
  have b: "key_of (b_meta ?b) = ?kb" "Name (b_meta ?b) = bucket_name c" by simp_all
  obtain w2 where 2: "run_on (bucket_sidecar_Reconcile d ?E ?kb) ob2 w1 = (Inr Success, w2)" "claims w2 = claims w1" "classes w2 = classes w1"
      "clock w2 = clock w1" "\<And>k. k \<noteq> ?kb \<Longrightarrow> buckets w2 k = buckets w1 k"
      "holds_bucket w2 ?kb (\<lambda>b'. same_bucket ?b b' \<and> bStatus_ReadyToUse (b_Status b') = Some True \<and>
       bStatus_BucketID (b_Status b') = i \<and> bStatus_Protocols (b_Status b') = present_protocols info)"
    by (rule run_onD [OF bucket_run [of w1 ?b d drv i info R o1 o2 ob2]])
      (use assms(2,7-10) 1(6) b in \<open>auto simp: generateIntermediateBucket_def dynamic_claim_def answers_def\<close>)
  obtain b2 where "buckets w2 ?kb = Some b2" "bucket_ready c cls i (present_protocols info) b2"
    using 2(6) by (auto simp: holds_bucket_def bucket_ready_def same_bucket_def split: option.splits)
  moreover have "only_changes c w w2" using 1(2) 2(2-5) by (auto simp: only_changes_def)
  ultimately show ?thesis using that 1 2(1,2) by metis
qed

lemma same_dynamic:
  "same_claim c c' \<Longrightarrow> dynamic_claim c \<Longrightarrow> bcStatus_BoundBucketName (bc_Status c') = bucket_name c \<Longrightarrow> dynamic_claim c'"
  using same_claim_facts [of c c'] by (simp add: dynamic_claim_def key_of_def)

text \<open>C20. Dynamic provisioning completes across both programs: for a new BucketClaim of a class of the Sidecar's
  driver, which supports the protocols the claim requires and answers with an ID and with those protocols, a run of
  the Controller, a run of the Sidecar and a second run of the Controller leave the claim bound and ready with
  the protocols of the answer, its Bucket ready with the ID, made as the class says, and everything else in the
  store as it was.\<close>

theorem claim_provisioning_completes:
  assumes "claims w (key_of (bc_meta c)) = Some c" and "dynamic_claim c" and "\<not> deleting (bc_meta c)"
    and "bcStatus_BoundBucketName (bc_Status c) = ''''" and "buckets w (global (bucket_name c)) = None"
    and "classes w (global (bcSpec_BucketClassName (bc_Spec c))) = Some cls"
    and "bclSpec_DriverName (bcl_Spec cls) = di_Name d" and "supports d (bcSpec_Protocols (bc_Spec c))"
    and "answers drv (bucket_name c) i info" and "set (bcSpec_Protocols (bc_Spec c)) \<subseteq> set (present_protocols info)"
  shows "let E = on_store R drv o1 o2; k = key_of (bc_meta c); kb = global (bucket_name c);
      (r1, w1) = run_on (claim_Reconcile E k) ob1 w;
      (r2, w2) = run_on (bucket_sidecar_Reconcile d E kb) ob2 w1;
      (r3, w3) = run_on (claim_Reconcile E k) ob3 w2
    in r2 = Inr Success \<and> r3 = Inr Success \<and> only_changes c w w3 \<and>
       holds_claim w3 k (claim_ready c (present_protocols info)) \<and> holds_bucket w3 kb (bucket_ready c cls i (present_protocols info))"
proof -
  let ?E = "on_store R drv o1 o2" and ?k = "key_of (bc_meta c)" and ?kb = "global (bucket_name c)"
  obtain r1 w1 w2 c1 b2 where 1: "run_on (claim_Reconcile ?E ?k) ob1 w = (Inr r1, w1)"
      "run_on (bucket_sidecar_Reconcile d ?E ?kb) ob2 w1 = (Inr Success, w2)" "only_changes c w w2"
    and c1: "claims w2 ?k = Some c1" "same_claim c c1" "bcStatus_BoundBucketName (bc_Status c1) = bucket_name c"
    and b2: "buckets w2 ?kb = Some b2" "bucket_ready c cls i (present_protocols info) b2"
    by (rule first_two_runs [OF assms, of R o1 o2 ob1 ob2])
  have d: "dynamic_claim c1" "\<not> deleting (bc_meta c1)" "bucket_name c1 = bucket_name c" "key_of (bc_meta c1) = ?k"
    using assms(3) same_dynamic [OF c1(2) assms(2) c1(3)] same_claim_facts [OF c1(2)] by (auto simp: deleting_def)
  have s: "b_Spec b2 = b_Spec (generateIntermediateBucket c1 cls (bucket_name c1))"
    using b2(2) same_claim_facts(2) [OF c1(2)] d(3) by (simp add: bucket_ready_def)
  obtain w3 where 3: "run_on (claim_Reconcile ?E ?k) ob3 w2 = (Inr Success, w3)" "only_changes c1 w2 w3" "buckets w3 = buckets w2"
      "holds_claim w3 ?k (claim_ready c1 (present_protocols info))"
    by (rule run_onD [OF claim_second_run [of w2 c1 b2 cls R drv o1 o2 ob3]])
      (use c1 b2 d s assms(9) in \<open>auto simp: answers_def bucket_ready_def claim_ready_def holds_claim_def split: option.splits\<close>)
  have "only_changes c w w3" using 1(3) 3(2) d(3,4) by (auto simp: only_changes_def)
  moreover have "holds_claim w3 ?k (claim_ready c (present_protocols info))"
    using 3(4) c1(2) d(3) by (auto simp: holds_claim_def claim_ready_def same_claim_def split: option.splits)
  ultimately show ?thesis using 1(1,2) 3(1,3) b2 by (simp add: Let_def holds_bucket_def)
qed

subsection \<open>Deletion\<close>

text \<open>An object with the protection finalizer as the only one, deleting or not.\<close>

definition protected :: "bool \<Rightarrow> ObjectMeta \<Rightarrow> bool" where
  "protected del m \<longleftrightarrow> deleting m = del \<and> Finalizers m = [ProtectionFinalizer]"

definition bound_claim :: "BucketClaim \<Rightarrow> BucketClaim \<Rightarrow> bool" where
  "bound_claim c c' \<longleftrightarrow> key_of (bc_meta c') = key_of (bc_meta c) \<and> UID (bc_meta c') = UID (bc_meta c) \<and> dynamic_claim c' \<and>
     protected True (bc_meta c')"

definition own_bucket :: "BucketClaim \<Rightarrow> DriverInfo \<Rightarrow> bool \<Rightarrow> Bucket \<Rightarrow> bool" where
  "own_bucket c d del b \<longleftrightarrow> key_of (b_meta b) = global (bucket_name c) \<and> bucketIsBoundToClaim b c = Inr True \<and>
     bSpec_DriverName (b_Spec b) = di_Name d \<and> bSpec_DeletionPolicy (b_Spec b) = BucketDeletionPolicyDelete \<and> protected del (b_meta b)"

lemma bound_same_claim [simp]:
  "bucketIsBoundToClaim b (bumped_claim c) = bucketIsBoundToClaim b c" "bucketIsBoundToClaim b (claim_status f c) = bucketIsBoundToClaim b c"
  "bucketIsBoundToClaim b (claim_ready_default c) = bucketIsBoundToClaim b c"
  by (simp_all add: bucketIsBoundToClaim_def bumped_claim_def bumped_def Let_def)

lemma stored_claim_self: "claims w (key_of (bc_meta c)) = Some c \<Longrightarrow> stored_claim w (claim_status f c)"
  by (simp add: stored_claim_def)

lemma mark_bucket:
  assumes "buckets w (key_of (b_meta b)) = Some b" "\<not> deleting (b_meta b)"
  shows "update_bucket (mark_claim_deleting b) w =
    (Inr (bumped_bucket (mark_claim_deleting b)), w\<lparr>buckets := (buckets w)(key_of (b_meta b) \<mapsto> bumped_bucket (mark_claim_deleting b))\<rparr>)"
  using assms by (simp add: update_bucket_def mark_claim_deleting_def key_of_def write_checked_def bucket_put_def next_meta_def
      gone_def deleting_def bumped_bucket_def bumped_def)

definition timed_bucket :: "time \<Rightarrow> Bucket \<Rightarrow> Bucket" where
  "timed_bucket t b = b\<lparr>b_meta := (bumped (b_meta b))\<lparr>DeletionTimestamp := Some t\<rparr>\<rparr>"

lemma delete_bucket_finalized:
  assumes "buckets w (key_of (b_meta b)) = Some b" "Finalizers (b_meta b) \<noteq> []"
  shows "delete_bucket b w = (Inr (), w\<lparr>buckets := (buckets w)(key_of (b_meta b) \<mapsto> timed_bucket (clock w) b)\<rparr>)"
  using assms by (simp add: delete_bucket_def bucket_put_def gone_def timed_bucket_def bumped_def key_of_def)

lemma own_bucket_deleted:
  "own_bucket c d False b \<Longrightarrow> t \<noteq> 0 \<Longrightarrow> own_bucket c d True (timed_bucket t (bumped_bucket (mark_claim_deleting b)))"
  by (simp add: own_bucket_def timed_bucket_def bumped_bucket_def mark_claim_deleting_def bumped_def key_of_def protected_def
      deleting_def IsZero_def bucketIsBoundToClaim_def)

lemma marked_objects [simp]:
  "key_of (b_meta (mark_claim_deleting b)) = key_of (b_meta b)" "Finalizers (b_meta (bumped_bucket (mark_claim_deleting b))) = Finalizers (b_meta b)"
  by (simp_all add: mark_claim_deleting_def key_of_def bumped_bucket_def bumped_def)

lemma bound_claim_upd [simp]:
  "bound_claim c (bumped_claim x) = bound_claim c x"
  "bound_claim c (claim_ready_default x) = bound_claim c x"
  by (simp_all add: bound_claim_def protected_def bumped_claim_def bumped_def key_of_def dynamic_claim_def bucket_name_def deleting_def)

lemma bound_claim_status:
  "bound_claim c x \<Longrightarrow> (\<And>st. bcStatus_BoundBucketName (f st) = bcStatus_BoundBucketName st) \<Longrightarrow> bound_claim c (claim_status f x)"
  by (auto simp: bound_claim_def dynamic_claim_def bucket_name_def)

lemma bound_claim_self: "dynamic_claim c \<Longrightarrow> protected True (bc_meta c) \<Longrightarrow> bound_claim c c"
  by (simp add: bound_claim_def)

text \<open>The three runs of a deletion.\<close>

lemma claim_delete_run:
  assumes "claims w (key_of (bc_meta c)) = Some c" "dynamic_claim c" "protected True (bc_meta c)"
    and "buckets w (global (bucket_name c)) = Some b" "own_bucket c d False b" "clock w \<noteq> 0"
  shows "wp (claim_Reconcile (on_store R drv o1 o2) (key_of (bc_meta c)))
   (\<lambda>r s. (\<exists>e. r = Requeue e) \<and> only_changes c w (world s) \<and>
     holds_claim (world s) (key_of (bc_meta c)) (\<lambda>c'. bound_claim c c') \<and>
     holds_bucket (world s) (global (bucket_name c)) (own_bucket c d True)) (\<lambda>_ _. False) (start ob w)"
proof -
  have c: "ContainsFinalizer (bc_meta c) ProtectionFinalizer" "deleting (bc_meta c)"
    using assms(3) by (simp_all add: protected_def ContainsFinalizer_def)
  have b: "key_of (b_meta b) = global (bucket_name c)" "bucketIsBoundToClaim b c = Inr True" "\<not> deleting (b_meta b)"
    "bSpec_DeletionPolicy (b_Spec b) = BucketDeletionPolicyDelete" "Finalizers (b_meta b) \<noteq> []"
    using assms(5) by (simp_all add: own_bucket_def protected_def)
  show ?thesis
    using assms(1,2,4) c b unfolding claim_run_defs claim_reconcileDelete_def applyBucketClaimIsDeletingAnnotation_def
    by (simp add: wp_simps start_def store_reads determineBucketName_dynamic split del: if_split)
      (simp add: wp_simps deleting_def status_claim_stored stored_claim_self mark_bucket delete_bucket_finalized
        BucketDeletionPolicyDelete_def BucketDeletionPolicyRetain_def own_bucket_deleted [OF assms(5,6)] bound_claim_status
        bound_claim_self assms(3) only_changes_def holds_claim_def holds_bucket_def store_reads split del: if_split)
qed

lemma update_bucket_gone:
  assumes "buckets w (key_of (b_meta b)) = Some b" "protected True (b_meta b)"
  shows "\<exists>b'. update_bucket (b\<lparr>b_meta := RemoveFinalizer (b_meta b) ProtectionFinalizer\<rparr>) w =
      (Inr b', w\<lparr>buckets := (buckets w)(key_of (b_meta b) := None)\<rparr>) \<and> key_of (b_meta b') = key_of (b_meta b)"
  using assms by (simp add: update_bucket_def RemoveFinalizer_def key_of_def write_checked_def bucket_put_def next_meta_def
      gone_def deleting_def protected_def)

lemma bucket_delete_run:
  assumes "buckets w (global (bucket_name c)) = Some b" "own_bucket c d True b"
  shows "wp (bucket_sidecar_Reconcile d (on_store R drv o1 o2) (global (bucket_name c)))
   (\<lambda>r s. (\<exists>e. r = Requeue e) \<and> world s = w\<lparr>buckets := (buckets w)(global (bucket_name c) := None)\<rparr>) (\<lambda>_ _. False) (start ob w)"
proof -
  have b: "key_of (b_meta b) = global (bucket_name c)" "deleting (b_meta b)" "bSpec_DriverName (b_Spec b) = di_Name d" "protected True (b_meta b)"
    using assms(2) by (simp_all add: own_bucket_def protected_def)
  obtain b' where b': "update_bucket (b\<lparr>b_meta := RemoveFinalizer (b_meta b) ProtectionFinalizer\<rparr>) w =
      (Inr b', w\<lparr>buckets := (buckets w)(global (bucket_name c) := None)\<rparr>)" "key_of (b_meta b') = global (bucket_name c)"
    using update_bucket_gone [of w b] assms(1) b by auto
  show ?thesis
    using assms(1) b unfolding bucket_sidecar_Reconcile_def bucket_sidecar_reconcile_def bucket_sidecar_delete_def
    by (simp add: wp_simps start_def store_reads split del: if_split)
      (simp add: wp_simps deleting_def b' bucket_ready_default_def status_bucket_def bucket_put_def write_checked_def)
qed

lemma update_claim_gone:
  assumes "stored_claim w c" "protected True (bc_meta c)"
  shows "\<exists>c'. update_claim (c\<lparr>bc_meta := RemoveFinalizer (bc_meta c) ProtectionFinalizer\<rparr>) w =
      (Inr c', w\<lparr>claims := (claims w)(key_of (bc_meta c) := None)\<rparr>) \<and> (\<exists>c0. claims w (key_of (bc_meta c)) = Some c0 \<and> bc_Status c' = bc_Status c0)"
  using assms by (auto simp: update_claim_def RemoveFinalizer_def key_of_def write_checked_def claim_put_def next_meta_def
      gone_def deleting_def protected_def stored_claim_def)

lemma claim_gone_run:
  assumes "claims w (key_of (bc_meta c)) = Some c" "dynamic_claim c" "protected True (bc_meta c)" "buckets w (global (bucket_name c)) = None"
  shows "wp (claim_Reconcile (on_store R drv o1 o2) (key_of (bc_meta c)))
   (\<lambda>r s. r = Success \<and> world s = w\<lparr>claims := (claims w)(key_of (bc_meta c) := None)\<rparr>) (\<lambda>_ _. False) (start ob w)"
proof -
  let ?c = "bumped_claim (claim_status (\<lambda>st. st\<lparr>bcStatus_ReadyToUse := Some False, bcStatus_Error := None\<rparr>) c)"
  let ?w = "w\<lparr>claims := (claims w)(key_of (bc_meta c) \<mapsto> ?c)\<rparr>"
  have c: "ContainsFinalizer (bc_meta c) ProtectionFinalizer" "deleting (bc_meta c)"
    using assms(3) by (simp_all add: protected_def ContainsFinalizer_def)
  have "protected True (bc_meta ?c)" using assms(3) by (simp add: protected_def bumped_claim_def bumped_def deleting_def)
  then obtain c' where c': "update_claim (?c\<lparr>bc_meta := RemoveFinalizer (bc_meta ?c) ProtectionFinalizer\<rparr>) ?w =
      (Inr c', w\<lparr>claims := (claims w)(key_of (bc_meta c) := None)\<rparr>)" "bcStatus_Error (bc_Status c') = None"
    using update_claim_gone [of ?w ?c] by auto
  show ?thesis
    using assms(1,2,4) c unfolding claim_run_defs claim_reconcileDelete_def removeClaimFinalizer_def
    by (simp add: wp_simps start_def store_reads determineBucketName_dynamic split del: if_split)
      (simp add: wp_simps deleting_def status_claim_stored stored_claim_self store_reads c' split del: if_split)
qed

text \<open>A claim that no BucketAccess uses: it does not carry the mark, and no BucketAccess of its namespace names it. The comments in the
  reconciler of BucketAccess ask for both before a claim is deleted.\<close>

definition unreferenced :: "store env \<Rightarrow> BucketClaim \<Rightarrow> bool" where
  "unreferenced R c \<longleftrightarrow> \<not> accessed_marked c \<and> (\<forall>w. case fst (e_ListAccesses R (Namespace (bc_meta c)) w) of
     Inl _ \<Rightarrow> False | Inr l \<Rightarrow> \<not> hasBucketAccessReferences (Name (bc_meta c)) l '''')"

definition retained_bucket :: "BucketClaim \<Rightarrow> Bucket \<Rightarrow> bool" where
  "retained_bucket c b \<longleftrightarrow> key_of (b_meta b) = global (bucket_name c) \<and> bucketIsBoundToClaim b c = Inr True \<and>
     bSpec_DeletionPolicy (b_Spec b) = BucketDeletionPolicyRetain \<and> \<not> deleting (b_meta b)"

lemma claim_retain_run:
  assumes "claims w (key_of (bc_meta c)) = Some c" "dynamic_claim c" "protected True (bc_meta c)"
    and "buckets w (global (bucket_name c)) = Some b" "retained_bucket c b"
  shows "wp (claim_Reconcile (on_store R drv o1 o2) (key_of (bc_meta c)))
   (\<lambda>r s. r = Success \<and> world s = w\<lparr>claims := (claims w)(key_of (bc_meta c) := None),
       buckets := (buckets w)(global (bucket_name c) \<mapsto> bumped_bucket (mark_claim_deleting b))\<rparr>) (\<lambda>_ _. False) (start ob w)"
proof -
  let ?c = "bumped_claim (claim_status (\<lambda>st. st\<lparr>bcStatus_ReadyToUse := Some False, bcStatus_Error := None\<rparr>) c)"
  let ?w = "w\<lparr>claims := (claims w)(key_of (bc_meta c) \<mapsto> ?c),
    buckets := (buckets w)(global (bucket_name c) \<mapsto> bumped_bucket (mark_claim_deleting b))\<rparr>"
  have c: "ContainsFinalizer (bc_meta c) ProtectionFinalizer" "deleting (bc_meta c)"
    using assms(3) by (simp_all add: protected_def ContainsFinalizer_def)
  have b: "key_of (b_meta b) = global (bucket_name c)" "bucketIsBoundToClaim b c = Inr True" "\<not> deleting (b_meta b)"
    "bSpec_DeletionPolicy (b_Spec b) = BucketDeletionPolicyRetain"
    using assms(5) by (simp_all add: retained_bucket_def)
  have "protected True (bc_meta ?c)" using assms(3) by (simp add: protected_def bumped_claim_def bumped_def deleting_def)
  then obtain c' where c': "update_claim (?c\<lparr>bc_meta := RemoveFinalizer (bc_meta ?c) ProtectionFinalizer\<rparr>) ?w =
      (Inr c', ?w\<lparr>claims := (claims w)(key_of (bc_meta c) := None)\<rparr>)" "bcStatus_Error (bc_Status c') = None"
    using update_claim_gone [of ?w ?c] by auto
  show ?thesis
    using assms(1,2,4) c b unfolding claim_run_defs claim_reconcileDelete_def applyBucketClaimIsDeletingAnnotation_def removeClaimFinalizer_def
    by (simp add: wp_simps start_def store_reads determineBucketName_dynamic split del: if_split)
      (simp add: wp_simps deleting_def status_claim_stored stored_claim_self mark_bucket store_reads c' split del: if_split)
qed


text \<open>What the code does for the policy Delete: a run of the Controller (which marks and deletes the Bucket object), a run of
  the Sidecar (which takes its finalizer off without asking the driver to delete anything, and then fails to store its error in the
  status of the object that is gone) and a second run of the Controller leave neither the claim nor the Bucket object in the store, and
  everything else as it was. The mark of a BucketAccess on the claim is not looked at, and the backend bucket stays.\<close>

lemma claim_deletion_completes:
  assumes "claims w (key_of (bc_meta c)) = Some c" and "dynamic_claim c" and "protected True (bc_meta c)"
    and "buckets w (global (bucket_name c)) = Some b" and "own_bucket c d False b" and "clock w \<noteq> 0"
  shows "let E = on_store R drv o1 o2; k = key_of (bc_meta c); kb = global (bucket_name c);
      (r1, w1) = run_on (claim_Reconcile E k) ob1 w;
      (r2, w2) = run_on (bucket_sidecar_Reconcile d E kb) ob2 w1;
      (r3, w3) = run_on (claim_Reconcile E k) ob3 w2
    in r3 = Inr Success \<and> claims w3 k = None \<and> buckets w3 kb = None \<and> only_changes c w w3"
proof -
  let ?E = "on_store R drv o1 o2" and ?k = "key_of (bc_meta c)" and ?kb = "global (bucket_name c)"
  obtain r1 w1 c1 b1 where 1: "run_on (claim_Reconcile ?E ?k) ob1 w = (Inr r1, w1)" "only_changes c w w1"
      "claims w1 ?k = Some c1" "bound_claim c c1" "buckets w1 ?kb = Some b1" "own_bucket c d True b1"
    by (rule run_onD [OF claim_delete_run [OF assms, of R drv o1 o2 ob1]])
      (auto simp: holds_bucket_def holds_claim_def split: option.splits)
  obtain r2 where 2: "run_on (bucket_sidecar_Reconcile d ?E ?kb) ob2 w1 = (Inr r2, w1\<lparr>buckets := (buckets w1)(?kb := None)\<rparr>)"
    by (rule run_onD [OF bucket_delete_run [OF 1(5,6), of R drv o1 o2 ob2]]) (auto simp del: fun_upd_apply)
  have c1: "dynamic_claim c1" "protected True (bc_meta c1)" "key_of (bc_meta c1) = ?k" "bucket_name c1 = bucket_name c"
    using 1(4) by (simp_all add: bound_claim_def bucket_name_def)
  let ?w2 = "w1\<lparr>buckets := (buckets w1)(?kb := None)\<rparr>"
  have 3: "run_on (claim_Reconcile ?E ?k) ob3 ?w2 = (Inr Success, ?w2\<lparr>claims := (claims ?w2)(?k := None)\<rparr>)"
    by (rule run_onD [OF claim_gone_run [of ?w2 c1 R drv o1 o2 ob3]]) (use 1(3) c1 in \<open>auto simp del: fun_upd_apply simp: fun_upd_same\<close>)
  show ?thesis using 1(1,2) 2 3 by (simp add: only_changes_def)
qed

subsection \<open>A sample store\<close>

definition sample_class :: BucketClass where
  "sample_class = \<lparr>bcl_meta = sample_meta '''' ''gold'',
     bcl_Spec = \<lparr>bclSpec_DriverName = ''driver'', bclSpec_DeletionPolicy = BucketDeletionPolicyDelete, bclSpec_Parameters = []\<rparr>\<rparr>"

definition sample_claim :: BucketClaim where
  "sample_claim = \<lparr>bc_meta = sample_meta ''ns'' ''claim'',
     bc_Spec = \<lparr>bcSpec_BucketClassName = ''gold'', bcSpec_Protocols = [ObjectProtocolAzure], bcSpec_ExistingBucketName = ''''\<rparr>,
     bc_Status = \<lparr>bcStatus_BoundBucketName = '''', bcStatus_ReadyToUse = None, bcStatus_Protocols = [], bcStatus_Error = None\<rparr>\<rparr>"

definition sample_store :: store where
  "sample_store = \<lparr>claims = [key_of (bc_meta sample_claim) \<mapsto> sample_claim], buckets = Map.empty,
     classes = [global ''gold'' \<mapsto> sample_class], clock = 7\<rparr>"

theorem claim_provisioning_completes_witness:
  "\<forall>R o1 o2 ob1 ob2 ob3. let E = on_store R (\<lambda>_. Inr \<lparr>cbr_BucketId = ''backend'', cbr_Protocols = Some sample_info\<rparr>) o1 o2;
      k = key_of (bc_meta sample_claim);
      (r1, w1) = run_on (claim_Reconcile E k) ob1 sample_store;
      (r2, w2) = run_on (bucket_sidecar_Reconcile sample_driver E (global ''bc-uid-claim'')) ob2 w1;
      (r3, w3) = run_on (claim_Reconcile E k) ob3 w2
    in r3 = Inr Success \<and> holds_claim w3 k (claim_ready sample_claim [ObjectProtocolAzure])"
proof (intro allI)
  fix R o1 o2 ob1 ob2 ob3
  let ?drv = "\<lambda>_. Inr \<lparr>cbr_BucketId = ''backend'', cbr_Protocols = Some sample_info\<rparr>"
  have p: "present_protocols sample_info = [ObjectProtocolAzure]" by code_simp
  have n: "bucket_name sample_claim = ''bc-uid-claim''" by code_simp
  have s: "supports sample_driver (bcSpec_Protocols (bc_Spec sample_claim))" by code_simp
  have a: "answers ?drv (bucket_name sample_claim) ''backend'' sample_info" by (simp add: answers_def p)
  have c: "dynamic_claim sample_claim" "\<not> deleting (bc_meta sample_claim)" "bcStatus_BoundBucketName (bc_Status sample_claim) = ''''" by code_simp+
  have w: "claims sample_store (key_of (bc_meta sample_claim)) = Some sample_claim" "buckets sample_store (global (bucket_name sample_claim)) = None"
    "classes sample_store (global (bcSpec_BucketClassName (bc_Spec sample_claim))) = Some sample_class"
    by (simp_all add: sample_store_def sample_claim_def)
  have d: "bclSpec_DriverName (bcl_Spec sample_class) = di_Name sample_driver" by code_simp
  have i: "set (bcSpec_Protocols (bc_Spec sample_claim)) \<subseteq> set (present_protocols sample_info)" by code_simp
  show "let E = on_store R ?drv o1 o2;
      k = key_of (bc_meta sample_claim);
      (r1, w1) = run_on (claim_Reconcile E k) ob1 sample_store;
      (r2, w2) = run_on (bucket_sidecar_Reconcile sample_driver E (global ''bc-uid-claim'')) ob2 w1;
      (r3, w3) = run_on (claim_Reconcile E k) ob3 w2
    in r3 = Inr Success \<and> holds_claim w3 k (claim_ready sample_claim [ObjectProtocolAzure])"
    using claim_provisioning_completes [OF w(1) c w(2,3) d s a i, of R o1 o2 ob1 ob2 ob3] unfolding n p Let_def by (auto split: prod.splits)
qed

definition deleting_claim :: BucketClaim where
  "deleting_claim = sample_claim\<lparr>bc_meta := (bc_meta sample_claim)\<lparr>DeletionTimestamp := Some 5, Finalizers := [ProtectionFinalizer]\<rparr>\<rparr>"

definition deletable_bucket :: Bucket where
  "deletable_bucket = (bucket_created sample_claim sample_class)\<lparr>b_meta :=
     (b_meta (bucket_created sample_claim sample_class))\<lparr>Finalizers := [ProtectionFinalizer]\<rparr>\<rparr>"

definition retained :: Bucket where
  "retained = deletable_bucket\<lparr>b_Spec := (b_Spec deletable_bucket)\<lparr>bSpec_DeletionPolicy := BucketDeletionPolicyRetain\<rparr>\<rparr>"


end
