(* ===== verification/Fake_Gen.thy ===== *)
theory Fake_Gen
  imports Go_Prelude
begin

text \<open>
  \<open>proto/hack/fake-gen/main.go\<close>: the protoc plugin that generates the fake clients of the driver's services. The
  messages of protoc are records, with \<open>None\<close> for a nil pointer; a nil name is dereferenced, which panics. The calls of
  the code generation library build a tree; its rendering, the wire format and the streams are parameters.
\<close>

subsection \<open>Messages\<close>

record MethodDescriptor =
  md_Name :: "string option"
  md_InputType :: "string option"
  md_OutputType :: "string option"

record ServiceDescriptor =
  sd_Name :: "string option"
  sd_Method :: "MethodDescriptor list"

record FileDescriptor =
  fd_Name :: "string option"
  fd_Service :: "ServiceDescriptor list"

record CodeGeneratorRequest =
  cgr_Parameter :: string
  cgr_ProtoFile :: "FileDescriptor list"

record ResponseFile =
  rf_Name :: string
  rf_Content :: string

record Method =
  m_Name :: string
  m_Input :: string
  m_Output :: string

record FakeService =
  fs_Name :: string
  fs_Methods :: "Method list"

record GoFake =
  gf_Request :: CodeGeneratorRequest
  gf_File :: "ResponseFile list"
  gf_Parameters :: "(string, string) gomap"

text \<open>A statement of the generated file is the sequence of the library's calls that build it.\<close>

datatype code = JType | JFunc | JError | JId string | JOp string | JQual string string | JDot string
  | JParams "code list list" | JList "code list list" | JStruct "code list list" | JBlock "code list list"
  | JReturn "code list list" | JCall "code list list"

record jen_file =
  jf_Package :: string
  jf_Statements :: "code list list"

subsection \<open>Operations\<close>

definition cleanInput :: "string \<Rightarrow> string" where
  "cleanInput val = last (split_on (CHR ''.'') val)"

definition clean_type :: "string option \<Rightarrow> string" where
  "clean_type t = (case t of None \<Rightarrow> '''' | Some val \<Rightarrow> cleanInput val)"

text \<open>A loop over a list whose body may panic.\<close>

fun all_or_panic :: "('a \<Rightarrow> 'b option) \<Rightarrow> 'a list \<Rightarrow> 'b list option" where
  "all_or_panic f [] = Some []"
| "all_or_panic f (x # xs) =
     (case f x of None \<Rightarrow> None | Some y \<Rightarrow> (case all_or_panic f xs of None \<Rightarrow> None | Some ys \<Rightarrow> Some (y # ys)))"

definition fake_method :: "MethodDescriptor \<Rightarrow> Method option" where
  "fake_method mtd =
     (case md_Name mtd of None \<Rightarrow> None
      | Some n \<Rightarrow> Some \<lparr>m_Name = n, m_Input = clean_type (md_InputType mtd), m_Output = clean_type (md_OutputType mtd)\<rparr>)"

definition fake_service :: "ServiceDescriptor \<Rightarrow> FakeService option" where
  "fake_service svc =
     (case sd_Name svc of None \<Rightarrow> None
      | Some n \<Rightarrow> (case all_or_panic fake_method (sd_Method svc) of None \<Rightarrow> None
                  | Some ms \<Rightarrow> Some \<lparr>fs_Name = n @ ''Client'', fs_Methods = ms\<rparr>))"

definition fake_services :: "FileDescriptor \<Rightarrow> (string \<times> FakeService list) option" where
  "fake_services protoFile =
     (case fd_Name protoFile of None \<Rightarrow> None
      | Some n \<Rightarrow> (case all_or_panic fake_service (fd_Service protoFile) of None \<Rightarrow> None | Some svcs \<Rightarrow> Some (n, svcs)))"

definition getLocationMessage :: "GoFake \<Rightarrow> (string, FakeService list) gomap option" where
  "getLocationMessage runner =
     (case all_or_panic fake_services (cgr_ProtoFile (gf_Request runner)) of None \<Rightarrow> None
      | Some files \<Rightarrow> Some (fold (\<lambda>(n, svcs). gput n svcs) files []))"

text \<open>\<open>strings.Replace\<close> of all occurrences.\<close>

function replace_all :: "string \<Rightarrow> string \<Rightarrow> string \<Rightarrow> string" where
  "replace_all old new s =
     (if old = '''' \<or> s = '''' then s
      else if has_prefix s old then new @ replace_all old new (drop (length old) s)
      else hd s # replace_all old new (tl s))"
  by pat_completeness auto
termination
  by (relation "measure (\<lambda>(_, _, s). length s)") auto

declare replace_all.simps [simp del]

definition signature :: "string \<Rightarrow> Method \<Rightarrow> code list" where
  "signature pkgPath mtd =
     [JParams [[JId ''ctx'', JQual ''context'' ''Context''],
               [JId ''in'', JOp ''*'', JQual pkgPath (m_Input mtd)],
               [JId ''opts'', JOp ''...'', JQual ''google.golang.org/grpc'' ''CallOption'']],
      JOp ''('', JList [[JOp ''*'', JQual pkgPath (m_Output mtd)], [JError]], JOp '')'']"

definition fake_struct :: "string \<Rightarrow> FakeService \<Rightarrow> code list" where
  "fake_struct pkgPath svc =
     [JType, JId (''Fake'' @ fs_Name svc),
      JStruct (map (\<lambda>mtd. [JId (''Fake'' @ m_Name mtd), JFunc] @ signature pkgPath mtd) (fs_Methods svc))]"

definition fake_func :: "string \<Rightarrow> FakeService \<Rightarrow> Method \<Rightarrow> code list" where
  "fake_func pkgPath svc mtd =
     [JFunc, JParams [[JId ''f'', JId (''*Fake'' @ fs_Name svc)]], JId (m_Name mtd)] @ signature pkgPath mtd @
     [JBlock [[JReturn [[JId ''f'', JDot (''Fake'' @ m_Name mtd),
        JCall [[JId ''ctx''], [JId ''in''], [JId ''opts'', JOp ''...'']]]]]]]"

definition fake_file :: "string \<Rightarrow> FakeService list \<Rightarrow> jen_file" where
  "fake_file pkgPath svcs = \<lparr>jf_Package = ''fake'',
     jf_Statements = concat (map (\<lambda>svc. fake_struct pkgPath svc # map (fake_func pkgPath svc) (fs_Methods svc)) svcs)\<rparr>"

definition package_path :: "(string, string) gomap \<Rightarrow> string" where
  "package_path parameters = (case map_of parameters ''packagePath'' of None \<Rightarrow> '''' | Some p \<Rightarrow> p)"

definition CreateFakeFile :: "(jen_file \<Rightarrow> string) \<Rightarrow> string \<Rightarrow> FakeService list \<Rightarrow> GoFake \<Rightarrow> GoFake" where
  "CreateFakeFile render filename fakeSVC runner =
     (let outfileName = replace_all ''.proto'' ''.pb.fake.go'' filename;
          pkgPath = package_path (gf_Parameters runner);
          content = render (fake_file pkgPath fakeSVC)
      in runner\<lparr>gf_File := gf_File runner @ [\<lparr>rf_Name = outfileName, rf_Content = content\<rparr>]\<rparr>)"

definition generateMessageMarkdown :: "(jen_file \<Rightarrow> string) \<Rightarrow> (string \<Rightarrow> nat) \<Rightarrow> GoFake \<Rightarrow> GoFake option" where
  "generateMessageMarkdown render rank runner =
     (case getLocationMessage runner of None \<Rightarrow> None
      | Some m \<Rightarrow> Some (fold (\<lambda>(filename, svcs). CreateFakeFile render filename svcs) (range_map rank m) runner))"

definition generateCode :: "(jen_file \<Rightarrow> string) \<Rightarrow> (string \<Rightarrow> nat) \<Rightarrow> GoFake \<Rightarrow> GoFake option" where
  "generateCode render rank runner = generateMessageMarkdown render rank (runner\<lparr>gf_File := []\<rparr>)"

definition parse_parameters :: "string \<Rightarrow> (string, string) gomap" where
  "parse_parameters parameters =
     fold (\<lambda>element ps. (let kv = split_on (CHR ''='') element in if length kv > 1 then gput (kv ! 0) (kv ! 1) ps else ps))
       (split_on (CHR '','') parameters) []"

text \<open>The program: what it writes, or \<open>None\<close> for a panic.\<close>

definition fake_gen_main ::
  "(jen_file \<Rightarrow> string) \<Rightarrow> (string \<Rightarrow> nat) \<Rightarrow> ('d \<Rightarrow> CodeGeneratorRequest option) \<Rightarrow> (ResponseFile list \<Rightarrow> 'd option) \<Rightarrow> 'd option \<Rightarrow> 'd option" where
  "fake_gen_main render rank unmarshal marshal stdin =
     (case stdin of None \<Rightarrow> None
      | Some data \<Rightarrow>
          (case unmarshal data of None \<Rightarrow> None
           | Some req \<Rightarrow>
               (case generateCode render rank \<lparr>gf_Request = req, gf_File = [], gf_Parameters = parse_parameters (cgr_Parameter req)\<rparr> of
                  None \<Rightarrow> None
                | Some runner \<Rightarrow> marshal (gf_File runner))))"

subsection \<open>What is generated\<close>

text \<open>A request as protoc makes it: every file, service and method has its name, and the files differ.\<close>

definition named :: "CodeGeneratorRequest \<Rightarrow> bool" where
  "named req \<longleftrightarrow> distinct (map fd_Name (cgr_ProtoFile req)) \<and>
     (\<forall>p \<in> set (cgr_ProtoFile req). fd_Name p \<noteq> None \<and> (\<forall>s \<in> set (fd_Service p). sd_Name s \<noteq> None \<and>
        (\<forall>m \<in> set (sd_Method s). md_Name m \<noteq> None)))"

text \<open>A file of fake clients for the services of a proto file: each service has a struct with a function for each method, and a
  method of the same name and signature that returns what the function returns for its arguments; there is
  nothing else in the file.\<close>

definition delegating :: "string \<Rightarrow> string \<Rightarrow> MethodDescriptor \<Rightarrow> code list list \<Rightarrow> bool" where
  "delegating pkgPath client m stmts =
     (let n = the (md_Name m); sig = signature pkgPath \<lparr>m_Name = n, m_Input = clean_type (md_InputType m), m_Output = clean_type (md_OutputType m)\<rparr>
      in (\<exists>fields. [JType, JId client, JStruct fields] \<in> set stmts \<and> JId (''Fake'' @ n) # JFunc # sig \<in> set fields) \<and>
         JFunc # JParams [[JId ''f'', JId (''*'' @ client)]] # JId n # sig @
           [JBlock [[JReturn [[JId ''f'', JDot (''Fake'' @ n), JCall [[JId ''ctx''], [JId ''in''], [JId ''opts'', JOp ''...'']]]]]]] \<in> set stmts)"

definition fakes :: "string \<Rightarrow> FileDescriptor \<Rightarrow> jen_file \<Rightarrow> bool" where
  "fakes pkgPath p f \<longleftrightarrow> jf_Package f = ''fake'' \<and> length (jf_Statements f) = (\<Sum>s \<leftarrow> fd_Service p. 1 + length (sd_Method s)) \<and>
     (\<forall>s \<in> set (fd_Service p). \<forall>m \<in> set (sd_Method s).
        delegating pkgPath (''Fake'' @ the (sd_Name s) @ ''Client'') m (jf_Statements f))"

lemma all_or_panic_map: "\<forall>x \<in> set xs. f x = Some (g x) \<Longrightarrow> all_or_panic f xs = Some (map g xs)"
  by (induction xs) auto

lemma fold_gput_new: "distinct (gkeys (m @ xs)) \<Longrightarrow> fold (\<lambda>(n, v). gput n v) xs m = m @ xs"
proof (induction xs arbitrary: m)
  case (Cons x xs)
  have "gput (fst x) (snd x) m = m @ [x]" if "fst x \<notin> set (gkeys m)" using that by (induction m) auto
  then show ?case using Cons by (auto simp: case_prod_beta)
qed simp

definition method_of :: "MethodDescriptor \<Rightarrow> Method" where
  "method_of m = \<lparr>m_Name = the (md_Name m), m_Input = clean_type (md_InputType m), m_Output = clean_type (md_OutputType m)\<rparr>"

definition services_of :: "FileDescriptor \<Rightarrow> FakeService list" where
  "services_of p = map (\<lambda>s. \<lparr>fs_Name = the (sd_Name s) @ ''Client'', fs_Methods = map method_of (sd_Method s)\<rparr>) (fd_Service p)"

lemma fake_method_named: "md_Name m \<noteq> None \<Longrightarrow> fake_method m = Some (method_of m)"
  by (auto simp: fake_method_def method_of_def)

lemma fake_service_named:
  "sd_Name s \<noteq> None \<Longrightarrow> all_or_panic fake_method (sd_Method s) = Some ms \<Longrightarrow>
     fake_service s = Some \<lparr>fs_Name = the (sd_Name s) @ ''Client'', fs_Methods = ms\<rparr>"
  by (auto simp: fake_service_def)

lemma getLocationMessage_named:
  assumes "named (gf_Request r)"
  shows "getLocationMessage r = Some (map (\<lambda>p. (the (fd_Name p), services_of p)) (cgr_ProtoFile (gf_Request r)))"
proof -
  have "fake_services p = Some (the (fd_Name p), services_of p)" if p: "p \<in> set (cgr_ProtoFile (gf_Request r))" for p
  proof -
    have m: "all_or_panic fake_method (sd_Method s) = Some (map method_of (sd_Method s))" "sd_Name s \<noteq> None" if "s \<in> set (fd_Service p)" for s
      using assms p that by (auto simp: named_def intro!: all_or_panic_map fake_method_named)
    have "all_or_panic fake_service (fd_Service p) = Some (services_of p)"
      unfolding services_of_def using m fake_service_named by (intro all_or_panic_map) blast
    then show ?thesis using assms p by (auto simp: named_def fake_services_def)
  qed
  moreover have "map fd_Name (cgr_ProtoFile (gf_Request r)) = map Some (map (\<lambda>p. the (fd_Name p)) (cgr_ProtoFile (gf_Request r)))"
    using assms by (auto simp: named_def)
  then have "distinct (map (\<lambda>p. the (fd_Name p)) (cgr_ProtoFile (gf_Request r)))"
    using assms unfolding named_def by (metis distinct_map)
  ultimately show ?thesis
    using fold_gput_new [of "[]" "map (\<lambda>p. (the (fd_Name p), services_of p)) (cgr_ProtoFile (gf_Request r))"]
    by (simp add: getLocationMessage_def all_or_panic_map [where g = "\<lambda>p. (the (fd_Name p), services_of p)"] comp_def)
qed

lemma sum_list_services: "length (concat (map (\<lambda>s. f s # map (g s) (h s)) xs)) = (\<Sum>s \<leftarrow> xs. 1 + length (h s))"
  by (induction xs) auto

lemma fake_file_fakes: "fakes pkgPath p (fake_file pkgPath (services_of p))"
proof -
  have "delegating pkgPath (''Fake'' @ the (sd_Name s) @ ''Client'') m (jf_Statements (fake_file pkgPath (services_of p)))"
    if "s \<in> set (fd_Service p)" "m \<in> set (sd_Method s)" for s m
    using that unfolding delegating_def Let_def
    by (force simp: fake_file_def services_of_def fake_struct_def fake_func_def method_of_def)
  moreover have "length (jf_Statements (fake_file pkgPath (services_of p))) = (\<Sum>s \<leftarrow> fd_Service p. 1 + length (sd_Method s))"
    by (simp add: fake_file_def services_of_def sum_list_services comp_def)
  ultimately show ?thesis by (simp add: fakes_def fake_file_def)
qed

lemma create_all:
  "fold (\<lambda>(n, svcs). CreateFakeFile render n svcs) xs r = r\<lparr>gf_File := gf_File r @
     map (\<lambda>(n, svcs). \<lparr>rf_Name = replace_all ''.proto'' ''.pb.fake.go'' n,
       rf_Content = render (fake_file (package_path (gf_Parameters r)) svcs)\<rparr>) xs\<rparr>"
  by (induction xs arbitrary: r) (auto simp: CreateFakeFile_def)

lemma sort_key_map: "sort_key f (map g xs) = map g (sort_key (\<lambda>x. f (g x)) xs)"
proof (induction xs)
  case (Cons x xs)
  have "insort_key f (g x) (map g ys) = map g (insort_key (\<lambda>x. f (g x)) x ys)" for ys by (induction ys) auto
  with Cons show ?case by simp
qed simp

lemma parse_parameters_join:
  assumes "ps \<noteq> []" and "\<forall>(k, v) \<in> set ps. {CHR '','', CHR ''=''} \<inter> (set k \<union> set v) = {}"
  shows "parse_parameters (join_with [CHR '',''] (map (\<lambda>(k, v). k @ CHR ''='' # v) ps)) = fold (\<lambda>(k, v). gput k v) ps []"
proof -
  have "split_on (CHR '','') (join_with [CHR '',''] (map (\<lambda>(k, v). k @ CHR ''='' # v) ps)) = map (\<lambda>(k, v). k @ CHR ''='' # v) ps"
    using assms by (intro split_join) auto
  moreover have "split_on (CHR ''='') (k @ CHR ''='' # v) = [k, v]" if "(k, v) \<in> set ps" for k v
    using assms(2) that by (force simp: split_on_append split_on_no_sep)
  ultimately show ?thesis
    unfolding parse_parameters_def by (simp add: fold_map comp_def) (intro fold_cong, auto simp: Let_def)
qed

text \<open>C39. The generator's output for a request in which everything has its name: one file for each proto file, named after it, with a
  fake client for each service that passes every call on to the function of the same name and signature, its
  types taken from the package of the parameters.\<close>

theorem fake_clients_generated:
  assumes "unmarshal data = Some req" and "named req"
  shows "\<exists>files out. fake_gen_main render rank unmarshal marshal (Some data) = marshal out \<and> mset files = mset (cgr_ProtoFile req) \<and>
    list_all2 (\<lambda>p r. \<exists>f. rf_Name r = replace_all ''.proto'' ''.pb.fake.go'' (the (fd_Name p)) \<and> rf_Content r = render f \<and>
      fakes (package_path (parse_parameters (cgr_Parameter req))) p f) files out"
proof -
  let ?pkg = "package_path (parse_parameters (cgr_Parameter req))"
  let ?files = "sort_key (\<lambda>p. rank (the (fd_Name p))) (cgr_ProtoFile req)"
  let ?out = "map (\<lambda>p. \<lparr>rf_Name = replace_all ''.proto'' ''.pb.fake.go'' (the (fd_Name p)), rf_Content = render (fake_file ?pkg (services_of p))\<rparr>) ?files"
  have "fake_gen_main render rank unmarshal marshal (Some data) = marshal ?out"
    using assms by (simp add: fake_gen_main_def generateCode_def generateMessageMarkdown_def getLocationMessage_named create_all
        range_map_def sort_key_map comp_def)
  moreover have "list_all2 (\<lambda>p r. \<exists>f. rf_Name r = replace_all ''.proto'' ''.pb.fake.go'' (the (fd_Name p)) \<and> rf_Content r = render f \<and>
      fakes ?pkg p f) ?files ?out"
    using fake_file_fakes by (fastforce simp: list_all2_conv_all_nth)
  ultimately show ?thesis by (intro exI [of _ ?files] exI [of _ ?out]) simp
qed

subsection \<open>The fakes of the repository\<close>

definition rpc_method :: "string \<Rightarrow> MethodDescriptor" where
  "rpc_method n = \<lparr>md_Name = Some n, md_InputType = Some (''.sigs.k8s.io.cosi.v1alpha2.'' @ n @ ''Request''),
     md_OutputType = Some (''.sigs.k8s.io.cosi.v1alpha2.'' @ n @ ''Response'')\<rparr>"

text \<open>The services of \<open>proto/cosi.proto\<close>.\<close>

definition cosi_proto :: FileDescriptor where
  "cosi_proto = \<lparr>fd_Name = Some ''cosi.proto'', fd_Service =
     [\<lparr>sd_Name = Some ''Identity'', sd_Method = [rpc_method ''DriverGetInfo'']\<rparr>,
      \<lparr>sd_Name = Some ''Provisioner'', sd_Method = map rpc_method [''DriverCreateBucket'', ''DriverGetExistingBucket'',
         ''DriverDeleteBucket'', ''DriverGrantBucketAccess'', ''DriverRevokeBucketAccess'']\<rparr>]\<rparr>"

text \<open>The checked-in file \<open>proto/fake/cosi.pb.fake.go\<close>, as a tree.\<close>

definition client_signature :: "string \<Rightarrow> string \<Rightarrow> code list" where
  "client_signature input output =
     [JParams [[JId ''ctx'', JQual ''context'' ''Context''],
               [JId ''in'', JOp ''*'', JQual ''sigs.k8s.io/container-object-storage-interface/proto'' input],
               [JId ''opts'', JOp ''...'', JQual ''google.golang.org/grpc'' ''CallOption'']],
      JOp ''('', JList [[JOp ''*'', JQual ''sigs.k8s.io/container-object-storage-interface/proto'' output], [JError]], JOp '')'']"

definition calls_field :: "string \<Rightarrow> code" where
  "calls_field field = JBlock [[JReturn [[JId ''f'', JDot field, JCall [[JId ''ctx''], [JId ''in''], [JId ''opts'', JOp ''...'']]]]]]"

definition FakeIdentityClient :: "code list list" where
  "FakeIdentityClient =
     [[JType, JId ''FakeIdentityClient'', JStruct
        [JId ''FakeDriverGetInfo'' # JFunc # client_signature ''DriverGetInfoRequest'' ''DriverGetInfoResponse'']],
      [JFunc, JParams [[JId ''f'', JId ''*FakeIdentityClient'']], JId ''DriverGetInfo''] @
        client_signature ''DriverGetInfoRequest'' ''DriverGetInfoResponse'' @ [calls_field ''FakeDriverGetInfo'']]"

definition FakeProvisionerClient :: "code list list" where
  "FakeProvisionerClient =
     [[JType, JId ''FakeProvisionerClient'', JStruct
        [JId ''FakeDriverCreateBucket'' # JFunc # client_signature ''DriverCreateBucketRequest'' ''DriverCreateBucketResponse'',
         JId ''FakeDriverGetExistingBucket'' # JFunc # client_signature ''DriverGetExistingBucketRequest'' ''DriverGetExistingBucketResponse'',
         JId ''FakeDriverDeleteBucket'' # JFunc # client_signature ''DriverDeleteBucketRequest'' ''DriverDeleteBucketResponse'',
         JId ''FakeDriverGrantBucketAccess'' # JFunc # client_signature ''DriverGrantBucketAccessRequest'' ''DriverGrantBucketAccessResponse'',
         JId ''FakeDriverRevokeBucketAccess'' # JFunc # client_signature ''DriverRevokeBucketAccessRequest'' ''DriverRevokeBucketAccessResponse'']],
      [JFunc, JParams [[JId ''f'', JId ''*FakeProvisionerClient'']], JId ''DriverCreateBucket''] @
        client_signature ''DriverCreateBucketRequest'' ''DriverCreateBucketResponse'' @ [calls_field ''FakeDriverCreateBucket''],
      [JFunc, JParams [[JId ''f'', JId ''*FakeProvisionerClient'']], JId ''DriverGetExistingBucket''] @
        client_signature ''DriverGetExistingBucketRequest'' ''DriverGetExistingBucketResponse'' @ [calls_field ''FakeDriverGetExistingBucket''],
      [JFunc, JParams [[JId ''f'', JId ''*FakeProvisionerClient'']], JId ''DriverDeleteBucket''] @
        client_signature ''DriverDeleteBucketRequest'' ''DriverDeleteBucketResponse'' @ [calls_field ''FakeDriverDeleteBucket''],
      [JFunc, JParams [[JId ''f'', JId ''*FakeProvisionerClient'']], JId ''DriverGrantBucketAccess''] @
        client_signature ''DriverGrantBucketAccessRequest'' ''DriverGrantBucketAccessResponse'' @ [calls_field ''FakeDriverGrantBucketAccess''],
      [JFunc, JParams [[JId ''f'', JId ''*FakeProvisionerClient'']], JId ''DriverRevokeBucketAccess''] @
        client_signature ''DriverRevokeBucketAccessRequest'' ''DriverRevokeBucketAccessResponse'' @ [calls_field ''FakeDriverRevokeBucketAccess'']]"

text \<open>The request of \<open>proto/Makefile\<close>.\<close>

definition cosi_request :: CodeGeneratorRequest where
  "cosi_request = \<lparr>cgr_Parameter = ''emit_defaults,packagePath=sigs.k8s.io/container-object-storage-interface/proto'',
     cgr_ProtoFile = [cosi_proto]\<rparr>"

lemma cosi_parameters:
  "package_path (parse_parameters (cgr_Parameter cosi_request)) = ''sigs.k8s.io/container-object-storage-interface/proto''"
  by code_simp

text \<open>The checked-in fakes are what the generator makes of the services.\<close>

lemma checked_in_fakes:
  "fake_file ''sigs.k8s.io/container-object-storage-interface/proto'' (services_of cosi_proto) =
     \<lparr>jf_Package = ''fake'', jf_Statements = FakeIdentityClient @ FakeProvisionerClient\<rparr>"
  by code_simp

theorem fake_clients_generated_witness:
  "\<exists>r f. fake_gen_main (\<lambda>_. ''rendered'') (\<lambda>_. 0) (\<lambda>_. Some cosi_request) Some (Some []) = Some [r] \<and>
     rf_Name r = ''cosi.pb.fake.go'' \<and> rf_Content r = ''rendered'' \<and>
     fakes ''sigs.k8s.io/container-object-storage-interface/proto'' cosi_proto f"
proof -
  have n: "named cosi_request" by code_simp
  have r: "replace_all ''.proto'' ''.pb.fake.go'' ''cosi.proto'' = ''cosi.pb.fake.go''" by code_simp
  obtain files out where o: "fake_gen_main (\<lambda>_. ''rendered'') (\<lambda>_. 0) (\<lambda>_. Some cosi_request) Some (Some []) = Some out"
      "mset files = {#cosi_proto#}"
      "list_all2 (\<lambda>p r. \<exists>f. rf_Name r = replace_all ''.proto'' ''.pb.fake.go'' (the (fd_Name p)) \<and> rf_Content r = ''rendered'' \<and>
        fakes ''sigs.k8s.io/container-object-storage-interface/proto'' p f) files out"
    using fake_clients_generated [where unmarshal = "\<lambda>_. Some cosi_request", OF refl n, of "\<lambda>_. ''rendered''" "\<lambda>_. 0" Some "[]"]
    unfolding cosi_parameters
    by (auto simp: cosi_request_def)
  from o(2) have "files = [cosi_proto]" by simp
  moreover have "the (fd_Name cosi_proto) = ''cosi.proto''" by (simp add: cosi_proto_def)
  ultimately show ?thesis using o r by (auto simp: list_all2_Cons1)
qed

end
