(* ===== verification/Go_Memory.thy ===== *)
theory Go_Memory
  imports Go_Prelude "HOL-Library.List_Lexorder" "HOL-Library.Char_ord"
begin

text \<open>
  Memory as the generated copy functions use it: a list of cells, whose indices are the addresses. Allocation appends a
  cell, so what is in memory before a copy is a prefix of what is there after it. Slices, maps and pointers
  are addresses, or \<open>None\<close> for nil; a struct is a record that holds them. The contract of a copy function and the
  steps it is composed of are here; the functions themselves are in \<open>Deep_Copy\<close>.
\<close>

type_synonym ptr = "nat option"

subsection \<open>The contract\<close>

text \<open>\<open>view\<close> reads a struct with everything it points to, and is \<open>None\<close> if a pointer does not lead to a
  cell of its type. What was read is read again in any larger memory. A copy only allocates, and the copy is read as
  the original was, whatever becomes of the cells that were there before: it shares no cell with the original.\<close>

locale deep_copy =
  fixes into :: "'c list \<Rightarrow> 'm \<Rightarrow> 'm \<times> 'c list" and view :: "'c list \<Rightarrow> 'm \<Rightarrow> 'v option"
  assumes view_more: "view h x = Some v \<Longrightarrow> view (h @ e) x = Some v"
    and copies: "view h x = Some v \<Longrightarrow> \<exists>y e. into h x = (y, h @ e) \<and> (\<forall>g. length g = length h \<longrightarrow> view (g @ e) y = Some v)"
begin

lemma original_kept: "view h x = Some v \<Longrightarrow> into h x = (y, h') \<Longrightarrow> view h' x = Some v"
  using copies [of h x v] view_more by auto

lemma copy_reads: "view h x = Some v \<Longrightarrow> into h x = (y, h') \<Longrightarrow> view h' y = Some v"
  using copies [of h x v] by auto

text \<open>A write to a cell of one of the two is not seen by the other.\<close>

lemma original_unaffected:
  assumes "view h x = Some v" and "into h x = (y, h')" and "length h \<le> a"
  shows "view (h'[a := c]) x = Some v"
proof -
  obtain e where "h' = h @ e" using copies [OF assms(1)] assms(2) by auto
  then have "h'[a := c] = h @ e[a - length h := c]" using assms(3) by (simp add: list_update_append)
  then show ?thesis using view_more [OF assms(1)] by simp
qed

lemma copy_unaffected:
  assumes "view h x = Some v" and "into h x = (y, h')" and "a < length h"
  shows "view (h'[a := c]) y = Some v"
proof -
  obtain e where e: "h' = h @ e" "\<forall>g. length g = length h \<longrightarrow> view (g @ e) y = Some v" using copies [OF assms(1)] assms(2) by auto
  then have "h'[a := c] = h[a := c] @ e" using assms(3) by (simp add: list_update_append)
  then show ?thesis using e(2) by simp
qed

end

subsection \<open>The steps\<close>

text \<open>Plain assignment, for values without pointers.\<close>

definition assign :: "'c list \<Rightarrow> 'm \<Rightarrow> 'm \<times> 'c list" where
  "assign h x = (x, h)"

definition view_plain :: "'c list \<Rightarrow> 'm \<Rightarrow> 'm option" where
  "view_plain h x = Some x"

interpretation plain: deep_copy assign view_plain
  by unfold_locales (auto simp: assign_def view_plain_def)

text \<open>\<open>new\<close> or \<open>make\<close>, then a copy of what the pointer leads to: the fresh cell is first given the content to be
  copied, then the copy. \<open>proj\<close> is the content of a cell of the pointer's type.\<close>

definition deref :: "('c \<Rightarrow> 'm option) \<Rightarrow> 'c list \<Rightarrow> nat \<Rightarrow> 'm option" where
  "deref proj h p = (if p < length h then proj (h ! p) else None)"

definition copy_new ::
  "('m \<Rightarrow> 'c) \<Rightarrow> ('c \<Rightarrow> 'm option) \<Rightarrow> ('c list \<Rightarrow> 'm \<Rightarrow> 'm \<times> 'c list) \<Rightarrow> 'c list \<Rightarrow> ptr \<Rightarrow> ptr \<times> 'c list" where
  "copy_new cell proj into h p =
     (case p of
        None \<Rightarrow> (None, h)
      | Some a \<Rightarrow>
          (case deref proj h a of
             None \<Rightarrow> (p, h)
           | Some x \<Rightarrow> (let (y, h') = into (h @ [cell x]) x in (Some (length h), h'[length h := cell y]))))"

definition view_ptr :: "('c \<Rightarrow> 'm option) \<Rightarrow> ('c list \<Rightarrow> 'm \<Rightarrow> 'v option) \<Rightarrow> 'c list \<Rightarrow> ptr \<Rightarrow> 'v option option" where
  "view_ptr proj view h p =
     (case p of None \<Rightarrow> Some None
      | Some a \<Rightarrow> (case deref proj h a of None \<Rightarrow> None | Some x \<Rightarrow> map_option Some (view h x)))"

lemma deref_more: "deref proj h a = Some x \<Longrightarrow> deref proj (h @ e) a = Some x"
  by (auto simp: deref_def nth_append split: if_splits)

lemma deref_new: "proj c = Some x \<Longrightarrow> deref proj (g @ c # e) (length g) = Some x"
  by (simp add: deref_def)

lemma deep_copy_new:
  assumes "deep_copy into view" and "\<And>x. proj (cell x) = Some x"
  shows "deep_copy (copy_new cell proj into) (view_ptr proj view)"
proof
  show "view_ptr proj view (h @ e) p = Some v" if "view_ptr proj view h p = Some v" for h p v e
    using that deep_copy.view_more [OF assms(1)] deref_more [of proj h _ _ e]
    by (fastforce simp: view_ptr_def split: option.splits)
  show "\<exists>q e. copy_new cell proj into h p = (q, h @ e) \<and> (\<forall>g. length g = length h \<longrightarrow> view_ptr proj view (g @ e) q = Some v)"
    if v: "view_ptr proj view h p = Some v" for h p v
  proof (cases p)
    case (Some a)
    then obtain x w where x: "deref proj h a = Some x" "view h x = Some w" "v = Some w"
      using v by (auto simp: view_ptr_def split: option.splits)
    obtain y e where y: "into (h @ [cell x]) x = (y, (h @ [cell x]) @ e)"
        "\<forall>g. length g = length (h @ [cell x]) \<longrightarrow> view (g @ e) y = Some w"
      using deep_copy.copies [OF assms(1) deep_copy.view_more [OF assms(1) x(2)]] by blast
    have "copy_new cell proj into h p = (Some (length h), h @ cell y # e)"
      using Some x y(1) by (simp add: copy_new_def list_update_append)
    moreover have "view_ptr proj view (g @ cell y # e) (Some (length h)) = Some v" if "length g = length h" for g
      using y(2) [rule_format, of "g @ [cell y]"] that deref_new [where proj = proj, OF assms(2) [of y], of g e] x(3) by (simp add: view_ptr_def)
    ultimately show ?thesis by blast
  qed (use v in \<open>auto simp: copy_new_def view_ptr_def\<close>)
qed

text \<open>The loop over the elements of a slice.\<close>

fun copy_each :: "('c list \<Rightarrow> 'm \<Rightarrow> 'm \<times> 'c list) \<Rightarrow> 'c list \<Rightarrow> 'm list \<Rightarrow> 'm list \<times> 'c list" where
  "copy_each into h [] = ([], h)"
| "copy_each into h (x # xs) = (let (y, h1) = into h x; (ys, h2) = copy_each into h1 xs in (y # ys, h2))"

fun view_each :: "('c list \<Rightarrow> 'm \<Rightarrow> 'v option) \<Rightarrow> 'c list \<Rightarrow> 'm list \<Rightarrow> 'v list option" where
  "view_each view h [] = Some []"
| "view_each view h (x # xs) =
     (case (view h x, view_each view h xs) of (Some v, Some vs) \<Rightarrow> Some (v # vs) | _ \<Rightarrow> None)"

lemma deep_copy_each:
  assumes "deep_copy into view"
  shows "deep_copy (copy_each into) (view_each view)"
proof
  show more: "view_each view (h @ e) xs = Some vs" if "view_each view h xs = Some vs" for h xs vs e
    using that deep_copy.view_more [OF assms]
    by (induction xs arbitrary: vs) (auto split: option.splits)
  show "\<exists>ys e. copy_each into h xs = (ys, h @ e) \<and> (\<forall>g. length g = length h \<longrightarrow> view_each view (g @ e) ys = Some vs)"
    if "view_each view h xs = Some vs" for h xs vs
    using that
  proof (induction xs arbitrary: h vs)
    case (Cons x xs)
    then obtain w ws where w: "view h x = Some w" "view_each view h xs = Some ws" "vs = w # ws"
      by (auto split: option.splits)
    obtain y e where y: "into h x = (y, h @ e)" "\<forall>g. length g = length h \<longrightarrow> view (g @ e) y = Some w"
      using deep_copy.copies [OF assms w(1)] by blast
    obtain ys d where ys: "copy_each into (h @ e) xs = (ys, (h @ e) @ d)"
        "\<forall>g. length g = length (h @ e) \<longrightarrow> view_each view (g @ d) ys = Some ws"
      using Cons.IH [OF more [OF w(2)]] by blast
    have "view_each view (g @ e @ d) (y # ys) = Some vs" if "length g = length h" for g
      using deep_copy.view_more [OF assms y(2) [rule_format, OF that], of d] ys(2) [rule_format, of "g @ e"] that w(3) by simp
    moreover have "copy_each into h (x # xs) = (y # ys, h @ e @ d)" using y(1) ys(1) by simp
    ultimately show ?case by blast
  qed simp
qed

text \<open>The loop over the entries of a map, in an order that may be another one each time. A map is read as its entries
  by key.\<close>

definition copy_entries :: "('c list \<Rightarrow> string \<Rightarrow> nat) \<Rightarrow> 'c list \<Rightarrow> (string, string) gomap \<Rightarrow> (string, string) gomap \<times> 'c list" where
  "copy_entries order h m = (fold (\<lambda>(key, val). gput key val) (range_map (order h) m) [], h)"

definition view_entries :: "'c list \<Rightarrow> (string, string) gomap \<Rightarrow> (string, string) gomap option" where
  "view_entries h m = (if distinct (gkeys m) then Some (sort_key fst m) else None)"

lemma entries_by_key:
  assumes "distinct (gkeys m)" and "distinct (gkeys m')" and "map_of m = map_of m'"
  shows "sort_key fst m = sort_key fst m'"
proof (rule map_sorted_distinct_set_unique [where f = fst])
  have "set m = set m'" using map_of_inject_set [OF assms(1,2)] assms(3) by simp
  then show "set (sort_key fst m) = set (sort_key fst m')" and "inj_on fst (set (sort_key fst m) \<union> set (sort_key fst m'))"
    using assms(1) by (simp_all add: distinct_map)
qed (use assms in \<open>simp_all add: distinct_map\<close>)

interpretation entries: deep_copy "copy_entries order" view_entries for order
proof
  show "view_entries (h @ e) m = Some v" if "view_entries h m = Some v" for h e m v
    using that by (simp add: view_entries_def split: if_splits)
  show "\<exists>n e. copy_entries order h m = (n, h @ e) \<and> (\<forall>g. length g = length h \<longrightarrow> view_entries (g @ e) n = Some v)"
    if "view_entries h m = Some v" for h m v
  proof -
    let ?n = "fold (\<lambda>(key, val). gput key val) (range_map (order h) m) []"
    have m: "distinct (gkeys m)" "v = sort_key fst m" using that by (simp_all add: view_entries_def split: if_splits)
    have "map_of ?n = map_of m" using range_map_copy [OF m(1), of "order h" "[]"] by simp
    moreover have "distinct (gkeys ?n)" by (rule alist.ok_fold_put) simp
    ultimately have "view_entries g ?n = Some v" for g using m entries_by_key [of ?n m] by (simp add: view_entries_def)
    then show ?thesis by (auto simp: copy_entries_def)
  qed
qed

text \<open>Two fields, one after the other.\<close>

definition copy_both ::
  "('c list \<Rightarrow> 'm \<Rightarrow> 'm \<times> 'c list) \<Rightarrow> ('c list \<Rightarrow> 'n \<Rightarrow> 'n \<times> 'c list) \<Rightarrow> 'c list \<Rightarrow> 'm \<times> 'n \<Rightarrow> ('m \<times> 'n) \<times> 'c list" where
  "copy_both into into' h x = (let (y, h1) = into h (fst x); (z, h2) = into' h1 (snd x) in ((y, z), h2))"

definition view_both ::
  "('c list \<Rightarrow> 'm \<Rightarrow> 'v option) \<Rightarrow> ('c list \<Rightarrow> 'n \<Rightarrow> 'w option) \<Rightarrow> 'c list \<Rightarrow> 'm \<times> 'n \<Rightarrow> ('v \<times> 'w) option" where
  "view_both view view' h x = (case (view h (fst x), view' h (snd x)) of (Some v, Some w) \<Rightarrow> Some (v, w) | _ \<Rightarrow> None)"

lemma deep_copy_both:
  assumes "deep_copy into view" and "deep_copy into' view'"
  shows "deep_copy (copy_both into into') (view_both view view')"
proof
  show "view_both view view' (h @ e) x = Some v" if "view_both view view' h x = Some v" for h x v e
    using that deep_copy.view_more [OF assms(1), of h] deep_copy.view_more [OF assms(2), of h]
    by (auto simp: view_both_def split: option.splits)
  show "\<exists>y e. copy_both into into' h x = (y, h @ e) \<and> (\<forall>g. length g = length h \<longrightarrow> view_both view view' (g @ e) y = Some v)"
    if v: "view_both view view' h x = Some v" for h x v
  proof -
    obtain u w where w: "view h (fst x) = Some u" "view' h (snd x) = Some w" "v = (u, w)"
      using v by (auto simp: view_both_def split: option.splits)
    obtain y e where y: "into h (fst x) = (y, h @ e)" "\<forall>g. length g = length h \<longrightarrow> view (g @ e) y = Some u"
      using deep_copy.copies [OF assms(1) w(1)] by blast
    obtain z d where z: "into' (h @ e) (snd x) = (z, (h @ e) @ d)" "\<forall>g. length g = length (h @ e) \<longrightarrow> view' (g @ d) z = Some w"
      using deep_copy.copies [OF assms(2) deep_copy.view_more [OF assms(2) w(2)]] by blast
    have "view_both view view' (g @ e @ d) (y, z) = Some v" if "length g = length h" for g
      using deep_copy.view_more [OF assms(1) y(2) [rule_format, OF that], of d] z(2) [rule_format, of "g @ e"] that w(3)
      by (simp add: view_both_def)
    moreover have "copy_both into into' h x = ((y, z), h @ e @ d)" using y(1) z(1) by (simp add: copy_both_def)
    ultimately show ?thesis by blast
  qed
qed

text \<open>A struct, copied by assignment and then field by field where a field has pointers.\<close>

lemma deep_copy_struct:
  assumes "deep_copy into view" and "\<And>h s. into' h s = (let (y, h') = into h (get s) in (put y s, h'))"
    and "\<And>h s. view' h s = map_option (build s) (view h (get s))" and "\<And>y s. get (put y s) = y" and "\<And>y s v. build (put y s) v = build s v"
  shows "deep_copy into' view'"
proof
  show "view' (h @ e) s = Some v" if "view' h s = Some v" for h s v e
    using that deep_copy.view_more [OF assms(1), of h] by (auto simp: assms(3))
  show "\<exists>t e. into' h s = (t, h @ e) \<and> (\<forall>g. length g = length h \<longrightarrow> view' (g @ e) t = Some v)" if v: "view' h s = Some v" for h s v
  proof -
    obtain w where w: "view h (get s) = Some w" "v = build s w" using v by (auto simp: assms(3))
    obtain y e where "into h (get s) = (y, h @ e)" "\<forall>g. length g = length h \<longrightarrow> view (g @ e) y = Some w"
      using deep_copy.copies [OF assms(1) w(1)] by blast
    then show ?thesis using w(2) by (auto simp: assms(2-5))
  qed
qed

end
