(* ===== verification/Deep_Copy.thy ===== *)
theory Deep_Copy
  imports Go_Memory Cosi_Api
begin

text \<open>
  \<open>client/apis/objectstorage/v1alpha2/zz_generated.deepcopy.go\<close>: the generated copy functions of the API types, over memory
  (\<open>Go_Memory\<close>), with those of the vendored metadata types they call. Reconcilers and caches rely on them: an
  object from a cache is copied before it is changed. Here are the parts of the objects; the objects and
  lists are in \<open>Deep_Copy_Objects\<close>. The values that are read are those of \<open>Cosi_Api\<close>, in which nil and empty slices and maps
  are the same, together with the metadata no reconciler uses (\<open>MoreMeta\<close>). A \<open>metav1.Time\<close> is copied by assignment, as its
  \<open>DeepCopyInto\<close> does.
\<close>

record TypeMeta =
  tm_Kind :: string
  tm_APIVersion :: string

record ListMeta =
  lm_SelfLink :: string
  lm_ResourceVersion :: string
  lm_Continue :: string
  lm_RemainingItemCount :: "int option"

record FieldsV1 =
  fv_Raw :: string

record ManagedFieldsEntry =
  mf_Manager :: string
  mf_Operation :: string
  mf_APIVersion :: string
  mf_Time :: "time option"
  mf_FieldsType :: string
  mf_FieldsV1 :: "FieldsV1 option"
  mf_Subresource :: string

text \<open>The fields of \<open>ObjectMeta\<close> that are not in the record of \<open>Cosi_Api\<close>.\<close>

record MoreMeta =
  mm_GenerateName :: string
  mm_SelfLink :: string
  mm_CreationTimestamp :: time
  mm_DeletionGracePeriodSeconds :: "int option"
  mm_Labels :: "(string, string) gomap"
  mm_ManagedFields :: "ManagedFieldsEntry list"

subsection \<open>Structs in memory\<close>

record TimestampedError_mem =
  tem_Time :: ptr
  tem_Message :: ptr

record OwnerReference_mem =
  orm_APIVersion :: string
  orm_Kind :: string
  orm_Name :: string
  orm_UID :: UID
  orm_Controller :: ptr
  orm_BlockOwnerDeletion :: ptr

record FieldsV1_mem =
  fvm_Raw :: ptr

record ManagedFieldsEntry_mem =
  mfm_Manager :: string
  mfm_Operation :: string
  mfm_APIVersion :: string
  mfm_FieldsType :: string
  mfm_Subresource :: string
  mfm_Time :: ptr
  mfm_FieldsV1 :: ptr

record ObjectMeta_mem =
  omm_Name :: string
  omm_GenerateName :: string
  omm_Namespace :: string
  omm_SelfLink :: string
  omm_UID :: UID
  omm_ResourceVersion :: nat
  omm_Generation :: nat
  omm_CreationTimestamp :: time
  omm_DeletionTimestamp :: ptr
  omm_DeletionGracePeriodSeconds :: ptr
  omm_Labels :: ptr
  omm_Annotations :: ptr
  omm_OwnerReferences :: ptr
  omm_Finalizers :: ptr
  omm_ManagedFields :: ptr

record ListMeta_mem =
  lmm_SelfLink :: string
  lmm_ResourceVersion :: string
  lmm_Continue :: string
  lmm_RemainingItemCount :: ptr

record BucketClassSpec_mem =
  bclsm_DriverName :: string
  bclsm_DeletionPolicy :: BucketDeletionPolicy
  bclsm_Parameters :: ptr

record BucketAccessClassSpec_mem =
  baclsm_DriverName :: string
  baclsm_AuthenticationType :: BucketAccessAuthenticationType
  baclsm_MultiBucketAccess :: MultiBucketAccess
  baclsm_Parameters :: ptr
  baclsm_DisallowedBucketAccessModes :: ptr

record BucketClaimSpec_mem =
  bcsm_BucketClassName :: string
  bcsm_ExistingBucketName :: string
  bcsm_Protocols :: ptr

record BucketClaimStatus_mem =
  bctm_BoundBucketName :: string
  bctm_ReadyToUse :: ptr
  bctm_Protocols :: ptr
  bctm_Error :: ptr

record BucketSpec_mem =
  bsm_DriverName :: string
  bsm_DeletionPolicy :: BucketDeletionPolicy
  bsm_BucketClaimRef :: BucketClaimReference
  bsm_ExistingBucketID :: string
  bsm_Parameters :: ptr
  bsm_Protocols :: ptr

record BucketStatus_mem =
  btm_BucketID :: string
  btm_ReadyToUse :: ptr
  btm_Protocols :: ptr
  btm_BucketInfo :: ptr
  btm_Error :: ptr

record BucketAccessSpec_mem =
  basm_BucketAccessClassName :: string
  basm_Protocol :: ObjectProtocol
  basm_ServiceAccountName :: string
  basm_BucketClaims :: ptr

record BucketAccessStatus_mem =
  batm_AccountID :: string
  batm_DriverName :: string
  batm_AuthenticationType :: BucketAccessAuthenticationType
  batm_ReadyToUse :: ptr
  batm_AccessedBuckets :: ptr
  batm_Parameters :: ptr
  batm_Error :: ptr

record BucketClass_mem =
  bclm_TypeMeta :: TypeMeta
  bclm_ObjectMeta :: ObjectMeta_mem
  bclm_Spec :: BucketClassSpec_mem

record BucketAccessClass_mem =
  baclm_TypeMeta :: TypeMeta
  baclm_ObjectMeta :: ObjectMeta_mem
  baclm_Spec :: BucketAccessClassSpec_mem

record BucketClaim_mem =
  bcm_TypeMeta :: TypeMeta
  bcm_ObjectMeta :: ObjectMeta_mem
  bcm_Spec :: BucketClaimSpec_mem
  bcm_Status :: BucketClaimStatus_mem

record Bucket_mem =
  bm_TypeMeta :: TypeMeta
  bm_ObjectMeta :: ObjectMeta_mem
  bm_Spec :: BucketSpec_mem
  bm_Status :: BucketStatus_mem

record BucketAccess_mem =
  bam_TypeMeta :: TypeMeta
  bam_ObjectMeta :: ObjectMeta_mem
  bam_Spec :: BucketAccessSpec_mem
  bam_Status :: BucketAccessStatus_mem

record BucketClassList_mem =
  bcllm_TypeMeta :: TypeMeta
  bcllm_ListMeta :: ListMeta_mem
  bcllm_Items :: ptr

record BucketAccessClassList_mem =
  bacllm_TypeMeta :: TypeMeta
  bacllm_ListMeta :: ListMeta_mem
  bacllm_Items :: ptr

record BucketClaimList_mem =
  bclaimlm_TypeMeta :: TypeMeta
  bclaimlm_ListMeta :: ListMeta_mem
  bclaimlm_Items :: ptr

record BucketList_mem =
  blm_TypeMeta :: TypeMeta
  blm_ListMeta :: ListMeta_mem
  blm_Items :: ptr

record BucketAccessList_mem =
  balm_TypeMeta :: TypeMeta
  balm_ListMeta :: ListMeta_mem
  balm_Items :: ptr

text \<open>What a cell can hold: the target of a pointer, or the elements of a slice or map.\<close>

datatype cell = CBool bool
  | CString string
  | CTime time
  | CInt int
  | CStrings "string list"
  | CMap "(string, string) gomap"
  | CClaims "BucketClaimAccess list"
  | CAccessed "AccessedBucket list"
  | COwners "OwnerReference_mem list"
  | CBytes string
  | CManagedFields "ManagedFieldsEntry_mem list"
  | CAccessedBucket AccessedBucket
  | CBucketClaimAccess BucketClaimAccess
  | CBucketClaimReference BucketClaimReference
  | CTimestampedError TimestampedError_mem
  | CFieldsV1 FieldsV1_mem
  | CBucketClassSpec BucketClassSpec_mem
  | CBucketAccessClassSpec BucketAccessClassSpec_mem
  | CBucketClaimSpec BucketClaimSpec_mem
  | CBucketClaimStatus BucketClaimStatus_mem
  | CBucketSpec BucketSpec_mem
  | CBucketStatus BucketStatus_mem
  | CBucketAccessSpec BucketAccessSpec_mem
  | CBucketAccessStatus BucketAccessStatus_mem
  | CBucketClass BucketClass_mem
  | CBucketAccessClass BucketAccessClass_mem
  | CBucketClaim BucketClaim_mem
  | CBucket Bucket_mem
  | CBucketAccess BucketAccess_mem
  | CBucketClassList BucketClassList_mem
  | CBucketAccessClassList BucketAccessClassList_mem
  | CBucketClaimList BucketClaimList_mem
  | CBucketList BucketList_mem
  | CBucketAccessList BucketAccessList_mem
  | CBucketClassItems "BucketClass_mem list"
  | CBucketAccessClassItems "BucketAccessClass_mem list"
  | CBucketClaimItems "BucketClaim_mem list"
  | CBucketItems "Bucket_mem list"
  | CBucketAccessItems "BucketAccess_mem list"

type_synonym memory = "cell list"

text \<open>The order in which the keys of a map are visited, which may be another one at each loop.\<close>

type_synonym key_order = "memory \<Rightarrow> string \<Rightarrow> nat"

definition as_bool :: "cell \<Rightarrow> bool option" where
  "as_bool c = (case c of CBool x \<Rightarrow> Some x | _ \<Rightarrow> None)"

definition as_string :: "cell \<Rightarrow> string option" where
  "as_string c = (case c of CString x \<Rightarrow> Some x | _ \<Rightarrow> None)"

definition as_time :: "cell \<Rightarrow> time option" where
  "as_time c = (case c of CTime x \<Rightarrow> Some x | _ \<Rightarrow> None)"

definition as_int :: "cell \<Rightarrow> int option" where
  "as_int c = (case c of CInt x \<Rightarrow> Some x | _ \<Rightarrow> None)"

definition as_strings :: "cell \<Rightarrow> (string list) option" where
  "as_strings c = (case c of CStrings x \<Rightarrow> Some x | _ \<Rightarrow> None)"

definition as_map :: "cell \<Rightarrow> ((string, string) gomap) option" where
  "as_map c = (case c of CMap x \<Rightarrow> Some x | _ \<Rightarrow> None)"

definition as_claims :: "cell \<Rightarrow> (BucketClaimAccess list) option" where
  "as_claims c = (case c of CClaims x \<Rightarrow> Some x | _ \<Rightarrow> None)"

definition as_accessed :: "cell \<Rightarrow> (AccessedBucket list) option" where
  "as_accessed c = (case c of CAccessed x \<Rightarrow> Some x | _ \<Rightarrow> None)"

definition as_owners :: "cell \<Rightarrow> (OwnerReference_mem list) option" where
  "as_owners c = (case c of COwners x \<Rightarrow> Some x | _ \<Rightarrow> None)"

definition as_bytes :: "cell \<Rightarrow> string option" where
  "as_bytes c = (case c of CBytes x \<Rightarrow> Some x | _ \<Rightarrow> None)"

definition as_managed :: "cell \<Rightarrow> (ManagedFieldsEntry_mem list) option" where
  "as_managed c = (case c of CManagedFields x \<Rightarrow> Some x | _ \<Rightarrow> None)"

definition as_AccessedBucket :: "cell \<Rightarrow> AccessedBucket option" where
  "as_AccessedBucket c = (case c of CAccessedBucket x \<Rightarrow> Some x | _ \<Rightarrow> None)"

definition as_BucketClaimAccess :: "cell \<Rightarrow> BucketClaimAccess option" where
  "as_BucketClaimAccess c = (case c of CBucketClaimAccess x \<Rightarrow> Some x | _ \<Rightarrow> None)"

definition as_BucketClaimReference :: "cell \<Rightarrow> BucketClaimReference option" where
  "as_BucketClaimReference c = (case c of CBucketClaimReference x \<Rightarrow> Some x | _ \<Rightarrow> None)"

definition as_TimestampedError :: "cell \<Rightarrow> TimestampedError_mem option" where
  "as_TimestampedError c = (case c of CTimestampedError x \<Rightarrow> Some x | _ \<Rightarrow> None)"

definition as_FieldsV1 :: "cell \<Rightarrow> FieldsV1_mem option" where
  "as_FieldsV1 c = (case c of CFieldsV1 x \<Rightarrow> Some x | _ \<Rightarrow> None)"

definition as_BucketClassSpec :: "cell \<Rightarrow> BucketClassSpec_mem option" where
  "as_BucketClassSpec c = (case c of CBucketClassSpec x \<Rightarrow> Some x | _ \<Rightarrow> None)"

definition as_BucketAccessClassSpec :: "cell \<Rightarrow> BucketAccessClassSpec_mem option" where
  "as_BucketAccessClassSpec c = (case c of CBucketAccessClassSpec x \<Rightarrow> Some x | _ \<Rightarrow> None)"

definition as_BucketClaimSpec :: "cell \<Rightarrow> BucketClaimSpec_mem option" where
  "as_BucketClaimSpec c = (case c of CBucketClaimSpec x \<Rightarrow> Some x | _ \<Rightarrow> None)"

definition as_BucketClaimStatus :: "cell \<Rightarrow> BucketClaimStatus_mem option" where
  "as_BucketClaimStatus c = (case c of CBucketClaimStatus x \<Rightarrow> Some x | _ \<Rightarrow> None)"

definition as_BucketSpec :: "cell \<Rightarrow> BucketSpec_mem option" where
  "as_BucketSpec c = (case c of CBucketSpec x \<Rightarrow> Some x | _ \<Rightarrow> None)"

definition as_BucketStatus :: "cell \<Rightarrow> BucketStatus_mem option" where
  "as_BucketStatus c = (case c of CBucketStatus x \<Rightarrow> Some x | _ \<Rightarrow> None)"

definition as_BucketAccessSpec :: "cell \<Rightarrow> BucketAccessSpec_mem option" where
  "as_BucketAccessSpec c = (case c of CBucketAccessSpec x \<Rightarrow> Some x | _ \<Rightarrow> None)"

definition as_BucketAccessStatus :: "cell \<Rightarrow> BucketAccessStatus_mem option" where
  "as_BucketAccessStatus c = (case c of CBucketAccessStatus x \<Rightarrow> Some x | _ \<Rightarrow> None)"

definition as_BucketClass :: "cell \<Rightarrow> BucketClass_mem option" where
  "as_BucketClass c = (case c of CBucketClass x \<Rightarrow> Some x | _ \<Rightarrow> None)"

definition as_BucketAccessClass :: "cell \<Rightarrow> BucketAccessClass_mem option" where
  "as_BucketAccessClass c = (case c of CBucketAccessClass x \<Rightarrow> Some x | _ \<Rightarrow> None)"

definition as_BucketClaim :: "cell \<Rightarrow> BucketClaim_mem option" where
  "as_BucketClaim c = (case c of CBucketClaim x \<Rightarrow> Some x | _ \<Rightarrow> None)"

definition as_Bucket :: "cell \<Rightarrow> Bucket_mem option" where
  "as_Bucket c = (case c of CBucket x \<Rightarrow> Some x | _ \<Rightarrow> None)"

definition as_BucketAccess :: "cell \<Rightarrow> BucketAccess_mem option" where
  "as_BucketAccess c = (case c of CBucketAccess x \<Rightarrow> Some x | _ \<Rightarrow> None)"

definition as_BucketClassList :: "cell \<Rightarrow> BucketClassList_mem option" where
  "as_BucketClassList c = (case c of CBucketClassList x \<Rightarrow> Some x | _ \<Rightarrow> None)"

definition as_BucketAccessClassList :: "cell \<Rightarrow> BucketAccessClassList_mem option" where
  "as_BucketAccessClassList c = (case c of CBucketAccessClassList x \<Rightarrow> Some x | _ \<Rightarrow> None)"

definition as_BucketClaimList :: "cell \<Rightarrow> BucketClaimList_mem option" where
  "as_BucketClaimList c = (case c of CBucketClaimList x \<Rightarrow> Some x | _ \<Rightarrow> None)"

definition as_BucketList :: "cell \<Rightarrow> BucketList_mem option" where
  "as_BucketList c = (case c of CBucketList x \<Rightarrow> Some x | _ \<Rightarrow> None)"

definition as_BucketAccessList :: "cell \<Rightarrow> BucketAccessList_mem option" where
  "as_BucketAccessList c = (case c of CBucketAccessList x \<Rightarrow> Some x | _ \<Rightarrow> None)"

definition as_BucketClassItems :: "cell \<Rightarrow> (BucketClass_mem list) option" where
  "as_BucketClassItems c = (case c of CBucketClassItems x \<Rightarrow> Some x | _ \<Rightarrow> None)"

definition as_BucketAccessClassItems :: "cell \<Rightarrow> (BucketAccessClass_mem list) option" where
  "as_BucketAccessClassItems c = (case c of CBucketAccessClassItems x \<Rightarrow> Some x | _ \<Rightarrow> None)"

definition as_BucketClaimItems :: "cell \<Rightarrow> (BucketClaim_mem list) option" where
  "as_BucketClaimItems c = (case c of CBucketClaimItems x \<Rightarrow> Some x | _ \<Rightarrow> None)"

definition as_BucketItems :: "cell \<Rightarrow> (Bucket_mem list) option" where
  "as_BucketItems c = (case c of CBucketItems x \<Rightarrow> Some x | _ \<Rightarrow> None)"

definition as_BucketAccessItems :: "cell \<Rightarrow> (BucketAccess_mem list) option" where
  "as_BucketAccessItems c = (case c of CBucketAccessItems x \<Rightarrow> Some x | _ \<Rightarrow> None)"

lemmas as_defs = as_bool_def as_string_def as_time_def as_int_def as_strings_def as_map_def as_claims_def as_accessed_def as_owners_def
   as_bytes_def as_managed_def as_AccessedBucket_def as_BucketClaimAccess_def as_BucketClaimReference_def as_TimestampedError_def
   as_FieldsV1_def as_BucketClassSpec_def as_BucketAccessClassSpec_def as_BucketClaimSpec_def as_BucketClaimStatus_def as_BucketSpec_def
   as_BucketStatus_def as_BucketAccessSpec_def as_BucketAccessStatus_def as_BucketClass_def as_BucketAccessClass_def as_BucketClaim_def
   as_Bucket_def as_BucketAccess_def as_BucketClassList_def as_BucketAccessClassList_def as_BucketClaimList_def as_BucketList_def
   as_BucketAccessList_def as_BucketClassItems_def as_BucketAccessClassItems_def as_BucketClaimItems_def as_BucketItems_def as_BucketAccessItems_def

subsection \<open>Fields\<close>

text \<open>The copies of fields that are pointers to plain values, slices of plain values, or maps.\<close>

definition or_empty :: "'a list option \<Rightarrow> 'a list" where
  "or_empty xs = (case xs of None \<Rightarrow> [] | Some l \<Rightarrow> l)"

abbreviation copy_bool :: "memory \<Rightarrow> ptr \<Rightarrow> ptr \<times> memory" where "copy_bool \<equiv> copy_new CBool as_bool assign"
abbreviation copy_string :: "memory \<Rightarrow> ptr \<Rightarrow> ptr \<times> memory" where "copy_string \<equiv> copy_new CString
   as_string assign"
abbreviation copy_time :: "memory \<Rightarrow> ptr \<Rightarrow> ptr \<times> memory" where "copy_time \<equiv> copy_new CTime as_time assign"
abbreviation copy_int :: "memory \<Rightarrow> ptr \<Rightarrow> ptr \<times> memory" where "copy_int \<equiv> copy_new CInt as_int assign"
abbreviation copy_strings :: "memory \<Rightarrow> ptr \<Rightarrow> ptr \<times> memory" where "copy_strings \<equiv> copy_new CStrings
   as_strings assign"
abbreviation copy_bytes :: "memory \<Rightarrow> ptr \<Rightarrow> ptr \<times> memory" where "copy_bytes \<equiv> copy_new CBytes as_bytes assign"
abbreviation copy_claims :: "memory \<Rightarrow> ptr \<Rightarrow> ptr \<times> memory" where "copy_claims \<equiv> copy_new CClaims
   as_claims assign"
abbreviation copy_accessed :: "memory \<Rightarrow> ptr \<Rightarrow> ptr \<times> memory" where "copy_accessed \<equiv> copy_new CAccessed
   as_accessed assign"
abbreviation copy_map :: "key_order \<Rightarrow> memory \<Rightarrow> ptr \<Rightarrow> ptr \<times> memory" where
  "copy_map order \<equiv> copy_new CMap as_map (copy_entries order)"

abbreviation view_bool :: "memory \<Rightarrow> ptr \<Rightarrow> bool option option" where "view_bool \<equiv> view_ptr as_bool view_plain"
abbreviation view_string :: "memory \<Rightarrow> ptr \<Rightarrow> string option option" where "view_string \<equiv> view_ptr as_string view_plain"
abbreviation view_time :: "memory \<Rightarrow> ptr \<Rightarrow> time option option" where "view_time \<equiv> view_ptr as_time view_plain"
abbreviation view_int :: "memory \<Rightarrow> ptr \<Rightarrow> int option option" where "view_int \<equiv> view_ptr as_int view_plain"
abbreviation view_strings :: "memory \<Rightarrow> ptr \<Rightarrow> string list option option" where "view_strings \<equiv> view_ptr
   as_strings view_plain"
abbreviation view_bytes :: "memory \<Rightarrow> ptr \<Rightarrow> string option option" where "view_bytes \<equiv> view_ptr as_bytes view_plain"
abbreviation view_claims :: "memory \<Rightarrow> ptr \<Rightarrow> BucketClaimAccess list option option" where "view_claims \<equiv>
   view_ptr as_claims view_plain"
abbreviation view_accessed :: "memory \<Rightarrow> ptr \<Rightarrow> AccessedBucket list option option" where "view_accessed \<equiv>
   view_ptr as_accessed view_plain"
abbreviation view_map :: "memory \<Rightarrow> ptr \<Rightarrow> (string,
   string) gomap option option" where "view_map \<equiv> view_ptr as_map view_entries"

lemma deep_bool: "deep_copy copy_bool view_bool"
  by (rule deep_copy_new [OF plain.deep_copy_axioms]) (simp add: as_bool_def)

lemma deep_string: "deep_copy copy_string view_string"
  by (rule deep_copy_new [OF plain.deep_copy_axioms]) (simp add: as_string_def)

lemma deep_time: "deep_copy copy_time view_time"
  by (rule deep_copy_new [OF plain.deep_copy_axioms]) (simp add: as_time_def)

lemma deep_int: "deep_copy copy_int view_int"
  by (rule deep_copy_new [OF plain.deep_copy_axioms]) (simp add: as_int_def)

lemma deep_strings: "deep_copy copy_strings view_strings"
  by (rule deep_copy_new [OF plain.deep_copy_axioms]) (simp add: as_strings_def)

lemma deep_bytes: "deep_copy copy_bytes view_bytes"
  by (rule deep_copy_new [OF plain.deep_copy_axioms]) (simp add: as_bytes_def)

lemma deep_claims: "deep_copy copy_claims view_claims"
  by (rule deep_copy_new [OF plain.deep_copy_axioms]) (simp add: as_claims_def)

lemma deep_accessed: "deep_copy copy_accessed view_accessed"
  by (rule deep_copy_new [OF plain.deep_copy_axioms]) (simp add: as_accessed_def)

lemma deep_map: "deep_copy (copy_map order) view_map"
  by (rule deep_copy_new [OF entries.deep_copy_axioms]) (simp add: as_map_def)

subsection \<open>Structs without pointers, errors and metadata\<close>

definition AccessedBucket_DeepCopyInto :: "memory \<Rightarrow> AccessedBucket \<Rightarrow> AccessedBucket \<times> memory" where
  "AccessedBucket_DeepCopyInto h src = assign h src"

definition BucketClaimAccess_DeepCopyInto :: "memory \<Rightarrow> BucketClaimAccess \<Rightarrow> BucketClaimAccess \<times> memory" where
  "BucketClaimAccess_DeepCopyInto h src = assign h src"

definition BucketClaimReference_DeepCopyInto :: "memory \<Rightarrow> BucketClaimReference \<Rightarrow> BucketClaimReference \<times> memory" where
  "BucketClaimReference_DeepCopyInto h src = assign h src"

definition AccessedBucket_DeepCopy :: "memory \<Rightarrow> ptr \<Rightarrow> ptr \<times> memory" where
  "AccessedBucket_DeepCopy h p = copy_new CAccessedBucket as_AccessedBucket AccessedBucket_DeepCopyInto h p"

definition BucketClaimAccess_DeepCopy :: "memory \<Rightarrow> ptr \<Rightarrow> ptr \<times> memory" where
  "BucketClaimAccess_DeepCopy h p = copy_new CBucketClaimAccess as_BucketClaimAccess BucketClaimAccess_DeepCopyInto h p"

definition BucketClaimReference_DeepCopy :: "memory \<Rightarrow> ptr \<Rightarrow> ptr \<times> memory" where
  "BucketClaimReference_DeepCopy h p = copy_new CBucketClaimReference as_BucketClaimReference BucketClaimReference_DeepCopyInto h p"

definition TimestampedError_DeepCopyInto :: "memory \<Rightarrow> TimestampedError_mem \<Rightarrow> TimestampedError_mem \<times> memory" where
  "TimestampedError_DeepCopyInto h src =
     (let out = src;
          (t, h) = copy_time h (tem_Time src); out = out\<lparr>tem_Time := t\<rparr>;
          (m, h) = copy_string h (tem_Message src); out = out\<lparr>tem_Message := m\<rparr>
      in (out, h))"

definition TimestampedError_value :: "TimestampedError_mem \<Rightarrow> time option \<times> string option \<Rightarrow> TimestampedError" where
  "TimestampedError_value s = (\<lambda>(t, m). \<lparr>te_Time = t, te_Message = m\<rparr>)"

definition view_TimestampedError :: "memory \<Rightarrow> TimestampedError_mem \<Rightarrow> TimestampedError option" where
  "view_TimestampedError h s = map_option (TimestampedError_value s)
     (view_both view_time view_string h (tem_Time s, tem_Message s))"

interpretation timestampedError: deep_copy TimestampedError_DeepCopyInto view_TimestampedError
  by (rule deep_copy_struct [OF deep_copy_both [OF deep_time deep_string],
        where get = "\<lambda>s. (tem_Time s, tem_Message s)"
        and put = "\<lambda>(t, m) s. s\<lparr>tem_Time := t, tem_Message := m\<rparr>" and build = TimestampedError_value])
    (auto simp: TimestampedError_DeepCopyInto_def view_TimestampedError_def TimestampedError_value_def copy_both_def Let_def split: prod.splits)

definition TimestampedError_DeepCopy :: "memory \<Rightarrow> ptr \<Rightarrow> ptr \<times> memory" where
  "TimestampedError_DeepCopy h p = copy_new CTimestampedError as_TimestampedError TimestampedError_DeepCopyInto h p"

abbreviation copy_error :: "memory \<Rightarrow> ptr \<Rightarrow> ptr \<times> memory" where
  "copy_error \<equiv> copy_new CTimestampedError as_TimestampedError TimestampedError_DeepCopyInto"

abbreviation view_error :: "memory \<Rightarrow> ptr \<Rightarrow> TimestampedError option option" where
  "view_error \<equiv> view_ptr as_TimestampedError view_TimestampedError"

lemma deep_error: "deep_copy copy_error view_error"
  by (rule deep_copy_new [OF timestampedError.deep_copy_axioms]) (simp add: as_TimestampedError_def)

definition OwnerReference_DeepCopyInto :: "memory \<Rightarrow> OwnerReference_mem \<Rightarrow> OwnerReference_mem \<times> memory" where
  "OwnerReference_DeepCopyInto h src =
     (let out = src;
          (controller, h) = copy_bool h (orm_Controller src); out = out\<lparr>orm_Controller := controller\<rparr>;
          (blockOwnerDeletion, h) = copy_bool h (orm_BlockOwnerDeletion src); out = out\<lparr>orm_BlockOwnerDeletion := blockOwnerDeletion\<rparr>
      in (out, h))"

definition OwnerReference_value :: "OwnerReference_mem \<Rightarrow> bool option \<times> bool option \<Rightarrow> OwnerReference" where
  "OwnerReference_value s = (\<lambda>(controller, blockOwnerDeletion). \<lparr>owner_APIVersion = orm_APIVersion s,
     owner_Kind = orm_Kind s, owner_Name = orm_Name s, owner_UID = orm_UID s, owner_BlockOwnerDeletion = blockOwnerDeletion,
     owner_Controller = controller\<rparr>)"

definition view_OwnerReference :: "memory \<Rightarrow> OwnerReference_mem \<Rightarrow> OwnerReference option" where
  "view_OwnerReference h s = map_option (OwnerReference_value s)
     (view_both view_bool view_bool h (orm_Controller s, orm_BlockOwnerDeletion s))"

interpretation ownerReference: deep_copy OwnerReference_DeepCopyInto view_OwnerReference
  by (rule deep_copy_struct [OF deep_copy_both [OF deep_bool deep_bool],
        where get = "\<lambda>s. (orm_Controller s, orm_BlockOwnerDeletion s)"
        and put = "\<lambda>(controller, blockOwnerDeletion) s. s\<lparr>orm_Controller := controller,
           orm_BlockOwnerDeletion := blockOwnerDeletion\<rparr>" and build = OwnerReference_value])
    (auto simp: OwnerReference_DeepCopyInto_def view_OwnerReference_def OwnerReference_value_def copy_both_def Let_def split: prod.splits)

abbreviation copy_owners :: "memory \<Rightarrow> ptr \<Rightarrow> ptr \<times> memory" where
  "copy_owners \<equiv> copy_new COwners as_owners (copy_each OwnerReference_DeepCopyInto)"

abbreviation view_owners :: "memory \<Rightarrow> ptr \<Rightarrow> OwnerReference list option option" where
  "view_owners \<equiv> view_ptr as_owners (view_each view_OwnerReference)"

lemma deep_owners: "deep_copy copy_owners view_owners"
  by (rule deep_copy_new [OF deep_copy_each [OF ownerReference.deep_copy_axioms]]) (simp add: as_owners_def)

definition FieldsV1_DeepCopyInto :: "memory \<Rightarrow> FieldsV1_mem \<Rightarrow> FieldsV1_mem \<times> memory" where
  "FieldsV1_DeepCopyInto h src =
     (let out = src;
          (raw, h) = copy_bytes h (fvm_Raw src); out = out\<lparr>fvm_Raw := raw\<rparr>
      in (out, h))"

definition FieldsV1_value :: "FieldsV1_mem \<Rightarrow> string option \<Rightarrow> FieldsV1" where
  "FieldsV1_value s = (\<lambda>raw. \<lparr>fv_Raw = or_empty raw\<rparr>)"

definition view_FieldsV1 :: "memory \<Rightarrow> FieldsV1_mem \<Rightarrow> FieldsV1 option" where
  "view_FieldsV1 h s = map_option (FieldsV1_value s)
     (view_bytes h (fvm_Raw s))"

interpretation fieldsV1: deep_copy FieldsV1_DeepCopyInto view_FieldsV1
  by (rule deep_copy_struct [OF deep_bytes,
        where get = "\<lambda>s. fvm_Raw s"
        and put = "\<lambda>raw s. s\<lparr>fvm_Raw := raw\<rparr>" and build = FieldsV1_value])
    (auto simp: FieldsV1_DeepCopyInto_def view_FieldsV1_def FieldsV1_value_def copy_both_def Let_def split: prod.splits)

abbreviation copy_fields :: "memory \<Rightarrow> ptr \<Rightarrow> ptr \<times> memory" where
  "copy_fields \<equiv> copy_new CFieldsV1 as_FieldsV1 FieldsV1_DeepCopyInto"

abbreviation view_fields :: "memory \<Rightarrow> ptr \<Rightarrow> FieldsV1 option option" where
  "view_fields \<equiv> view_ptr as_FieldsV1 view_FieldsV1"

lemma deep_fields: "deep_copy copy_fields view_fields"
  by (rule deep_copy_new [OF fieldsV1.deep_copy_axioms]) (simp add: as_FieldsV1_def)

definition ManagedFieldsEntry_DeepCopyInto :: "memory \<Rightarrow> ManagedFieldsEntry_mem \<Rightarrow> ManagedFieldsEntry_mem \<times> memory" where
  "ManagedFieldsEntry_DeepCopyInto h src =
     (let out = src;
          (t, h) = copy_time h (mfm_Time src); out = out\<lparr>mfm_Time := t\<rparr>;
          (fieldsV1, h) = copy_fields h (mfm_FieldsV1 src); out = out\<lparr>mfm_FieldsV1 := fieldsV1\<rparr>
      in (out, h))"

definition ManagedFieldsEntry_value :: "ManagedFieldsEntry_mem \<Rightarrow> time option \<times> FieldsV1 option \<Rightarrow>
   ManagedFieldsEntry" where
  "ManagedFieldsEntry_value s = (\<lambda>(t, fieldsV1). \<lparr>mf_Manager = mfm_Manager s, mf_Operation = mfm_Operation s,
     mf_APIVersion = mfm_APIVersion s, mf_Time = t, mf_FieldsType = mfm_FieldsType s, mf_FieldsV1 = fieldsV1,
     mf_Subresource = mfm_Subresource s\<rparr>)"

definition view_ManagedFieldsEntry :: "memory \<Rightarrow> ManagedFieldsEntry_mem \<Rightarrow> ManagedFieldsEntry option" where
  "view_ManagedFieldsEntry h s = map_option (ManagedFieldsEntry_value s)
     (view_both view_time view_fields h (mfm_Time s, mfm_FieldsV1 s))"

interpretation managedFieldsEntry: deep_copy ManagedFieldsEntry_DeepCopyInto view_ManagedFieldsEntry
  by (rule deep_copy_struct [OF deep_copy_both [OF deep_time deep_fields],
        where get = "\<lambda>s. (mfm_Time s, mfm_FieldsV1 s)"
        and put = "\<lambda>(t, fieldsV1) s. s\<lparr>mfm_Time := t, mfm_FieldsV1 := fieldsV1\<rparr>" and build = ManagedFieldsEntry_value])
    (auto simp: ManagedFieldsEntry_DeepCopyInto_def view_ManagedFieldsEntry_def ManagedFieldsEntry_value_def copy_both_def Let_def split: prod.splits)

abbreviation copy_managed :: "memory \<Rightarrow> ptr \<Rightarrow> ptr \<times> memory" where
  "copy_managed \<equiv> copy_new CManagedFields as_managed (copy_each ManagedFieldsEntry_DeepCopyInto)"

abbreviation view_managed :: "memory \<Rightarrow> ptr \<Rightarrow> ManagedFieldsEntry list option option" where
  "view_managed \<equiv> view_ptr as_managed (view_each view_ManagedFieldsEntry)"

lemma deep_managed: "deep_copy copy_managed view_managed"
  by (rule deep_copy_new [OF deep_copy_each [OF managedFieldsEntry.deep_copy_axioms]]) (simp add: as_managed_def)

definition ObjectMeta_DeepCopyInto :: "key_order \<Rightarrow> memory \<Rightarrow> ObjectMeta_mem \<Rightarrow> ObjectMeta_mem \<times> memory" where
  "ObjectMeta_DeepCopyInto order h src =
     (let out = src;
          out = out\<lparr>omm_CreationTimestamp := omm_CreationTimestamp src\<rparr>;
          (deletionTimestamp, h) = copy_time h (omm_DeletionTimestamp src); out = out\<lparr>omm_DeletionTimestamp := deletionTimestamp\<rparr>;
          (deletionGracePeriodSeconds, h) = copy_int h (omm_DeletionGracePeriodSeconds src); out =
             out\<lparr>omm_DeletionGracePeriodSeconds := deletionGracePeriodSeconds\<rparr>;
          (labels, h) = copy_map order h (omm_Labels src); out = out\<lparr>omm_Labels := labels\<rparr>;
          (annotations, h) = copy_map order h (omm_Annotations src); out = out\<lparr>omm_Annotations := annotations\<rparr>;
          (ownerReferences, h) = copy_owners h (omm_OwnerReferences src); out = out\<lparr>omm_OwnerReferences := ownerReferences\<rparr>;
          (finalizers, h) = copy_strings h (omm_Finalizers src); out = out\<lparr>omm_Finalizers := finalizers\<rparr>;
          (managedFields, h) = copy_managed h (omm_ManagedFields src); out = out\<lparr>omm_ManagedFields := managedFields\<rparr>
      in (out, h))"

definition ObjectMeta_value :: "ObjectMeta_mem \<Rightarrow> time option \<times> int option \<times> (string,
   string) gomap option \<times> (string, string) gomap option \<times> OwnerReference list option \<times> string list option \<times>
   ManagedFieldsEntry list option \<Rightarrow> ObjectMeta \<times> MoreMeta" where
  "ObjectMeta_value s = (\<lambda>(deletionTimestamp, deletionGracePeriodSeconds, labels, annotations, ownerReferences, finalizers,
     managedFields). (\<lparr>Name = omm_Name s, Namespace = omm_Namespace s, UID = omm_UID s, ResourceVersion = omm_ResourceVersion s,
     Generation = omm_Generation s, DeletionTimestamp = deletionTimestamp, Finalizers = or_empty finalizers,
     Annotations = or_empty annotations, OwnerReferences = or_empty ownerReferences\<rparr>, \<lparr>mm_GenerateName = omm_GenerateName s,
     mm_SelfLink = omm_SelfLink s, mm_CreationTimestamp = omm_CreationTimestamp s,
     mm_DeletionGracePeriodSeconds = deletionGracePeriodSeconds, mm_Labels = or_empty labels, mm_ManagedFields = or_empty managedFields\<rparr>))"

definition view_ObjectMeta :: "memory \<Rightarrow> ObjectMeta_mem \<Rightarrow> (ObjectMeta \<times> MoreMeta) option" where
  "view_ObjectMeta h s = map_option (ObjectMeta_value s)
     (view_both view_time (view_both view_int (view_both view_map (view_both view_map (view_both view_owners (view_both view_strings
        view_managed))))) h (omm_DeletionTimestamp s, omm_DeletionGracePeriodSeconds s, omm_Labels s, omm_Annotations s,
        omm_OwnerReferences s, omm_Finalizers s, omm_ManagedFields s))"

interpretation objectMeta: deep_copy "ObjectMeta_DeepCopyInto order" view_ObjectMeta for order
  by (rule deep_copy_struct [OF deep_copy_both [OF deep_time deep_copy_both [OF deep_int deep_copy_both [OF deep_map [where order = order]
     deep_copy_both [OF deep_map [where order = order] deep_copy_both [OF deep_owners deep_copy_both [OF deep_strings deep_managed]]]]]],
        where get = "\<lambda>s. (omm_DeletionTimestamp s, omm_DeletionGracePeriodSeconds s, omm_Labels s, omm_Annotations s,
           omm_OwnerReferences s, omm_Finalizers s, omm_ManagedFields s)"
        and put = "\<lambda>(deletionTimestamp, deletionGracePeriodSeconds, labels, annotations, ownerReferences, finalizers,
           managedFields) s. s\<lparr>omm_DeletionTimestamp := deletionTimestamp,
           omm_DeletionGracePeriodSeconds := deletionGracePeriodSeconds, omm_Labels := labels, omm_Annotations := annotations,
           omm_OwnerReferences := ownerReferences, omm_Finalizers := finalizers,
           omm_ManagedFields := managedFields\<rparr>" and build = ObjectMeta_value])
    (auto simp: ObjectMeta_DeepCopyInto_def view_ObjectMeta_def ObjectMeta_value_def copy_both_def Let_def split: prod.splits)

definition ListMeta_DeepCopyInto :: "memory \<Rightarrow> ListMeta_mem \<Rightarrow> ListMeta_mem \<times> memory" where
  "ListMeta_DeepCopyInto h src =
     (let out = src;
          (remainingItemCount, h) = copy_int h (lmm_RemainingItemCount src); out = out\<lparr>lmm_RemainingItemCount := remainingItemCount\<rparr>
      in (out, h))"

definition ListMeta_value :: "ListMeta_mem \<Rightarrow> int option \<Rightarrow> ListMeta" where
  "ListMeta_value s = (\<lambda>remainingItemCount. \<lparr>lm_SelfLink = lmm_SelfLink s, lm_ResourceVersion = lmm_ResourceVersion s,
     lm_Continue = lmm_Continue s, lm_RemainingItemCount = remainingItemCount\<rparr>)"

definition view_ListMeta :: "memory \<Rightarrow> ListMeta_mem \<Rightarrow> ListMeta option" where
  "view_ListMeta h s = map_option (ListMeta_value s)
     (view_int h (lmm_RemainingItemCount s))"

interpretation listMeta: deep_copy ListMeta_DeepCopyInto view_ListMeta
  by (rule deep_copy_struct [OF deep_int,
        where get = "\<lambda>s. lmm_RemainingItemCount s"
        and put = "\<lambda>remainingItemCount s. s\<lparr>lmm_RemainingItemCount := remainingItemCount\<rparr>" and build = ListMeta_value])
    (auto simp: ListMeta_DeepCopyInto_def view_ListMeta_def ListMeta_value_def copy_both_def Let_def split: prod.splits)

subsection \<open>Specs and statuses\<close>

definition BucketClassSpec_DeepCopyInto :: "key_order \<Rightarrow> memory \<Rightarrow> BucketClassSpec_mem \<Rightarrow>
   BucketClassSpec_mem \<times> memory" where
  "BucketClassSpec_DeepCopyInto order h src =
     (let out = src;
          (parameters, h) = copy_map order h (bclsm_Parameters src); out = out\<lparr>bclsm_Parameters := parameters\<rparr>
      in (out, h))"

definition BucketClassSpec_value :: "BucketClassSpec_mem \<Rightarrow> (string, string) gomap option \<Rightarrow> BucketClassSpec" where
  "BucketClassSpec_value s = (\<lambda>parameters. \<lparr>bclSpec_DriverName = bclsm_DriverName s,
     bclSpec_DeletionPolicy = bclsm_DeletionPolicy s, bclSpec_Parameters = or_empty parameters\<rparr>)"

definition view_BucketClassSpec :: "memory \<Rightarrow> BucketClassSpec_mem \<Rightarrow> BucketClassSpec option" where
  "view_BucketClassSpec h s = map_option (BucketClassSpec_value s)
     (view_map h (bclsm_Parameters s))"

interpretation bucketClassSpec: deep_copy "BucketClassSpec_DeepCopyInto order" view_BucketClassSpec for order
  by (rule deep_copy_struct [OF deep_map [where order = order],
        where get = "\<lambda>s. bclsm_Parameters s"
        and put = "\<lambda>parameters s. s\<lparr>bclsm_Parameters := parameters\<rparr>" and build = BucketClassSpec_value])
    (auto simp: BucketClassSpec_DeepCopyInto_def view_BucketClassSpec_def BucketClassSpec_value_def copy_both_def Let_def split: prod.splits)

definition BucketClassSpec_DeepCopy :: "key_order \<Rightarrow> memory \<Rightarrow> ptr \<Rightarrow> ptr \<times> memory" where
  "BucketClassSpec_DeepCopy order h p = copy_new CBucketClassSpec as_BucketClassSpec (BucketClassSpec_DeepCopyInto order) h p"

definition BucketAccessClassSpec_DeepCopyInto :: "key_order \<Rightarrow> memory \<Rightarrow> BucketAccessClassSpec_mem \<Rightarrow>
   BucketAccessClassSpec_mem \<times> memory" where
  "BucketAccessClassSpec_DeepCopyInto order h src =
     (let out = src;
          (parameters, h) = copy_map order h (baclsm_Parameters src); out = out\<lparr>baclsm_Parameters := parameters\<rparr>;
          (disallowedBucketAccessModes, h) = copy_strings h (baclsm_DisallowedBucketAccessModes src); out =
             out\<lparr>baclsm_DisallowedBucketAccessModes := disallowedBucketAccessModes\<rparr>
      in (out, h))"

definition BucketAccessClassSpec_value :: "BucketAccessClassSpec_mem \<Rightarrow> (string,
   string) gomap option \<times> string list option \<Rightarrow> BucketAccessClassSpec" where
  "BucketAccessClassSpec_value s = (\<lambda>(parameters, disallowedBucketAccessModes). \<lparr>baclSpec_DriverName = baclsm_DriverName s,
     baclSpec_AuthenticationType = baclsm_AuthenticationType s, baclSpec_Parameters = or_empty parameters,
     baclSpec_DisallowedBucketAccessModes = or_empty disallowedBucketAccessModes, baclSpec_MultiBucketAccess = baclsm_MultiBucketAccess s\<rparr>)"

definition view_BucketAccessClassSpec :: "memory \<Rightarrow> BucketAccessClassSpec_mem \<Rightarrow> BucketAccessClassSpec option" where
  "view_BucketAccessClassSpec h s = map_option (BucketAccessClassSpec_value s)
     (view_both view_map view_strings h (baclsm_Parameters s, baclsm_DisallowedBucketAccessModes s))"

interpretation bucketAccessClassSpec: deep_copy "BucketAccessClassSpec_DeepCopyInto order" view_BucketAccessClassSpec for order
  by (rule deep_copy_struct [OF deep_copy_both [OF deep_map [where order = order] deep_strings],
        where get = "\<lambda>s. (baclsm_Parameters s, baclsm_DisallowedBucketAccessModes s)"
        and put = "\<lambda>(parameters, disallowedBucketAccessModes) s. s\<lparr>baclsm_Parameters := parameters,
           baclsm_DisallowedBucketAccessModes := disallowedBucketAccessModes\<rparr>" and build = BucketAccessClassSpec_value])
    (auto simp: BucketAccessClassSpec_DeepCopyInto_def view_BucketAccessClassSpec_def BucketAccessClassSpec_value_def copy_both_def Let_def
       split: prod.splits)

definition BucketAccessClassSpec_DeepCopy :: "key_order \<Rightarrow> memory \<Rightarrow> ptr \<Rightarrow> ptr \<times> memory" where
  "BucketAccessClassSpec_DeepCopy order h p = copy_new CBucketAccessClassSpec as_BucketAccessClassSpec (BucketAccessClassSpec_DeepCopyInto order) h p"

definition BucketClaimSpec_DeepCopyInto :: "memory \<Rightarrow> BucketClaimSpec_mem \<Rightarrow> BucketClaimSpec_mem \<times> memory" where
  "BucketClaimSpec_DeepCopyInto h src =
     (let out = src;
          (protocols, h) = copy_strings h (bcsm_Protocols src); out = out\<lparr>bcsm_Protocols := protocols\<rparr>
      in (out, h))"

definition BucketClaimSpec_value :: "BucketClaimSpec_mem \<Rightarrow> string list option \<Rightarrow> BucketClaimSpec" where
  "BucketClaimSpec_value s = (\<lambda>protocols. \<lparr>bcSpec_BucketClassName = bcsm_BucketClassName s,
     bcSpec_Protocols = or_empty protocols, bcSpec_ExistingBucketName = bcsm_ExistingBucketName s\<rparr>)"

definition view_BucketClaimSpec :: "memory \<Rightarrow> BucketClaimSpec_mem \<Rightarrow> BucketClaimSpec option" where
  "view_BucketClaimSpec h s = map_option (BucketClaimSpec_value s)
     (view_strings h (bcsm_Protocols s))"

interpretation bucketClaimSpec: deep_copy BucketClaimSpec_DeepCopyInto view_BucketClaimSpec
  by (rule deep_copy_struct [OF deep_strings,
        where get = "\<lambda>s. bcsm_Protocols s"
        and put = "\<lambda>protocols s. s\<lparr>bcsm_Protocols := protocols\<rparr>" and build = BucketClaimSpec_value])
    (auto simp: BucketClaimSpec_DeepCopyInto_def view_BucketClaimSpec_def BucketClaimSpec_value_def copy_both_def Let_def split: prod.splits)

definition BucketClaimSpec_DeepCopy :: "memory \<Rightarrow> ptr \<Rightarrow> ptr \<times> memory" where
  "BucketClaimSpec_DeepCopy h p = copy_new CBucketClaimSpec as_BucketClaimSpec BucketClaimSpec_DeepCopyInto h p"

definition BucketClaimStatus_DeepCopyInto :: "memory \<Rightarrow> BucketClaimStatus_mem \<Rightarrow> BucketClaimStatus_mem \<times> memory" where
  "BucketClaimStatus_DeepCopyInto h src =
     (let out = src;
          (readyToUse, h) = copy_bool h (bctm_ReadyToUse src); out = out\<lparr>bctm_ReadyToUse := readyToUse\<rparr>;
          (protocols, h) = copy_strings h (bctm_Protocols src); out = out\<lparr>bctm_Protocols := protocols\<rparr>;
          (error, h) = copy_error h (bctm_Error src); out = out\<lparr>bctm_Error := error\<rparr>
      in (out, h))"

definition BucketClaimStatus_value :: "BucketClaimStatus_mem \<Rightarrow> bool option \<times> string list option \<times>
   TimestampedError option \<Rightarrow> BucketClaimStatus" where
  "BucketClaimStatus_value s = (\<lambda>(readyToUse, protocols, error). \<lparr>bcStatus_BoundBucketName = bctm_BoundBucketName s,
     bcStatus_ReadyToUse = readyToUse, bcStatus_Protocols = or_empty protocols, bcStatus_Error = error\<rparr>)"

definition view_BucketClaimStatus :: "memory \<Rightarrow> BucketClaimStatus_mem \<Rightarrow> BucketClaimStatus option" where
  "view_BucketClaimStatus h s = map_option (BucketClaimStatus_value s)
     (view_both view_bool (view_both view_strings view_error) h (bctm_ReadyToUse s, bctm_Protocols s, bctm_Error s))"

interpretation bucketClaimStatus: deep_copy BucketClaimStatus_DeepCopyInto view_BucketClaimStatus
  by (rule deep_copy_struct [OF deep_copy_both [OF deep_bool deep_copy_both [OF deep_strings deep_error]],
        where get = "\<lambda>s. (bctm_ReadyToUse s, bctm_Protocols s, bctm_Error s)"
        and put = "\<lambda>(readyToUse, protocols, error) s. s\<lparr>bctm_ReadyToUse := readyToUse, bctm_Protocols := protocols,
           bctm_Error := error\<rparr>" and build = BucketClaimStatus_value])
    (auto simp: BucketClaimStatus_DeepCopyInto_def view_BucketClaimStatus_def BucketClaimStatus_value_def copy_both_def Let_def split: prod.splits)

definition BucketClaimStatus_DeepCopy :: "memory \<Rightarrow> ptr \<Rightarrow> ptr \<times> memory" where
  "BucketClaimStatus_DeepCopy h p = copy_new CBucketClaimStatus as_BucketClaimStatus BucketClaimStatus_DeepCopyInto h p"

definition BucketSpec_DeepCopyInto :: "key_order \<Rightarrow> memory \<Rightarrow> BucketSpec_mem \<Rightarrow> BucketSpec_mem \<times> memory" where
  "BucketSpec_DeepCopyInto order h src =
     (let out = src;
          (parameters, h) = copy_map order h (bsm_Parameters src); out = out\<lparr>bsm_Parameters := parameters\<rparr>;
          (protocols, h) = copy_strings h (bsm_Protocols src); out = out\<lparr>bsm_Protocols := protocols\<rparr>;
          out = out\<lparr>bsm_BucketClaimRef := bsm_BucketClaimRef src\<rparr>
      in (out, h))"

definition BucketSpec_value :: "BucketSpec_mem \<Rightarrow> (string, string) gomap option \<times> string list option \<Rightarrow> BucketSpec" where
  "BucketSpec_value s = (\<lambda>(parameters, protocols). \<lparr>bSpec_DriverName = bsm_DriverName s,
     bSpec_DeletionPolicy = bsm_DeletionPolicy s, bSpec_Parameters = or_empty parameters, bSpec_Protocols = or_empty protocols,
     bSpec_BucketClaimRef = bsm_BucketClaimRef s, bSpec_ExistingBucketID = bsm_ExistingBucketID s\<rparr>)"

definition view_BucketSpec :: "memory \<Rightarrow> BucketSpec_mem \<Rightarrow> BucketSpec option" where
  "view_BucketSpec h s = map_option (BucketSpec_value s)
     (view_both view_map view_strings h (bsm_Parameters s, bsm_Protocols s))"

interpretation bucketSpec: deep_copy "BucketSpec_DeepCopyInto order" view_BucketSpec for order
  by (rule deep_copy_struct [OF deep_copy_both [OF deep_map [where order = order] deep_strings],
        where get = "\<lambda>s. (bsm_Parameters s, bsm_Protocols s)"
        and put = "\<lambda>(parameters, protocols) s. s\<lparr>bsm_Parameters := parameters,
           bsm_Protocols := protocols\<rparr>" and build = BucketSpec_value])
    (auto simp: BucketSpec_DeepCopyInto_def view_BucketSpec_def BucketSpec_value_def copy_both_def Let_def split: prod.splits)

definition BucketSpec_DeepCopy :: "key_order \<Rightarrow> memory \<Rightarrow> ptr \<Rightarrow> ptr \<times> memory" where
  "BucketSpec_DeepCopy order h p = copy_new CBucketSpec as_BucketSpec (BucketSpec_DeepCopyInto order) h p"

definition BucketStatus_DeepCopyInto :: "key_order \<Rightarrow> memory \<Rightarrow> BucketStatus_mem \<Rightarrow> BucketStatus_mem
   \<times> memory" where
  "BucketStatus_DeepCopyInto order h src =
     (let out = src;
          (readyToUse, h) = copy_bool h (btm_ReadyToUse src); out = out\<lparr>btm_ReadyToUse := readyToUse\<rparr>;
          (protocols, h) = copy_strings h (btm_Protocols src); out = out\<lparr>btm_Protocols := protocols\<rparr>;
          (bucketInfo, h) = copy_map order h (btm_BucketInfo src); out = out\<lparr>btm_BucketInfo := bucketInfo\<rparr>;
          (error, h) = copy_error h (btm_Error src); out = out\<lparr>btm_Error := error\<rparr>
      in (out, h))"

definition BucketStatus_value :: "BucketStatus_mem \<Rightarrow> bool option \<times> string list option \<times> (string,
   string) gomap option \<times> TimestampedError option \<Rightarrow> BucketStatus" where
  "BucketStatus_value s = (\<lambda>(readyToUse, protocols, bucketInfo, error). \<lparr>bStatus_ReadyToUse = readyToUse,
     bStatus_BucketID = btm_BucketID s, bStatus_Protocols = or_empty protocols, bStatus_BucketInfo = or_empty bucketInfo,
     bStatus_Error = error\<rparr>)"

definition view_BucketStatus :: "memory \<Rightarrow> BucketStatus_mem \<Rightarrow> BucketStatus option" where
  "view_BucketStatus h s = map_option (BucketStatus_value s)
     (view_both view_bool (view_both view_strings (view_both view_map view_error)) h (btm_ReadyToUse s, btm_Protocols s, btm_BucketInfo s,
        btm_Error s))"

interpretation bucketStatus: deep_copy "BucketStatus_DeepCopyInto order" view_BucketStatus for order
  by (rule deep_copy_struct [OF deep_copy_both [OF deep_bool deep_copy_both [OF deep_strings deep_copy_both [OF deep_map [where order =
     order] deep_error]]],
        where get = "\<lambda>s. (btm_ReadyToUse s, btm_Protocols s, btm_BucketInfo s, btm_Error s)"
        and put = "\<lambda>(readyToUse, protocols, bucketInfo, error) s. s\<lparr>btm_ReadyToUse := readyToUse,
           btm_Protocols := protocols, btm_BucketInfo := bucketInfo, btm_Error := error\<rparr>" and build = BucketStatus_value])
    (auto simp: BucketStatus_DeepCopyInto_def view_BucketStatus_def BucketStatus_value_def copy_both_def Let_def split: prod.splits)

definition BucketStatus_DeepCopy :: "key_order \<Rightarrow> memory \<Rightarrow> ptr \<Rightarrow> ptr \<times> memory" where
  "BucketStatus_DeepCopy order h p = copy_new CBucketStatus as_BucketStatus (BucketStatus_DeepCopyInto order) h p"

definition BucketAccessSpec_DeepCopyInto :: "memory \<Rightarrow> BucketAccessSpec_mem \<Rightarrow> BucketAccessSpec_mem \<times> memory" where
  "BucketAccessSpec_DeepCopyInto h src =
     (let out = src;
          (bucketClaims, h) = copy_claims h (basm_BucketClaims src); out = out\<lparr>basm_BucketClaims := bucketClaims\<rparr>
      in (out, h))"

definition BucketAccessSpec_value :: "BucketAccessSpec_mem \<Rightarrow> BucketClaimAccess list option \<Rightarrow> BucketAccessSpec" where
  "BucketAccessSpec_value s = (\<lambda>bucketClaims. \<lparr>baSpec_BucketClaims = or_empty bucketClaims,
     baSpec_BucketAccessClassName = basm_BucketAccessClassName s, baSpec_Protocol = basm_Protocol s,
     baSpec_ServiceAccountName = basm_ServiceAccountName s\<rparr>)"

definition view_BucketAccessSpec :: "memory \<Rightarrow> BucketAccessSpec_mem \<Rightarrow> BucketAccessSpec option" where
  "view_BucketAccessSpec h s = map_option (BucketAccessSpec_value s)
     (view_claims h (basm_BucketClaims s))"

interpretation bucketAccessSpec: deep_copy BucketAccessSpec_DeepCopyInto view_BucketAccessSpec
  by (rule deep_copy_struct [OF deep_claims,
        where get = "\<lambda>s. basm_BucketClaims s"
        and put = "\<lambda>bucketClaims s. s\<lparr>basm_BucketClaims := bucketClaims\<rparr>" and build = BucketAccessSpec_value])
    (auto simp: BucketAccessSpec_DeepCopyInto_def view_BucketAccessSpec_def BucketAccessSpec_value_def copy_both_def Let_def split: prod.splits)

definition BucketAccessSpec_DeepCopy :: "memory \<Rightarrow> ptr \<Rightarrow> ptr \<times> memory" where
  "BucketAccessSpec_DeepCopy h p = copy_new CBucketAccessSpec as_BucketAccessSpec BucketAccessSpec_DeepCopyInto h p"

definition BucketAccessStatus_DeepCopyInto :: "key_order \<Rightarrow> memory \<Rightarrow> BucketAccessStatus_mem \<Rightarrow>
   BucketAccessStatus_mem \<times> memory" where
  "BucketAccessStatus_DeepCopyInto order h src =
     (let out = src;
          (readyToUse, h) = copy_bool h (batm_ReadyToUse src); out = out\<lparr>batm_ReadyToUse := readyToUse\<rparr>;
          (accessedBuckets, h) = copy_accessed h (batm_AccessedBuckets src); out = out\<lparr>batm_AccessedBuckets := accessedBuckets\<rparr>;
          (parameters, h) = copy_map order h (batm_Parameters src); out = out\<lparr>batm_Parameters := parameters\<rparr>;
          (error, h) = copy_error h (batm_Error src); out = out\<lparr>batm_Error := error\<rparr>
      in (out, h))"

definition BucketAccessStatus_value :: "BucketAccessStatus_mem \<Rightarrow> bool option \<times> AccessedBucket list option \<times>
   (string, string) gomap option \<times> TimestampedError option \<Rightarrow> BucketAccessStatus" where
  "BucketAccessStatus_value s = (\<lambda>(readyToUse, accessedBuckets, parameters, error). \<lparr>baStatus_ReadyToUse = readyToUse,
     baStatus_AccountID = batm_AccountID s, baStatus_AccessedBuckets = or_empty accessedBuckets, baStatus_DriverName = batm_DriverName s,
     baStatus_AuthenticationType = batm_AuthenticationType s, baStatus_Parameters = or_empty parameters, baStatus_Error = error\<rparr>)"

definition view_BucketAccessStatus :: "memory \<Rightarrow> BucketAccessStatus_mem \<Rightarrow> BucketAccessStatus option" where
  "view_BucketAccessStatus h s = map_option (BucketAccessStatus_value s)
     (view_both view_bool (view_both view_accessed (view_both view_map view_error)) h (batm_ReadyToUse s, batm_AccessedBuckets s,
        batm_Parameters s, batm_Error s))"

interpretation bucketAccessStatus: deep_copy "BucketAccessStatus_DeepCopyInto order" view_BucketAccessStatus for order
  by (rule deep_copy_struct [OF deep_copy_both [OF deep_bool deep_copy_both [OF deep_accessed deep_copy_both [OF deep_map [where order =
     order] deep_error]]],
        where get = "\<lambda>s. (batm_ReadyToUse s, batm_AccessedBuckets s, batm_Parameters s, batm_Error s)"
        and put = "\<lambda>(readyToUse, accessedBuckets, parameters, error) s. s\<lparr>batm_ReadyToUse := readyToUse,
           batm_AccessedBuckets := accessedBuckets, batm_Parameters := parameters, batm_Error := error\<rparr>" and build = BucketAccessStatus_value])
    (auto simp: BucketAccessStatus_DeepCopyInto_def view_BucketAccessStatus_def BucketAccessStatus_value_def copy_both_def Let_def split: prod.splits)

definition BucketAccessStatus_DeepCopy :: "key_order \<Rightarrow> memory \<Rightarrow> ptr \<Rightarrow> ptr \<times> memory" where
  "BucketAccessStatus_DeepCopy order h p = copy_new CBucketAccessStatus as_BucketAccessStatus (BucketAccessStatus_DeepCopyInto order) h p"

end
