(* ===== verification/Deep_Copy_Objects.thy ===== *)
theory Deep_Copy_Objects
  imports Deep_Copy
begin

text \<open>
  The copy functions of the objects and of lists of objects (\<open>zz_generated.deepcopy.go\<close>), and the copy behind the
  interface \<open>runtime.Object\<close>, which caches and clients use.
\<close>

subsection \<open>The resources\<close>

definition BucketClass_DeepCopyInto :: "key_order \<Rightarrow> memory \<Rightarrow> BucketClass_mem \<Rightarrow> BucketClass_mem \<times>
   memory" where
  "BucketClass_DeepCopyInto order h src =
     (let out = src;
          out = out\<lparr>bclm_TypeMeta := bclm_TypeMeta src\<rparr>;
          (objectMeta, h) = ObjectMeta_DeepCopyInto order h (bclm_ObjectMeta src); out = out\<lparr>bclm_ObjectMeta := objectMeta\<rparr>;
          (spec, h) = BucketClassSpec_DeepCopyInto order h (bclm_Spec src); out = out\<lparr>bclm_Spec := spec\<rparr>
      in (out, h))"

definition BucketClass_value :: "BucketClass_mem \<Rightarrow> (ObjectMeta \<times> MoreMeta) \<times> BucketClassSpec \<Rightarrow>
   TypeMeta \<times> MoreMeta \<times> BucketClass" where
  "BucketClass_value s = (\<lambda>(objectMeta, spec). (bclm_TypeMeta s, snd objectMeta, \<lparr>bcl_meta = fst objectMeta, bcl_Spec = spec\<rparr>))"

definition view_BucketClass :: "memory \<Rightarrow> BucketClass_mem \<Rightarrow> (TypeMeta \<times> MoreMeta \<times> BucketClass) option" where
  "view_BucketClass h s = map_option (BucketClass_value s)
     (view_both view_ObjectMeta view_BucketClassSpec h (bclm_ObjectMeta s, bclm_Spec s))"

interpretation bucketClass: deep_copy "BucketClass_DeepCopyInto order" view_BucketClass for order
  by (rule deep_copy_struct [OF deep_copy_both [OF objectMeta.deep_copy_axioms [where order = order] bucketClassSpec.deep_copy_axioms
     [where order = order]],
        where get = "\<lambda>s. (bclm_ObjectMeta s, bclm_Spec s)"
        and put = "\<lambda>(objectMeta, spec) s. s\<lparr>bclm_ObjectMeta := objectMeta, bclm_Spec := spec\<rparr>" and build = BucketClass_value])
    (auto simp: BucketClass_DeepCopyInto_def view_BucketClass_def BucketClass_value_def copy_both_def Let_def split: prod.splits)

definition BucketClass_DeepCopy :: "key_order \<Rightarrow> memory \<Rightarrow> ptr \<Rightarrow> ptr \<times> memory" where
  "BucketClass_DeepCopy order h p = copy_new CBucketClass as_BucketClass (BucketClass_DeepCopyInto order) h p"

abbreviation copy_BucketClasses :: "key_order \<Rightarrow> memory \<Rightarrow> ptr \<Rightarrow> ptr \<times> memory" where
  "copy_BucketClasses order \<equiv> copy_new CBucketClassItems as_BucketClassItems (copy_each (BucketClass_DeepCopyInto order))"

abbreviation view_BucketClasses :: "memory \<Rightarrow> ptr \<Rightarrow> (TypeMeta \<times> MoreMeta \<times> BucketClass) list option option" where
  "view_BucketClasses \<equiv> view_ptr as_BucketClassItems (view_each view_BucketClass)"

lemma deep_items_BucketClass: "deep_copy (copy_BucketClasses order) view_BucketClasses"
  by (rule deep_copy_new [OF deep_copy_each [OF bucketClass.deep_copy_axioms]]) (simp add: as_BucketClassItems_def)

definition BucketAccessClass_DeepCopyInto :: "key_order \<Rightarrow> memory \<Rightarrow> BucketAccessClass_mem \<Rightarrow>
   BucketAccessClass_mem \<times> memory" where
  "BucketAccessClass_DeepCopyInto order h src =
     (let out = src;
          out = out\<lparr>baclm_TypeMeta := baclm_TypeMeta src\<rparr>;
          (objectMeta, h) = ObjectMeta_DeepCopyInto order h (baclm_ObjectMeta src); out = out\<lparr>baclm_ObjectMeta := objectMeta\<rparr>;
          (spec, h) = BucketAccessClassSpec_DeepCopyInto order h (baclm_Spec src); out = out\<lparr>baclm_Spec := spec\<rparr>
      in (out, h))"

definition BucketAccessClass_value :: "BucketAccessClass_mem \<Rightarrow> (ObjectMeta \<times> MoreMeta) \<times> BucketAccessClassSpec
   \<Rightarrow> TypeMeta \<times> MoreMeta \<times> BucketAccessClass" where
  "BucketAccessClass_value s = (\<lambda>(objectMeta, spec). (baclm_TypeMeta s, snd objectMeta, \<lparr>bacl_meta = fst objectMeta,
     bacl_Spec = spec\<rparr>))"

definition view_BucketAccessClass :: "memory \<Rightarrow> BucketAccessClass_mem \<Rightarrow> (TypeMeta \<times> MoreMeta \<times>
   BucketAccessClass) option" where
  "view_BucketAccessClass h s = map_option (BucketAccessClass_value s)
     (view_both view_ObjectMeta view_BucketAccessClassSpec h (baclm_ObjectMeta s, baclm_Spec s))"

interpretation bucketAccessClass: deep_copy "BucketAccessClass_DeepCopyInto order" view_BucketAccessClass for order
  by (rule deep_copy_struct [OF deep_copy_both [OF objectMeta.deep_copy_axioms [where order = order] bucketAccessClassSpec.deep_copy_axioms
     [where order = order]],
        where get = "\<lambda>s. (baclm_ObjectMeta s, baclm_Spec s)"
        and put = "\<lambda>(objectMeta, spec) s. s\<lparr>baclm_ObjectMeta := objectMeta,
           baclm_Spec := spec\<rparr>" and build = BucketAccessClass_value])
    (auto simp: BucketAccessClass_DeepCopyInto_def view_BucketAccessClass_def BucketAccessClass_value_def copy_both_def Let_def split: prod.splits)

definition BucketAccessClass_DeepCopy :: "key_order \<Rightarrow> memory \<Rightarrow> ptr \<Rightarrow> ptr \<times> memory" where
  "BucketAccessClass_DeepCopy order h p = copy_new CBucketAccessClass as_BucketAccessClass (BucketAccessClass_DeepCopyInto order) h p"

abbreviation copy_BucketAccessClasses :: "key_order \<Rightarrow> memory \<Rightarrow> ptr \<Rightarrow> ptr \<times> memory" where
  "copy_BucketAccessClasses order \<equiv> copy_new CBucketAccessClassItems as_BucketAccessClassItems (copy_each
     (BucketAccessClass_DeepCopyInto order))"

abbreviation view_BucketAccessClasses :: "memory \<Rightarrow> ptr \<Rightarrow> (TypeMeta \<times> MoreMeta \<times> BucketAccessClass)
   list option option" where
  "view_BucketAccessClasses \<equiv> view_ptr as_BucketAccessClassItems (view_each view_BucketAccessClass)"

lemma deep_items_BucketAccessClass: "deep_copy (copy_BucketAccessClasses order) view_BucketAccessClasses"
  by (rule deep_copy_new [OF deep_copy_each [OF bucketAccessClass.deep_copy_axioms]]) (simp add: as_BucketAccessClassItems_def)

definition BucketClaim_DeepCopyInto :: "key_order \<Rightarrow> memory \<Rightarrow> BucketClaim_mem \<Rightarrow> BucketClaim_mem \<times>
   memory" where
  "BucketClaim_DeepCopyInto order h src =
     (let out = src;
          out = out\<lparr>bcm_TypeMeta := bcm_TypeMeta src\<rparr>;
          (objectMeta, h) = ObjectMeta_DeepCopyInto order h (bcm_ObjectMeta src); out = out\<lparr>bcm_ObjectMeta := objectMeta\<rparr>;
          (spec, h) = BucketClaimSpec_DeepCopyInto h (bcm_Spec src); out = out\<lparr>bcm_Spec := spec\<rparr>;
          (status, h) = BucketClaimStatus_DeepCopyInto h (bcm_Status src); out = out\<lparr>bcm_Status := status\<rparr>
      in (out, h))"

definition BucketClaim_value :: "BucketClaim_mem \<Rightarrow> (ObjectMeta \<times> MoreMeta) \<times> BucketClaimSpec \<times>
   BucketClaimStatus \<Rightarrow> TypeMeta \<times> MoreMeta \<times> BucketClaim" where
  "BucketClaim_value s = (\<lambda>(objectMeta, spec, status). (bcm_TypeMeta s, snd objectMeta, \<lparr>bc_meta = fst objectMeta,
     bc_Spec = spec, bc_Status = status\<rparr>))"

definition view_BucketClaim :: "memory \<Rightarrow> BucketClaim_mem \<Rightarrow> (TypeMeta \<times> MoreMeta \<times> BucketClaim) option" where
  "view_BucketClaim h s = map_option (BucketClaim_value s)
     (view_both view_ObjectMeta (view_both view_BucketClaimSpec view_BucketClaimStatus) h (bcm_ObjectMeta s, bcm_Spec s, bcm_Status s))"

interpretation bucketClaim: deep_copy "BucketClaim_DeepCopyInto order" view_BucketClaim for order
  by (rule deep_copy_struct [OF deep_copy_both [OF objectMeta.deep_copy_axioms [where order = order] deep_copy_both [OF
     bucketClaimSpec.deep_copy_axioms bucketClaimStatus.deep_copy_axioms]],
        where get = "\<lambda>s. (bcm_ObjectMeta s, bcm_Spec s, bcm_Status s)"
        and put = "\<lambda>(objectMeta, spec, status) s. s\<lparr>bcm_ObjectMeta := objectMeta, bcm_Spec := spec,
           bcm_Status := status\<rparr>" and build = BucketClaim_value])
    (auto simp: BucketClaim_DeepCopyInto_def view_BucketClaim_def BucketClaim_value_def copy_both_def Let_def split: prod.splits)

definition BucketClaim_DeepCopy :: "key_order \<Rightarrow> memory \<Rightarrow> ptr \<Rightarrow> ptr \<times> memory" where
  "BucketClaim_DeepCopy order h p = copy_new CBucketClaim as_BucketClaim (BucketClaim_DeepCopyInto order) h p"

abbreviation copy_BucketClaims :: "key_order \<Rightarrow> memory \<Rightarrow> ptr \<Rightarrow> ptr \<times> memory" where
  "copy_BucketClaims order \<equiv> copy_new CBucketClaimItems as_BucketClaimItems (copy_each (BucketClaim_DeepCopyInto order))"

abbreviation view_BucketClaims :: "memory \<Rightarrow> ptr \<Rightarrow> (TypeMeta \<times> MoreMeta \<times> BucketClaim) list option option" where
  "view_BucketClaims \<equiv> view_ptr as_BucketClaimItems (view_each view_BucketClaim)"

lemma deep_items_BucketClaim: "deep_copy (copy_BucketClaims order) view_BucketClaims"
  by (rule deep_copy_new [OF deep_copy_each [OF bucketClaim.deep_copy_axioms]]) (simp add: as_BucketClaimItems_def)

definition Bucket_DeepCopyInto :: "key_order \<Rightarrow> memory \<Rightarrow> Bucket_mem \<Rightarrow> Bucket_mem \<times> memory" where
  "Bucket_DeepCopyInto order h src =
     (let out = src;
          out = out\<lparr>bm_TypeMeta := bm_TypeMeta src\<rparr>;
          (objectMeta, h) = ObjectMeta_DeepCopyInto order h (bm_ObjectMeta src); out = out\<lparr>bm_ObjectMeta := objectMeta\<rparr>;
          (spec, h) = BucketSpec_DeepCopyInto order h (bm_Spec src); out = out\<lparr>bm_Spec := spec\<rparr>;
          (status, h) = BucketStatus_DeepCopyInto order h (bm_Status src); out = out\<lparr>bm_Status := status\<rparr>
      in (out, h))"

definition Bucket_value :: "Bucket_mem \<Rightarrow> (ObjectMeta \<times> MoreMeta) \<times> BucketSpec \<times> BucketStatus \<Rightarrow>
   TypeMeta \<times> MoreMeta \<times> Bucket" where
  "Bucket_value s = (\<lambda>(objectMeta, spec, status). (bm_TypeMeta s, snd objectMeta, \<lparr>b_meta = fst objectMeta, b_Spec = spec,
     b_Status = status\<rparr>))"

definition view_Bucket :: "memory \<Rightarrow> Bucket_mem \<Rightarrow> (TypeMeta \<times> MoreMeta \<times> Bucket) option" where
  "view_Bucket h s = map_option (Bucket_value s)
     (view_both view_ObjectMeta (view_both view_BucketSpec view_BucketStatus) h (bm_ObjectMeta s, bm_Spec s, bm_Status s))"

interpretation bucket: deep_copy "Bucket_DeepCopyInto order" view_Bucket for order
  by (rule deep_copy_struct [OF deep_copy_both [OF objectMeta.deep_copy_axioms [where order = order] deep_copy_both [OF
     bucketSpec.deep_copy_axioms [where order = order] bucketStatus.deep_copy_axioms [where order = order]]],
        where get = "\<lambda>s. (bm_ObjectMeta s, bm_Spec s, bm_Status s)"
        and put = "\<lambda>(objectMeta, spec, status) s. s\<lparr>bm_ObjectMeta := objectMeta, bm_Spec := spec,
           bm_Status := status\<rparr>" and build = Bucket_value])
    (auto simp: Bucket_DeepCopyInto_def view_Bucket_def Bucket_value_def copy_both_def Let_def split: prod.splits)

definition Bucket_DeepCopy :: "key_order \<Rightarrow> memory \<Rightarrow> ptr \<Rightarrow> ptr \<times> memory" where
  "Bucket_DeepCopy order h p = copy_new CBucket as_Bucket (Bucket_DeepCopyInto order) h p"

abbreviation copy_Buckets :: "key_order \<Rightarrow> memory \<Rightarrow> ptr \<Rightarrow> ptr \<times> memory" where
  "copy_Buckets order \<equiv> copy_new CBucketItems as_BucketItems (copy_each (Bucket_DeepCopyInto order))"

abbreviation view_Buckets :: "memory \<Rightarrow> ptr \<Rightarrow> (TypeMeta \<times> MoreMeta \<times> Bucket) list option option" where
  "view_Buckets \<equiv> view_ptr as_BucketItems (view_each view_Bucket)"

lemma deep_items_Bucket: "deep_copy (copy_Buckets order) view_Buckets"
  by (rule deep_copy_new [OF deep_copy_each [OF bucket.deep_copy_axioms]]) (simp add: as_BucketItems_def)

definition BucketAccess_DeepCopyInto :: "key_order \<Rightarrow> memory \<Rightarrow> BucketAccess_mem \<Rightarrow> BucketAccess_mem
   \<times> memory" where
  "BucketAccess_DeepCopyInto order h src =
     (let out = src;
          out = out\<lparr>bam_TypeMeta := bam_TypeMeta src\<rparr>;
          (objectMeta, h) = ObjectMeta_DeepCopyInto order h (bam_ObjectMeta src); out = out\<lparr>bam_ObjectMeta := objectMeta\<rparr>;
          (spec, h) = BucketAccessSpec_DeepCopyInto h (bam_Spec src); out = out\<lparr>bam_Spec := spec\<rparr>;
          (status, h) = BucketAccessStatus_DeepCopyInto order h (bam_Status src); out = out\<lparr>bam_Status := status\<rparr>
      in (out, h))"

definition BucketAccess_value :: "BucketAccess_mem \<Rightarrow> (ObjectMeta \<times> MoreMeta) \<times> BucketAccessSpec \<times>
   BucketAccessStatus \<Rightarrow> TypeMeta \<times> MoreMeta \<times> BucketAccess" where
  "BucketAccess_value s = (\<lambda>(objectMeta, spec, status). (bam_TypeMeta s, snd objectMeta, \<lparr>ba_meta = fst objectMeta,
     ba_Spec = spec, ba_Status = status\<rparr>))"

definition view_BucketAccess :: "memory \<Rightarrow> BucketAccess_mem \<Rightarrow> (TypeMeta \<times> MoreMeta \<times> BucketAccess) option" where
  "view_BucketAccess h s = map_option (BucketAccess_value s)
     (view_both view_ObjectMeta (view_both view_BucketAccessSpec view_BucketAccessStatus) h (bam_ObjectMeta s, bam_Spec s, bam_Status s))"

interpretation bucketAccess: deep_copy "BucketAccess_DeepCopyInto order" view_BucketAccess for order
  by (rule deep_copy_struct [OF deep_copy_both [OF objectMeta.deep_copy_axioms [where order = order] deep_copy_both [OF
     bucketAccessSpec.deep_copy_axioms bucketAccessStatus.deep_copy_axioms [where order = order]]],
        where get = "\<lambda>s. (bam_ObjectMeta s, bam_Spec s, bam_Status s)"
        and put = "\<lambda>(objectMeta, spec, status) s. s\<lparr>bam_ObjectMeta := objectMeta, bam_Spec := spec,
           bam_Status := status\<rparr>" and build = BucketAccess_value])
    (auto simp: BucketAccess_DeepCopyInto_def view_BucketAccess_def BucketAccess_value_def copy_both_def Let_def split: prod.splits)

definition BucketAccess_DeepCopy :: "key_order \<Rightarrow> memory \<Rightarrow> ptr \<Rightarrow> ptr \<times> memory" where
  "BucketAccess_DeepCopy order h p = copy_new CBucketAccess as_BucketAccess (BucketAccess_DeepCopyInto order) h p"

abbreviation copy_BucketAccesses :: "key_order \<Rightarrow> memory \<Rightarrow> ptr \<Rightarrow> ptr \<times> memory" where
  "copy_BucketAccesses order \<equiv> copy_new CBucketAccessItems as_BucketAccessItems (copy_each (BucketAccess_DeepCopyInto order))"

abbreviation view_BucketAccesses :: "memory \<Rightarrow> ptr \<Rightarrow> (TypeMeta \<times> MoreMeta \<times> BucketAccess) list option
   option" where
  "view_BucketAccesses \<equiv> view_ptr as_BucketAccessItems (view_each view_BucketAccess)"

lemma deep_items_BucketAccess: "deep_copy (copy_BucketAccesses order) view_BucketAccesses"
  by (rule deep_copy_new [OF deep_copy_each [OF bucketAccess.deep_copy_axioms]]) (simp add: as_BucketAccessItems_def)

subsection \<open>Lists\<close>

definition BucketClassList_DeepCopyInto :: "key_order \<Rightarrow> memory \<Rightarrow> BucketClassList_mem \<Rightarrow>
   BucketClassList_mem \<times> memory" where
  "BucketClassList_DeepCopyInto order h src =
     (let out = src;
          out = out\<lparr>bcllm_TypeMeta := bcllm_TypeMeta src\<rparr>;
          (listMeta, h) = ListMeta_DeepCopyInto h (bcllm_ListMeta src); out = out\<lparr>bcllm_ListMeta := listMeta\<rparr>;
          (items, h) = copy_BucketClasses order h (bcllm_Items src); out = out\<lparr>bcllm_Items := items\<rparr>
      in (out, h))"

definition BucketClassList_value :: "BucketClassList_mem \<Rightarrow> ListMeta \<times> (TypeMeta \<times> MoreMeta \<times> BucketClass)
   list option \<Rightarrow> TypeMeta \<times> ListMeta \<times> (TypeMeta \<times> MoreMeta \<times> BucketClass) list" where
  "BucketClassList_value s = (\<lambda>(listMeta, items). (bcllm_TypeMeta s, listMeta, or_empty items))"

definition view_BucketClassList :: "memory \<Rightarrow> BucketClassList_mem \<Rightarrow> (TypeMeta \<times> ListMeta \<times> (TypeMeta
   \<times> MoreMeta \<times> BucketClass) list) option" where
  "view_BucketClassList h s = map_option (BucketClassList_value s)
     (view_both view_ListMeta view_BucketClasses h (bcllm_ListMeta s, bcllm_Items s))"

interpretation bucketClassList: deep_copy "BucketClassList_DeepCopyInto order" view_BucketClassList for order
  by (rule deep_copy_struct [OF deep_copy_both [OF listMeta.deep_copy_axioms deep_items_BucketClass [where order = order]],
        where get = "\<lambda>s. (bcllm_ListMeta s, bcllm_Items s)"
        and put = "\<lambda>(listMeta, items) s. s\<lparr>bcllm_ListMeta := listMeta,
           bcllm_Items := items\<rparr>" and build = BucketClassList_value])
    (auto simp: BucketClassList_DeepCopyInto_def view_BucketClassList_def BucketClassList_value_def copy_both_def Let_def split: prod.splits)

definition BucketClassList_DeepCopy :: "key_order \<Rightarrow> memory \<Rightarrow> ptr \<Rightarrow> ptr \<times> memory" where
  "BucketClassList_DeepCopy order h p = copy_new CBucketClassList as_BucketClassList (BucketClassList_DeepCopyInto order) h p"

definition BucketAccessClassList_DeepCopyInto :: "key_order \<Rightarrow> memory \<Rightarrow> BucketAccessClassList_mem \<Rightarrow>
   BucketAccessClassList_mem \<times> memory" where
  "BucketAccessClassList_DeepCopyInto order h src =
     (let out = src;
          out = out\<lparr>bacllm_TypeMeta := bacllm_TypeMeta src\<rparr>;
          (listMeta, h) = ListMeta_DeepCopyInto h (bacllm_ListMeta src); out = out\<lparr>bacllm_ListMeta := listMeta\<rparr>;
          (items, h) = copy_BucketAccessClasses order h (bacllm_Items src); out = out\<lparr>bacllm_Items := items\<rparr>
      in (out, h))"

definition BucketAccessClassList_value :: "BucketAccessClassList_mem \<Rightarrow> ListMeta \<times> (TypeMeta \<times> MoreMeta \<times>
   BucketAccessClass) list option \<Rightarrow> TypeMeta \<times> ListMeta \<times> (TypeMeta \<times> MoreMeta \<times> BucketAccessClass)
   list" where
  "BucketAccessClassList_value s = (\<lambda>(listMeta, items). (bacllm_TypeMeta s, listMeta, or_empty items))"

definition view_BucketAccessClassList :: "memory \<Rightarrow> BucketAccessClassList_mem \<Rightarrow> (TypeMeta \<times> ListMeta \<times>
   (TypeMeta \<times> MoreMeta \<times> BucketAccessClass) list) option" where
  "view_BucketAccessClassList h s = map_option (BucketAccessClassList_value s)
     (view_both view_ListMeta view_BucketAccessClasses h (bacllm_ListMeta s, bacllm_Items s))"

interpretation bucketAccessClassList: deep_copy "BucketAccessClassList_DeepCopyInto order" view_BucketAccessClassList for order
  by (rule deep_copy_struct [OF deep_copy_both [OF listMeta.deep_copy_axioms deep_items_BucketAccessClass [where order = order]],
        where get = "\<lambda>s. (bacllm_ListMeta s, bacllm_Items s)"
        and put = "\<lambda>(listMeta, items) s. s\<lparr>bacllm_ListMeta := listMeta,
           bacllm_Items := items\<rparr>" and build = BucketAccessClassList_value])
    (auto simp: BucketAccessClassList_DeepCopyInto_def view_BucketAccessClassList_def BucketAccessClassList_value_def copy_both_def Let_def
       split: prod.splits)

definition BucketAccessClassList_DeepCopy :: "key_order \<Rightarrow> memory \<Rightarrow> ptr \<Rightarrow> ptr \<times> memory" where
  "BucketAccessClassList_DeepCopy order h p = copy_new CBucketAccessClassList as_BucketAccessClassList (BucketAccessClassList_DeepCopyInto order) h p"

definition BucketClaimList_DeepCopyInto :: "key_order \<Rightarrow> memory \<Rightarrow> BucketClaimList_mem \<Rightarrow>
   BucketClaimList_mem \<times> memory" where
  "BucketClaimList_DeepCopyInto order h src =
     (let out = src;
          out = out\<lparr>bclaimlm_TypeMeta := bclaimlm_TypeMeta src\<rparr>;
          (listMeta, h) = ListMeta_DeepCopyInto h (bclaimlm_ListMeta src); out = out\<lparr>bclaimlm_ListMeta := listMeta\<rparr>;
          (items, h) = copy_BucketClaims order h (bclaimlm_Items src); out = out\<lparr>bclaimlm_Items := items\<rparr>
      in (out, h))"

definition BucketClaimList_value :: "BucketClaimList_mem \<Rightarrow> ListMeta \<times> (TypeMeta \<times> MoreMeta \<times> BucketClaim)
   list option \<Rightarrow> TypeMeta \<times> ListMeta \<times> (TypeMeta \<times> MoreMeta \<times> BucketClaim) list" where
  "BucketClaimList_value s = (\<lambda>(listMeta, items). (bclaimlm_TypeMeta s, listMeta, or_empty items))"

definition view_BucketClaimList :: "memory \<Rightarrow> BucketClaimList_mem \<Rightarrow> (TypeMeta \<times> ListMeta \<times> (TypeMeta
   \<times> MoreMeta \<times> BucketClaim) list) option" where
  "view_BucketClaimList h s = map_option (BucketClaimList_value s)
     (view_both view_ListMeta view_BucketClaims h (bclaimlm_ListMeta s, bclaimlm_Items s))"

interpretation bucketClaimList: deep_copy "BucketClaimList_DeepCopyInto order" view_BucketClaimList for order
  by (rule deep_copy_struct [OF deep_copy_both [OF listMeta.deep_copy_axioms deep_items_BucketClaim [where order = order]],
        where get = "\<lambda>s. (bclaimlm_ListMeta s, bclaimlm_Items s)"
        and put = "\<lambda>(listMeta, items) s. s\<lparr>bclaimlm_ListMeta := listMeta,
           bclaimlm_Items := items\<rparr>" and build = BucketClaimList_value])
    (auto simp: BucketClaimList_DeepCopyInto_def view_BucketClaimList_def BucketClaimList_value_def copy_both_def Let_def split: prod.splits)

definition BucketClaimList_DeepCopy :: "key_order \<Rightarrow> memory \<Rightarrow> ptr \<Rightarrow> ptr \<times> memory" where
  "BucketClaimList_DeepCopy order h p = copy_new CBucketClaimList as_BucketClaimList (BucketClaimList_DeepCopyInto order) h p"

definition BucketList_DeepCopyInto :: "key_order \<Rightarrow> memory \<Rightarrow> BucketList_mem \<Rightarrow> BucketList_mem \<times> memory" where
  "BucketList_DeepCopyInto order h src =
     (let out = src;
          out = out\<lparr>blm_TypeMeta := blm_TypeMeta src\<rparr>;
          (listMeta, h) = ListMeta_DeepCopyInto h (blm_ListMeta src); out = out\<lparr>blm_ListMeta := listMeta\<rparr>;
          (items, h) = copy_Buckets order h (blm_Items src); out = out\<lparr>blm_Items := items\<rparr>
      in (out, h))"

definition BucketList_value :: "BucketList_mem \<Rightarrow> ListMeta \<times> (TypeMeta \<times> MoreMeta \<times> Bucket) list option
   \<Rightarrow> TypeMeta \<times> ListMeta \<times> (TypeMeta \<times> MoreMeta \<times> Bucket) list" where
  "BucketList_value s = (\<lambda>(listMeta, items). (blm_TypeMeta s, listMeta, or_empty items))"

definition view_BucketList :: "memory \<Rightarrow> BucketList_mem \<Rightarrow> (TypeMeta \<times> ListMeta \<times> (TypeMeta \<times>
   MoreMeta \<times> Bucket) list) option" where
  "view_BucketList h s = map_option (BucketList_value s)
     (view_both view_ListMeta view_Buckets h (blm_ListMeta s, blm_Items s))"

interpretation bucketList: deep_copy "BucketList_DeepCopyInto order" view_BucketList for order
  by (rule deep_copy_struct [OF deep_copy_both [OF listMeta.deep_copy_axioms deep_items_Bucket [where order = order]],
        where get = "\<lambda>s. (blm_ListMeta s, blm_Items s)"
        and put = "\<lambda>(listMeta, items) s. s\<lparr>blm_ListMeta := listMeta, blm_Items := items\<rparr>" and build = BucketList_value])
    (auto simp: BucketList_DeepCopyInto_def view_BucketList_def BucketList_value_def copy_both_def Let_def split: prod.splits)

definition BucketList_DeepCopy :: "key_order \<Rightarrow> memory \<Rightarrow> ptr \<Rightarrow> ptr \<times> memory" where
  "BucketList_DeepCopy order h p = copy_new CBucketList as_BucketList (BucketList_DeepCopyInto order) h p"

definition BucketAccessList_DeepCopyInto :: "key_order \<Rightarrow> memory \<Rightarrow> BucketAccessList_mem \<Rightarrow>
   BucketAccessList_mem \<times> memory" where
  "BucketAccessList_DeepCopyInto order h src =
     (let out = src;
          out = out\<lparr>balm_TypeMeta := balm_TypeMeta src\<rparr>;
          (listMeta, h) = ListMeta_DeepCopyInto h (balm_ListMeta src); out = out\<lparr>balm_ListMeta := listMeta\<rparr>;
          (items, h) = copy_BucketAccesses order h (balm_Items src); out = out\<lparr>balm_Items := items\<rparr>
      in (out, h))"

definition BucketAccessList_value :: "BucketAccessList_mem \<Rightarrow> ListMeta \<times> (TypeMeta \<times> MoreMeta \<times>
   BucketAccess) list option \<Rightarrow> TypeMeta \<times> ListMeta \<times> (TypeMeta \<times> MoreMeta \<times> BucketAccess) list" where
  "BucketAccessList_value s = (\<lambda>(listMeta, items). (balm_TypeMeta s, listMeta, or_empty items))"

definition view_BucketAccessList :: "memory \<Rightarrow> BucketAccessList_mem \<Rightarrow> (TypeMeta \<times> ListMeta \<times> (TypeMeta
   \<times> MoreMeta \<times> BucketAccess) list) option" where
  "view_BucketAccessList h s = map_option (BucketAccessList_value s)
     (view_both view_ListMeta view_BucketAccesses h (balm_ListMeta s, balm_Items s))"

interpretation bucketAccessList: deep_copy "BucketAccessList_DeepCopyInto order" view_BucketAccessList for order
  by (rule deep_copy_struct [OF deep_copy_both [OF listMeta.deep_copy_axioms deep_items_BucketAccess [where order = order]],
        where get = "\<lambda>s. (balm_ListMeta s, balm_Items s)"
        and put = "\<lambda>(listMeta, items) s. s\<lparr>balm_ListMeta := listMeta, balm_Items := items\<rparr>" and build = BucketAccessList_value])
    (auto simp: BucketAccessList_DeepCopyInto_def view_BucketAccessList_def BucketAccessList_value_def copy_both_def Let_def split: prod.splits)

definition BucketAccessList_DeepCopy :: "key_order \<Rightarrow> memory \<Rightarrow> ptr \<Rightarrow> ptr \<times> memory" where
  "BucketAccessList_DeepCopy order h p = copy_new CBucketAccessList as_BucketAccessList (BucketAccessList_DeepCopyInto order) h p"

subsection \<open>Objects\<close>

text \<open>A value of the interface \<open>runtime.Object\<close> is a pointer with its type.\<close>

datatype runtime_Object = RefBucketClass ptr | RefBucketAccessClass ptr | RefBucketClaim ptr | RefBucket ptr | RefBucketAccess ptr |
   RefBucketClassList ptr | RefBucketAccessClassList ptr | RefBucketClaimList ptr | RefBucketList ptr | RefBucketAccessList ptr

definition BucketClass_DeepCopyObject :: "key_order \<Rightarrow> memory \<Rightarrow> ptr \<Rightarrow> runtime_Object option \<times> memory" where
  "BucketClass_DeepCopyObject order h p =
     (let (c, h) = BucketClass_DeepCopy order h p in if c \<noteq> None then (Some (RefBucketClass c), h) else (None, h))"

definition BucketAccessClass_DeepCopyObject :: "key_order \<Rightarrow> memory \<Rightarrow> ptr \<Rightarrow> runtime_Object option
   \<times> memory" where
  "BucketAccessClass_DeepCopyObject order h p =
     (let (c, h) = BucketAccessClass_DeepCopy order h p in if c \<noteq> None then (Some (RefBucketAccessClass c), h) else (None, h))"

definition BucketClaim_DeepCopyObject :: "key_order \<Rightarrow> memory \<Rightarrow> ptr \<Rightarrow> runtime_Object option \<times> memory" where
  "BucketClaim_DeepCopyObject order h p =
     (let (c, h) = BucketClaim_DeepCopy order h p in if c \<noteq> None then (Some (RefBucketClaim c), h) else (None, h))"

definition Bucket_DeepCopyObject :: "key_order \<Rightarrow> memory \<Rightarrow> ptr \<Rightarrow> runtime_Object option \<times> memory" where
  "Bucket_DeepCopyObject order h p =
     (let (c, h) = Bucket_DeepCopy order h p in if c \<noteq> None then (Some (RefBucket c), h) else (None, h))"

definition BucketAccess_DeepCopyObject :: "key_order \<Rightarrow> memory \<Rightarrow> ptr \<Rightarrow> runtime_Object option \<times> memory" where
  "BucketAccess_DeepCopyObject order h p =
     (let (c, h) = BucketAccess_DeepCopy order h p in if c \<noteq> None then (Some (RefBucketAccess c), h) else (None, h))"

definition BucketClassList_DeepCopyObject :: "key_order \<Rightarrow> memory \<Rightarrow> ptr \<Rightarrow> runtime_Object option \<times>
   memory" where
  "BucketClassList_DeepCopyObject order h p =
     (let (c, h) = BucketClassList_DeepCopy order h p in if c \<noteq> None then (Some (RefBucketClassList c), h) else (None, h))"

definition BucketAccessClassList_DeepCopyObject :: "key_order \<Rightarrow> memory \<Rightarrow> ptr \<Rightarrow> runtime_Object option
   \<times> memory" where
  "BucketAccessClassList_DeepCopyObject order h p =
     (let (c, h) = BucketAccessClassList_DeepCopy order h p in if c \<noteq> None then (Some (RefBucketAccessClassList c), h) else (None, h))"

definition BucketClaimList_DeepCopyObject :: "key_order \<Rightarrow> memory \<Rightarrow> ptr \<Rightarrow> runtime_Object option \<times>
   memory" where
  "BucketClaimList_DeepCopyObject order h p =
     (let (c, h) = BucketClaimList_DeepCopy order h p in if c \<noteq> None then (Some (RefBucketClaimList c), h) else (None, h))"

definition BucketList_DeepCopyObject :: "key_order \<Rightarrow> memory \<Rightarrow> ptr \<Rightarrow> runtime_Object option \<times> memory" where
  "BucketList_DeepCopyObject order h p =
     (let (c, h) = BucketList_DeepCopy order h p in if c \<noteq> None then (Some (RefBucketList c), h) else (None, h))"

definition BucketAccessList_DeepCopyObject :: "key_order \<Rightarrow> memory \<Rightarrow> ptr \<Rightarrow> runtime_Object option
   \<times> memory" where
  "BucketAccessList_DeepCopyObject order h p =
     (let (c, h) = BucketAccessList_DeepCopy order h p in if c \<noteq> None then (Some (RefBucketAccessList c), h) else (None, h))"
text \<open>The method of the object's type, and the object as it is read.\<close>

fun DeepCopyObject :: "key_order \<Rightarrow> memory \<Rightarrow> runtime_Object \<Rightarrow> runtime_Object option \<times> memory" where
  "DeepCopyObject order h (RefBucketClass p) = BucketClass_DeepCopyObject order h p"
| "DeepCopyObject order h (RefBucketAccessClass p) = BucketAccessClass_DeepCopyObject order h p"
| "DeepCopyObject order h (RefBucketClaim p) = BucketClaim_DeepCopyObject order h p"
| "DeepCopyObject order h (RefBucket p) = Bucket_DeepCopyObject order h p"
| "DeepCopyObject order h (RefBucketAccess p) = BucketAccess_DeepCopyObject order h p"
| "DeepCopyObject order h (RefBucketClassList p) = BucketClassList_DeepCopyObject order h p"
| "DeepCopyObject order h (RefBucketAccessClassList p) = BucketAccessClassList_DeepCopyObject order h p"
| "DeepCopyObject order h (RefBucketClaimList p) = BucketClaimList_DeepCopyObject order h p"
| "DeepCopyObject order h (RefBucketList p) = BucketList_DeepCopyObject order h p"
| "DeepCopyObject order h (RefBucketAccessList p) = BucketAccessList_DeepCopyObject order h p"

datatype api_object = ApiBucketClass "TypeMeta \<times> MoreMeta \<times> BucketClass"
  | ApiBucketAccessClass "TypeMeta \<times> MoreMeta \<times> BucketAccessClass"
  | ApiBucketClaim "TypeMeta \<times> MoreMeta \<times> BucketClaim"
  | ApiBucket "TypeMeta \<times> MoreMeta \<times> Bucket"
  | ApiBucketAccess "TypeMeta \<times> MoreMeta \<times> BucketAccess"
  | ApiBucketClassList "TypeMeta \<times> ListMeta \<times> (TypeMeta \<times> MoreMeta \<times> BucketClass) list"
  | ApiBucketAccessClassList "TypeMeta \<times> ListMeta \<times> (TypeMeta \<times> MoreMeta \<times> BucketAccessClass) list"
  | ApiBucketClaimList "TypeMeta \<times> ListMeta \<times> (TypeMeta \<times> MoreMeta \<times> BucketClaim) list"
  | ApiBucketList "TypeMeta \<times> ListMeta \<times> (TypeMeta \<times> MoreMeta \<times> Bucket) list"
  | ApiBucketAccessList "TypeMeta \<times> ListMeta \<times> (TypeMeta \<times> MoreMeta \<times> BucketAccess) list"

fun view_object :: "memory \<Rightarrow> runtime_Object \<Rightarrow> api_object option option" where
  "view_object h (RefBucketClass p) = map_option (map_option ApiBucketClass) (view_ptr as_BucketClass view_BucketClass h p)"
| "view_object h (RefBucketAccessClass p) = map_option (map_option ApiBucketAccessClass) (view_ptr as_BucketAccessClass view_BucketAccessClass h p)"
| "view_object h (RefBucketClaim p) = map_option (map_option ApiBucketClaim) (view_ptr as_BucketClaim view_BucketClaim h p)"
| "view_object h (RefBucket p) = map_option (map_option ApiBucket) (view_ptr as_Bucket view_Bucket h p)"
| "view_object h (RefBucketAccess p) = map_option (map_option ApiBucketAccess) (view_ptr as_BucketAccess view_BucketAccess h p)"
| "view_object h (RefBucketClassList p) = map_option (map_option ApiBucketClassList) (view_ptr as_BucketClassList view_BucketClassList h p)"
| "view_object h (RefBucketAccessClassList p) = map_option (map_option ApiBucketAccessClassList) (view_ptr as_BucketAccessClassList view_BucketAccessClassList h p)"
| "view_object h (RefBucketClaimList p) = map_option (map_option ApiBucketClaimList) (view_ptr as_BucketClaimList view_BucketClaimList h p)"
| "view_object h (RefBucketList p) = map_option (map_option ApiBucketList) (view_ptr as_BucketList view_BucketList h p)"
| "view_object h (RefBucketAccessList p) = map_option (map_option ApiBucketAccessList) (view_ptr as_BucketAccessList view_BucketAccessList h p)"

lemma deep_BucketClass: "deep_copy (BucketClass_DeepCopy order) (view_ptr as_BucketClass view_BucketClass)"
  unfolding BucketClass_DeepCopy_def [abs_def] by (rule deep_copy_new [OF bucketClass.deep_copy_axioms]) (simp add: as_BucketClass_def)

lemma deep_BucketAccessClass: "deep_copy (BucketAccessClass_DeepCopy order) (view_ptr as_BucketAccessClass view_BucketAccessClass)"
  unfolding BucketAccessClass_DeepCopy_def [abs_def] by (rule deep_copy_new [OF bucketAccessClass.deep_copy_axioms]) (simp add: as_BucketAccessClass_def)

lemma deep_BucketClaim: "deep_copy (BucketClaim_DeepCopy order) (view_ptr as_BucketClaim view_BucketClaim)"
  unfolding BucketClaim_DeepCopy_def [abs_def] by (rule deep_copy_new [OF bucketClaim.deep_copy_axioms]) (simp add: as_BucketClaim_def)

lemma deep_Bucket: "deep_copy (Bucket_DeepCopy order) (view_ptr as_Bucket view_Bucket)"
  unfolding Bucket_DeepCopy_def [abs_def] by (rule deep_copy_new [OF bucket.deep_copy_axioms]) (simp add: as_Bucket_def)

lemma deep_BucketAccess: "deep_copy (BucketAccess_DeepCopy order) (view_ptr as_BucketAccess view_BucketAccess)"
  unfolding BucketAccess_DeepCopy_def [abs_def] by (rule deep_copy_new [OF bucketAccess.deep_copy_axioms]) (simp add: as_BucketAccess_def)

lemma deep_BucketClassList: "deep_copy (BucketClassList_DeepCopy order) (view_ptr as_BucketClassList view_BucketClassList)"
  unfolding BucketClassList_DeepCopy_def [abs_def] by (rule deep_copy_new [OF bucketClassList.deep_copy_axioms]) (simp add: as_BucketClassList_def)

lemma deep_BucketAccessClassList: "deep_copy (BucketAccessClassList_DeepCopy order) (view_ptr as_BucketAccessClassList view_BucketAccessClassList)"
  unfolding BucketAccessClassList_DeepCopy_def [abs_def] by (rule deep_copy_new [OF bucketAccessClassList.deep_copy_axioms]) (simp add: as_BucketAccessClassList_def)

lemma deep_BucketClaimList: "deep_copy (BucketClaimList_DeepCopy order) (view_ptr as_BucketClaimList view_BucketClaimList)"
  unfolding BucketClaimList_DeepCopy_def [abs_def] by (rule deep_copy_new [OF bucketClaimList.deep_copy_axioms]) (simp add: as_BucketClaimList_def)

lemma deep_BucketList: "deep_copy (BucketList_DeepCopy order) (view_ptr as_BucketList view_BucketList)"
  unfolding BucketList_DeepCopy_def [abs_def] by (rule deep_copy_new [OF bucketList.deep_copy_axioms]) (simp add: as_BucketList_def)

lemma deep_BucketAccessList: "deep_copy (BucketAccessList_DeepCopy order) (view_ptr as_BucketAccessList view_BucketAccessList)"
  unfolding BucketAccessList_DeepCopy_def [abs_def] by (rule deep_copy_new [OF bucketAccessList.deep_copy_axioms]) (simp add: as_BucketAccessList_def)

text \<open>The copy reads as the object does, and a write to a cell of one of the two is not seen by the other.\<close>

definition copied_apart :: "key_order \<Rightarrow> memory \<Rightarrow> runtime_Object \<Rightarrow> api_object \<Rightarrow> bool" where
  "copied_apart order h ob v \<longleftrightarrow> (\<exists>ob' e. DeepCopyObject order h ob = (Some ob', h @ e) \<and> view_object (h @ e) ob' = Some (Some v) \<and>
     (\<forall>a c. a < length h \<longrightarrow> view_object ((h @ e)[a := c]) ob' = Some (Some v)) \<and>
     (\<forall>a c. length h \<le> a \<longrightarrow> view_object ((h @ e)[a := c]) ob = Some (Some v)))"

lemma copied_apartI:
  assumes "deep_copy copy (view_ptr proj view)"
    and read: "\<And>g p. view_object g (tag p) = map_option (map_option api) (view_ptr proj view g p)"
    and copy: "\<And>p. DeepCopyObject order h (tag p) = (let (c, g) = copy h p in if c \<noteq> None then (Some (tag c), g) else (None, g))"
    and "view_object h (tag p) = Some (Some v)"
  shows "copied_apart order h (tag p) v"
proof -
  obtain w where w: "view_ptr proj view h p = Some (Some w)" "v = api w" using assms(4) by (auto simp: read)
  obtain q e where q: "copy h p = (q, h @ e)" using deep_copy.copies [OF assms(1) w(1)] by blast
  note kept = deep_copy.copy_reads [OF assms(1) w(1) q] deep_copy.copy_unaffected [OF assms(1) w(1) q]
    deep_copy.original_unaffected [OF assms(1) w(1) q]
  have "q \<noteq> None" using kept(1) by (cases q) (auto simp: view_ptr_def)
  then have "DeepCopyObject order h (tag p) = (Some (tag q), h @ e)" using q by (simp add: copy)
  then show ?thesis unfolding copied_apart_def using kept w(2) by (auto simp: read)
qed

lemma object_copied_apart:
  assumes "view_object h ob = Some (Some v)"
  shows "copied_apart order h ob v"
proof (cases ob)
  case (RefBucketClass p)
  show ?thesis unfolding RefBucketClass
    by (rule copied_apartI [OF deep_BucketClass]) (use assms RefBucketClass in \<open>simp_all add: BucketClass_DeepCopyObject_def\<close>)
next
  case (RefBucketAccessClass p)
  show ?thesis unfolding RefBucketAccessClass
    by (rule copied_apartI [OF deep_BucketAccessClass]) (use assms RefBucketAccessClass in \<open>simp_all add: BucketAccessClass_DeepCopyObject_def\<close>)
next
  case (RefBucketClaim p)
  show ?thesis unfolding RefBucketClaim
    by (rule copied_apartI [OF deep_BucketClaim]) (use assms RefBucketClaim in \<open>simp_all add: BucketClaim_DeepCopyObject_def\<close>)
next
  case (RefBucket p)
  show ?thesis unfolding RefBucket
    by (rule copied_apartI [OF deep_Bucket]) (use assms RefBucket in \<open>simp_all add: Bucket_DeepCopyObject_def\<close>)
next
  case (RefBucketAccess p)
  show ?thesis unfolding RefBucketAccess
    by (rule copied_apartI [OF deep_BucketAccess]) (use assms RefBucketAccess in \<open>simp_all add: BucketAccess_DeepCopyObject_def\<close>)
next
  case (RefBucketClassList p)
  show ?thesis unfolding RefBucketClassList
    by (rule copied_apartI [OF deep_BucketClassList]) (use assms RefBucketClassList in \<open>simp_all add: BucketClassList_DeepCopyObject_def\<close>)
next
  case (RefBucketAccessClassList p)
  show ?thesis unfolding RefBucketAccessClassList
    by (rule copied_apartI [OF deep_BucketAccessClassList]) (use assms RefBucketAccessClassList in \<open>simp_all add: BucketAccessClassList_DeepCopyObject_def\<close>)
next
  case (RefBucketClaimList p)
  show ?thesis unfolding RefBucketClaimList
    by (rule copied_apartI [OF deep_BucketClaimList]) (use assms RefBucketClaimList in \<open>simp_all add: BucketClaimList_DeepCopyObject_def\<close>)
next
  case (RefBucketList p)
  show ?thesis unfolding RefBucketList
    by (rule copied_apartI [OF deep_BucketList]) (use assms RefBucketList in \<open>simp_all add: BucketList_DeepCopyObject_def\<close>)
next
  case (RefBucketAccessList p)
  show ?thesis unfolding RefBucketAccessList
    by (rule copied_apartI [OF deep_BucketAccessList]) (use assms RefBucketAccessList in \<open>simp_all add: BucketAccessList_DeepCopyObject_def\<close>)
qed

text \<open>C23. A copy of an API object or list made by its method DeepCopyObject is independent of it: only fresh memory is taken, the copy reads as the
  object does, no write to memory that was there before changes what the copy reads, and no write to the memory taken
  for the copy changes what the object reads.\<close>

theorem deep_copies_independent:
  assumes "view_object h ob = Some (Some v)"
  shows "\<exists>ob' e. DeepCopyObject order h ob = (Some ob', h @ e) \<and> view_object (h @ e) ob' = Some (Some v) \<and>
    (\<forall>a c. a < length h \<longrightarrow> view_object ((h @ e)[a := c]) ob' = Some (Some v)) \<and>
    (\<forall>a c. length h \<le> a \<longrightarrow> view_object ((h @ e)[a := c]) ob = Some (Some v))"
  using object_copied_apart [OF assms] unfolding copied_apart_def .

subsection \<open>A claim in memory\<close>

definition sample_memory :: memory where
  "sample_memory = [CStrings [ObjectProtocolS3], CBool True, CMap [(''k'', ''v''), (''a'', ''b'')],
     CBucketClaim \<lparr>bcm_TypeMeta = \<lparr>tm_Kind = ''BucketClaim'', tm_APIVersion = ''v1alpha2''\<rparr>,
       bcm_ObjectMeta = \<lparr>omm_Name = ''c'', omm_GenerateName = '''', omm_Namespace = ''ns'', omm_SelfLink = '''', omm_UID = ''u'',
         omm_ResourceVersion = 1, omm_Generation = 1, omm_CreationTimestamp = 5, omm_DeletionTimestamp = None,
         omm_DeletionGracePeriodSeconds = None, omm_Labels = Some 2, omm_Annotations = Some 2, omm_OwnerReferences = None,
         omm_Finalizers = None, omm_ManagedFields = Some 4\<rparr>,
       bcm_Spec = \<lparr>bcsm_BucketClassName = ''gold'', bcsm_ExistingBucketName = '''', bcsm_Protocols = Some 0\<rparr>,
       bcm_Status = \<lparr>bctm_BoundBucketName = ''b'', bctm_ReadyToUse = Some 1, bctm_Protocols = Some 0, bctm_Error = None\<rparr>\<rparr>,
     CManagedFields [\<lparr>mfm_Manager = ''kubectl'', mfm_Operation = ''Apply'', mfm_APIVersion = ''v1alpha2'', mfm_FieldsType = ''FieldsV1'',
       mfm_Subresource = '''', mfm_Time = None, mfm_FieldsV1 = Some 5\<rparr>],
     CFieldsV1 \<lparr>fvm_Raw = Some 6\<rparr>, CBytes ''{}'']"

definition sample_object :: api_object where
  "sample_object = ApiBucketClaim (\<lparr>tm_Kind = ''BucketClaim'', tm_APIVersion = ''v1alpha2''\<rparr>,
     \<lparr>mm_GenerateName = '''', mm_SelfLink = '''', mm_CreationTimestamp = 5, mm_DeletionGracePeriodSeconds = None,
      mm_Labels = [(''a'', ''b''), (''k'', ''v'')],
      mm_ManagedFields = [\<lparr>mf_Manager = ''kubectl'', mf_Operation = ''Apply'', mf_APIVersion = ''v1alpha2'', mf_Time = None,
        mf_FieldsType = ''FieldsV1'', mf_FieldsV1 = Some \<lparr>fv_Raw = ''{}''\<rparr>, mf_Subresource = ''''\<rparr>]\<rparr>,
     \<lparr>bc_meta = \<lparr>Name = ''c'', Namespace = ''ns'', UID = ''u'', ResourceVersion = 1, Generation = 1, DeletionTimestamp = None,
        Finalizers = [], Annotations = [(''a'', ''b''), (''k'', ''v'')], OwnerReferences = []\<rparr>,
      bc_Spec = \<lparr>bcSpec_BucketClassName = ''gold'', bcSpec_Protocols = [ObjectProtocolS3], bcSpec_ExistingBucketName = ''''\<rparr>,
      bc_Status = \<lparr>bcStatus_BoundBucketName = ''b'', bcStatus_ReadyToUse = Some True, bcStatus_Protocols = [ObjectProtocolS3],
        bcStatus_Error = None\<rparr>\<rparr>)"

text \<open>The claim's labels and annotations are one map, as its two protocol lists are one slice; its copy has its own, and keeps
  its labels when that map is emptied.\<close>

theorem deep_copies_independent_witness:
  "\<exists>ob' e. DeepCopyObject (\<lambda>_ _. 0) sample_memory (RefBucketClaim (Some 3)) = (Some ob', sample_memory @ e) \<and>
     view_object ((sample_memory @ e)[2 := CMap []]) ob' = Some (Some sample_object) \<and>
     view_object ((sample_memory @ e)[2 := CMap []]) (RefBucketClaim (Some 3)) \<noteq> Some (Some sample_object)"
proof -
  have "view_object sample_memory (RefBucketClaim (Some 3)) = Some (Some sample_object)" by code_simp
  from deep_copies_independent [OF this, of "\<lambda>_ _. 0"] obtain ob' e where
      c: "DeepCopyObject (\<lambda>_ _. 0) sample_memory (RefBucketClaim (Some 3)) = (Some ob', sample_memory @ e)"
        "\<forall>a c. a < length sample_memory \<longrightarrow> view_object ((sample_memory @ e)[a := c]) ob' = Some (Some sample_object)" by blast
  have "2 < length sample_memory" by (simp add: sample_memory_def)
  moreover have "view_object ((sample_memory @ e)[2 := CMap []]) (RefBucketClaim (Some 3)) \<noteq> Some (Some sample_object)"
    by (simp add: sample_memory_def sample_object_def view_ptr_def deref_def as_defs view_BucketClaim_def BucketClaim_value_def view_both_def
        view_ObjectMeta_def ObjectMeta_value_def view_BucketClaimSpec_def BucketClaimSpec_value_def view_BucketClaimStatus_def
        view_ManagedFieldsEntry_def ManagedFieldsEntry_value_def view_FieldsV1_def FieldsV1_value_def
        BucketClaimStatus_value_def view_plain_def view_entries_def or_empty_def)
  ultimately show ?thesis using c by blast
qed

end
