(* ===== verification/Spec2Isabelle.thy ===== *)
theory Spec2Isabelle
  imports Protocol Translator Predicates Driver Claim_Controller Bucket_Sidecar Access_Sidecar_Policy Access_Deletion Access_Provisioning
    Access_Lifecycle Call_Bounds Entry_Points Claim_Life Fake_Gen Deep_Copy_Objects
begin

text \<open>
  \<^bold>\<open>Verification of the Container Object Storage Interface (COSI) controllers.\<close>

  COSI lets Kubernetes users request object storage buckets and access to them. Two programs work on the
  same API objects: the \<^emph>\<open>Controller\<close> (one per cluster, \<open>src/controller\<close>) and one \<^emph>\<open>Sidecar\<close> per
  storage driver (\<open>src/sidecar\<close>), which talks to the driver over gRPC.
  \<^item> A user creates a BucketClaim. The Controller creates a Bucket for it (or binds an existing one)
    and copies the Bucket's readiness into the claim.
  \<^item> The Sidecar of the Bucket's driver asks the driver to create or look up the backend bucket and
    records the answer in the Bucket's status.
  \<^item> A user creates a BucketAccess for some claims. The Controller marks the claims, waits until they are
    provisioned and hands the BucketAccess over by filling its status. The Sidecar reserves the Secrets the
    user named, asks the driver for access, fills the Secrets and makes the BucketAccess ready. On deletion
    the Sidecar cleans up and hands it back by an annotation, and the Controller finishes.

  \<^bold>\<open>Theories.\<close>
  \<^item> \<open>Go_Prelude\<close>, \<open>Go_Errors\<close>, \<open>Go_Monad\<close>: the part of Go the programs use. Maps are association lists
    (contract \<open>go_map\<close>), the open order of \<open>range\<close> is a rank of the keys, errors are trees that
    \<open>errors.Is\<close> and \<open>errors.As\<close> walk (\<open>internal/errors\<close>), a function with effects is a state transformer that
    returns an error or a value and keeps its state on an error.
  \<^item> \<open>Cosi_Api\<close> (\<open>client/apis/objectstorage/v1alpha2\<close>) and \<open>Cosi_Proto\<close> (\<open>proto/cosi.pb.go\<close>): the
    objects and messages, one record per struct; enums of the wire are 32-bit words.
  \<^item> \<open>Protocol\<close> (\<open>internal/protocol\<close>), \<open>Translator\<close> (\<open>sidecar/internal/translator\<close>): bucket info and
    credentials between the wire and the API; one contract \<open>rpc_api_translator\<close>, interpreted on the six
    translators; round trips and exactly what is accepted.
  \<^item> \<open>Handoff\<close> (\<open>internal/bucketaccess\<close>) and \<open>Predicates\<close> (\<open>internal/predicate\<close> and the filters of
    \<open>SetupWithManager\<close>): who manages a BucketAccess, and which events reach whose queue.
  \<^item> \<open>Driver\<close> (\<open>sidecar/cmd/rpc.go\<close>, \<open>sidecar/pkg/reconciler/driver.go\<close>): connecting to the driver, checking its
    name and protocols, which RPC errors are retried.
  \<^item> \<open>Cluster\<close>: the outside. The API server, the driver, the clock and the map order are the fields of an
    environment, a parameter of which nothing is assumed; a run records its calls with their results. The
    predicate \<open>allowed\<close> is the form of the safety properties: every call of a run is permitted after the
    calls before it. \<open>vc\<close> is the verification condition of a program, with one introduction rule per
    combinator and rules for loops with an invariant.
  \<^item> \<open>Work_Queue\<close>: the contract \<open>reconciler\<close>, the shell the reconcilers share (read the object, run \<open>reconcile\<close>, report its error or
    finish) with the laws of its parts, interpreted in the theories of the reconcilers; what follows for a whole run and for the queue of
    \<open>controller-runtime\<close> (\<open>reconcileHandler\<close>) is proved once.
  \<^item> \<open>Claim_Controller\<close>, \<open>Access_Controller\<close> (\<open>controller/pkg/reconciler\<close>), \<open>Bucket_Sidecar\<close>,
    \<open>Access_Sidecar\<close> (\<open>sidecar/pkg/reconciler\<close>): the reconcilers, one definition per Go function, each with its
    policy (what it may do) and the proof that every run keeps to it; \<open>Access_Sidecar_Policy\<close> holds this
    for the largest one.
  \<^item> \<open>Calls_Made\<close>, \<open>Access_Flow\<close>: which calls a program makes at all, and the flow of one run of a BucketAccess
    reconciler: every write of the object is made from the newest version the run has seen.
  \<^item> \<open>Version_History\<close>, \<open>Access_Lifecycle\<close>: all versions of one BucketAccess in the API server, written by the Controller,
    any number of Sidecars and other clients in any interleaving, with stale reads; a write is accepted only if it
    names the newest version. An abstract life (\<open>phase\<close>, \<open>phase_step\<close>) is refined by every such history.
  \<^item> \<open>Access_Provisioning\<close>, \<open>Access_Deletion\<close>: with a server that stores what it is given and a driver that answers,
    granting an access and the deletion of a BucketAccess complete through both programs. \<open>Call_Bounds\<close>: how many calls a run makes.
  \<^item> \<open>Claim_Life\<close>: a concrete API server (objects with versions, status subresources, finalizers and deletion
    timestamps) and symbolic execution on it (\<open>wp\<close>): a BucketClaim from its creation to readiness through runs of both programs, and
    from the request of its deletion to its end.
  \<^item> \<open>Entry_Points\<close> (\<open>sidecar/cmd/main.go\<close>, \<open>controller/cmd/main.go\<close>): the start of the programs, with Go's parsing of
    the command line, the options of the manager and the exit codes.
  \<^item> \<open>Fake_Gen\<close> (\<open>proto/hack/fake-gen\<close>, \<open>proto/fake\<close>): the protoc plugin that makes the fake clients, and the checked-in
    fakes as its output.
  \<^item> \<open>Go_Memory\<close>, \<open>Deep_Copy\<close>, \<open>Deep_Copy_Objects\<close> (\<open>zz_generated.deepcopy.go\<close>): the copy functions of the API types over an explicit
    memory of cells, slices, maps and pointers. The locale \<open>deep_copy\<close> is the contract of a copy function, shown once for each step
    (assignment, \<open>new\<close> and \<open>make\<close>, loops over slices and maps, fields) and interpreted for every type.
  \<^item> This theory: what holds across components.

  \<^bold>\<open>State and operations.\<close> A reconciler's state is the world of the environment, the calls so far and the object
  in memory that \<open>Reconcile\<close> and \<open>reconcile\<close> share by pointer. A write returns the object as stored, which
  replaces the one in memory, as the client does. The environment may answer anything, so other clients
  may change every object between two calls; what a reconciler knows is what the answers of this run told
  it, and the policies are stated in these terms.

  \<^bold>\<open>What is shown.\<close> For every environment: each run returns, no error is lost and none is taken for a success; a BucketAccess has one
  manager; no status write degrades it as long as the objects read meet the schema; readiness of claims, Buckets and accesses only by the facts that
  justify it; requests to the driver exactly those of the object and only when due; Secrets written only
  when owned and filled with what can be read back; deletions in order, finalizers given up last. Where claims of an access have the same
  bucket ID only the last of them is served (\<open>served_claims\<close>), and the properties of granting say so. With an
  API server that stores what it is given and a driver that answers, provisioning a claim, deleting a claim whose Bucket is retained,
  granting an access and deleting one complete. For the policy Delete only what the code does is recorded (\<open>claim_deletion_completes\<close>):
  the objects go, while the mark of accesses on the claim is not looked at and the backend bucket is not deleted. With an API server that checks versions, every accepted write of a BucketAccess is its
  manager's, every stored version is well-formed, what was handed over never changes, and the stored versions
  refine the abstract life. The Sidecar starts exactly with a validated driver, whose name the API accepts, and its wait for the driver ends. Copies of API objects,
  all of their metadata included, share no memory with them.

  \<^bold>\<open>Bounds.\<close> No loop of the programs is unbounded but the wait for the connection in \<open>sidecar/cmd/rpc.go\<close>
  (\<open>wait_loop\<close>, for which not returning is a value), which is shown to return once the context has ended; all other
  functions of the model are total, and no fuel is used. A run makes at most one RPC.

  \<^bold>\<open>Not modelled.\<close> Logging; the generated gRPC and JSON bindings, whose bodies are single calls of the protobuf runtime; test
  helpers; schema markers of the API types other than the immutability rules and the form of \<open>driverName\<close>, which the API server enforces; the queue's
  back-off and the caches of \<open>controller-runtime\<close>. Contexts are never cancelled in the reconcilers: a cancelled call is a call that
  fails.
\<close>

subsection \<open>Errors\<close>

text \<open>C1. No reconciler loses an error or fails to return, whatever the API server and the driver do. Each run ends
  with an outcome. It is success only if the object does not exist, is not this reconciler's, or the last call
  stored what a success stores (a status without error, an object whose finalizer was taken off or that is handed back), or the
  BucketAccess turned out to be handed over already when the Controller stored its finalizer; and only if no call failed, reads of
  objects that may be missing apart. An error that is given up is non-retryable and the last call stored its text in the status of
  the object; an error that is retried is that of the last call, or the last call wrote its text into the status, and failed or stored an
  error that is not non-retryable. When the object cannot be read the outcome is that error, unless the object does not exist; when
  reconcile fails, the outcome is an error that wraps the one reconcile returned, never success.\<close>

theorem reconcilers_report_errors:
  "reported claim_fine (claim_Reconcile E req) (start c w) \<and>
   reported access_controller_fine (access_controller_Reconcile E req) (start a w) \<and>
   reported (bucket_fine d) (bucket_sidecar_Reconcile d E req) (start b w) \<and>
   reported (access_sidecar_fine d) (access_sidecar_Reconcile d E req) (start a w) \<and>
   passes_error (e_GetClaim E req) (GetClaim req) (\<lambda>_. True) (claim_reconcile E) (\<lambda>e. e) (claim_Reconcile E req) c w \<and>
   passes_error (e_GetAccess E req) (GetAccess req) (\<lambda>x. \<not> ManagedBySidecar x) (access_controller_reconcile E)
     (Wrapf ''COSI Controller error: %w'' []) (access_controller_Reconcile E req) a w \<and>
   passes_error (e_GetBucket E req) (GetBucket req) (\<lambda>_. True) (bucket_sidecar_reconcile d E) (\<lambda>e. e)
     (bucket_sidecar_Reconcile d E req) b w \<and>
   passes_error (e_GetAccess E req) (GetAccess req) ManagedBySidecar (access_sidecar_reconcile d E)
     (Wrapf ''COSI Sidecar error: %w'' []) (access_sidecar_Reconcile d E req) a w"
  by (intro conjI claim_rec.reported_run access_controller_rec.reported_run bucket_sidecar_rec.reported_run
      access_sidecar_rec.reported_run claim_rec.error_passed access_controller_rec.error_passed
      bucket_sidecar_rec.error_passed access_sidecar_rec.error_passed)

subsection \<open>One manager\<close>

text \<open>C22. A BucketAccess has one manager: whichever object the API server returns, at least one of Controller and
  Sidecar does nothing but read it.\<close>

theorem one_manager_acts:
  assumes "fst (e_GetAccess E req w) = Inr a"
  shows "(if ManagedBySidecar a then trace (access_controller_Reconcile E req) (start ob w)
          else trace (access_sidecar_Reconcile d E req) (start ob w)) = [GetAccess req (Inr a)]"
  using assms
  by (cases "e_GetAccess E req w")
    (auto simp: trace_def access_controller_Reconcile_def access_sidecar_Reconcile_def handle_def ask_def ret_def)

theorem one_manager_acts_witness:
  "trace (access_sidecar_Reconcile sample_driver (sample_env\<lparr>e_GetAccess := \<lambda>_ w. (Inr access_requested, w)\<rparr>)
      \<lparr>nn_Namespace = ''ns'', nn_Name = ''access''\<rparr>) (start access_requested ()) =
    [GetAccess \<lparr>nn_Namespace = ''ns'', nn_Name = ''access''\<rparr> (Inr access_requested)]"
  using one_manager_acts [of "sample_env\<lparr>e_GetAccess := \<lambda>_ w. (Inr access_requested, w)\<rparr>"
      "\<lparr>nn_Namespace = ''ns'', nn_Name = ''access''\<rparr>" "()" access_requested access_requested sample_driver]
  by (simp add: handed_off_managers)

subsection \<open>The handoff\<close>

lemma same_handoff_requirements:
  "same_handoff old new \<Longrightarrow> SidecarRequirementsPresent new = SidecarRequirementsPresent old"
  by (simp add: same_handoff_def SidecarRequirementsPresent_def)

text \<open>What the schema of the API guarantees of an object the server returns: a class has a driver and an authentication
  type, a BucketAccess has a claim.\<close>

fun admitted :: "call \<Rightarrow> bool" where
  "admitted (GetAccessClass _ (Inr cls)) = well_formed_class cls"
| "admitted (GetAccess _ (Inr a)) = (baSpec_BucketClaims (ba_Spec a) \<noteq> [])"
| "admitted (UpdateAccess _ (Inr a)) = (baSpec_BucketClaims (ba_Spec a) \<noteq> [])"
| "admitted (StatusAccess _ (Inr a)) = (baSpec_BucketClaims (ba_Spec a) \<noteq> [])"
| "admitted _ = True"

lemma admitted_newest:
  assumes "list_all admitted h" and "newest (view h) = Some a"
  shows "baSpec_BucketClaims (ba_Spec a) \<noteq> []"
proof -
  obtain c where "c \<in> set h" "seen_access c = Some a" using newest_view_seen [OF assms(2)] by blast
  then have "admitted c" "seen_access c = Some a" using assms(1) by (auto simp: list_all_iff)
  then show ?thesis by (cases c rule: admitted.cases) (simp_all add: seen_access_def good_def)
qed

lemma controller_write_requirements:
  assumes "list_all admitted h" and "newest (view h) = Some old" and "controller_write (view h) del old new"
  shows "SidecarRequirementsPresent (ba_Status new) = SidecarRequirementsPresent (ba_Status old) \<or>
    baStatus_AccessedBuckets (ba_Status old) = [] \<and> SidecarRequirementsPresent (ba_Status new) = Inr True"
proof (cases "same_handoff (ba_Status old) (ba_Status new)")
  case False
  then have h: "hands_over (view h) old new" using assms(3) by (simp add: controller_write_def)
  have "well_formed_class cls" if "GetAccessClass k (Inr cls) \<in> set (view h)" for k cls
    using assms(1) that view_subset [of h] by (auto simp: list_all_iff dest!: subsetD bspec)
  from hands_over_class [OF h this] show ?thesis
    using h admitted_newest [OF assms(1,2)] by (auto simp: SidecarRequirementsPresent_True hands_over_def)
qed (simp add: same_handoff_requirements)

text \<open>C26. Controller and Sidecar never degrade a BucketAccess, as long as the objects the API server returns meet the schema
  (a class has a driver and an authentication type, an access has a claim). Whatever status the Controller writes, at any point of a run,
  is initialized, uninitialized or degraded as that of the newest version the run has seen, or that version has no accessed buckets and
  the status is fully initialized; what the Sidecar writes is as that of the newest version it has seen.\<close>

theorem status_never_degraded:
  assumes "list_all admitted h"
  shows "(trace (access_controller_Reconcile E req) (start ob w) = later @ StatusAccess new r # h \<longrightarrow>
      (\<exists>old. newest (view h) = Some old \<and>
        (SidecarRequirementsPresent (ba_Status new) = SidecarRequirementsPresent (ba_Status old) \<or>
         baStatus_AccessedBuckets (ba_Status old) = [] \<and> SidecarRequirementsPresent (ba_Status new) = Inr True))) \<and>
    (trace (access_sidecar_Reconcile d E req) (start ob w) = later @ StatusAccess new r # h \<longrightarrow>
      (\<exists>old. newest (view h) = Some old \<and>
        SidecarRequirementsPresent (ba_Status new) = SidecarRequirementsPresent (ba_Status old)))"
proof (intro conjI impI)
  assume t: "trace (access_controller_Reconcile E req) (start ob w) = later @ StatusAccess new r # h"
  have "controller_flow (view h) (StatusAccess new r)"
    using write_split(1) [OF controller_Reconcile_flow [of E req ob w, unfolded t]] by simp
  then obtain old del where "newest (view h) = Some old" "controller_write (view h) del old new"
    using controller_flow_status by blast
  then show "\<exists>old. newest (view h) = Some old \<and>
      (SidecarRequirementsPresent (ba_Status new) = SidecarRequirementsPresent (ba_Status old) \<or>
       baStatus_AccessedBuckets (ba_Status old) = [] \<and> SidecarRequirementsPresent (ba_Status new) = Inr True)"
    using controller_write_requirements [OF assms] by blast
next
  assume t: "trace (access_sidecar_Reconcile d E req) (start ob w) = later @ StatusAccess new r # h"
  have "sidecar_flow d (view h) (StatusAccess new r)"
    using write_split(1) [OF sidecar_Reconcile_flow [of d E req ob w, unfolded t]] by simp
  then show "\<exists>old. newest (view h) = Some old \<and>
      SidecarRequirementsPresent (ba_Status new) = SidecarRequirementsPresent (ba_Status old)"
    using sidecar_flow_status same_handoff_requirements by (fastforce simp: sidecar_write_def)
qed

text \<open>The run that hands over the sample BucketAccess of the life.\<close>

definition hands_over_sample :: "call list \<Rightarrow> bool" where
  "hands_over_sample t = (case t of
       StatusAccess new _ # h \<Rightarrow> list_all admitted h \<and> newest (view h) = Some life1 \<and> baStatus_DriverName (ba_Status new) = ''driver''
     | _ \<Rightarrow> False)"

lemma handover_run: "hands_over_sample (controller_run life1)"
  by code_simp

theorem status_never_degraded_witness:
  "case controller_run life1 of
     StatusAccess new _ # _ \<Rightarrow> SidecarRequirementsPresent (ba_Status life1) = Inr False \<and> SidecarRequirementsPresent (ba_Status new) = Inr True
   | _ \<Rightarrow> False"
proof -
  obtain new r h where t: "controller_run life1 = [] @ StatusAccess new r # h" and h: "list_all admitted h" "newest (view h) = Some life1"
      "baStatus_DriverName (ba_Status new) = ''driver''"
    using handover_run by (auto simp: hands_over_sample_def split: list.splits call.splits)
  have "SidecarRequirementsPresent (ba_Status life1) = Inr False"
    by (simp add: life1_def SidecarRequirementsPresent_False)
  moreover have "SidecarRequirementsPresent (ba_Status new) \<noteq> Inr False"
    using h(3) by (simp add: SidecarRequirementsPresent_False)
  ultimately show ?thesis
    using status_never_degraded [OF h(1), of life_env life_req life1 life1 "[]" new r] t h(2) by (auto simp: controller_run_def)
qed

text \<open>C28. The hand-back reaches the Controller: the object the Sidecar stores at the end of its cleanup of a deleting
  BucketAccess is the Controller's, the Controller's queue gets the update, and the finalizer is still on
  it.\<close>

theorem handback_reaches_controller:
  assumes "deleting (ba_meta a)" and "ManagedBySidecar a"
  shows "\<not> ManagedBySidecar (mark_cleanup_finished a) \<and>
    admits access_controller_filter (UpdateEvent (ObjBucketAccess a) (ObjBucketAccess (mark_cleanup_finished a))) \<and>
    Finalizers (ba_meta (mark_cleanup_finished a)) = Finalizers (ba_meta a)"
proof -
  have m: "\<not> ManagedBySidecar (mark_cleanup_finished a)"
    using assms(1) by (simp add: ManagedBySidecar_iff mark_cleanup_finished_def deleting_def)
  then show ?thesis
    using assms by (simp add: filter_defs update_admits update_admits_handoff BucketAccessManagedByController_def)
      (simp add: mark_cleanup_finished_def)
qed

theorem handback_reaches_controller_witness:
  "let a = access_handed_off\<lparr>ba_meta := (ba_meta access_handed_off)\<lparr>DeletionTimestamp := Some 9\<rparr>\<rparr>
   in admits access_controller_filter (UpdateEvent (ObjBucketAccess a) (ObjBucketAccess (mark_cleanup_finished a)))"
  using handback_reaches_controller [of "access_handed_off\<lparr>ba_meta := (ba_meta access_handed_off)\<lparr>DeletionTimestamp := Some 9\<rparr>\<rparr>"]
  by (simp add: ManagedBySidecar_def access_handed_off_def access_requested_def deleting_def IsZero_def Let_def)

end
